(* ===== verification/Relay_Prelude.thy ===== *)
theory Relay_Prelude
  imports Main "HOL-Library.Char_ord" "HOL-Library.List_Lexorder"
begin

text \<open>
  The vocabulary every component of the relay model shares: fallible results, the state monad
  of a database transaction with its weakest-precondition rules, Rust's string operations, and
  the table operations of SQLite that the source uses (select by key, insert under a key, update
  of the rows that satisfy a condition).
\<close>

named_theorems wp_rules "weakest preconditions of the transaction monad"
named_theorems frame_rules "what an operation leaves unchanged"

subsection \<open>Results\<close>

text \<open>
  The JSON values of \<^verbatim>\<open>serde_json\<close>. An object is a \<^verbatim>\<open>BTreeMap\<close>: an association list kept
  strictly sorted by key (\<open>wf_json\<close> in \<^verbatim>\<open>Relay_Json\<close>). Numbers are the integers of
  \<^verbatim>\<open>serde_json::Number\<close>; the relay never builds or accepts a float.
\<close>

datatype json =
    JNull
  | JBool bool
  | JInt int
  | JStr string
  | JArr "json list"
  | JObj "(string \<times> json) list"

text \<open>
  A call ends with a value, with an \<^verbatim>\<open>ApiError\<close> (its code and its optional context), or with a
  panic (an \<^verbatim>\<open>unwrap\<close>, \<^verbatim>\<open>expect\<close> or \<^verbatim>\<open>unreachable!\<close> that fails).
\<close>

datatype failure = Err string "json option" | Panic

type_synonym 'a res = "failure + 'a"

definition err :: "string \<Rightarrow> failure" where
  "err code = Err code None"

fun rbind :: "'a res \<Rightarrow> ('a \<Rightarrow> 'b res) \<Rightarrow> 'b res" where
  "rbind (Inl e) f = Inl e"
| "rbind (Inr x) f = f x"

text \<open>\<open>reject b code\<close> is the source's \<^verbatim>\<open>if b { return Err(err(code)) }\<close>.\<close>

definition reject :: "bool \<Rightarrow> string \<Rightarrow> unit res" where
  "reject b code = (if b then Inl (err code) else Inr ())"

text \<open>\<^verbatim>\<open>Option::ok_or_else(|| err(code))\<close> and \<^verbatim>\<open>Result::map_err(|_| err(code))\<close>.\<close>

definition ok_or :: "string \<Rightarrow> 'a option \<Rightarrow> 'a res" where
  "ok_or code opt = (case opt of None \<Rightarrow> Inl (err code) | Some x \<Rightarrow> Inr x)"

definition unwrap :: "'a option \<Rightarrow> 'a res" where
  "unwrap opt = (case opt of None \<Rightarrow> Inl Panic | Some x \<Rightarrow> Inr x)"

fun map_err :: "string \<Rightarrow> 'a res \<Rightarrow> 'a res" where
  "map_err code (Inl (Err c x)) = Inl (err code)"
| "map_err code (Inl Panic) = Inl Panic"
| "map_err code (Inr x) = Inr x"

fun is_ok :: "'a res \<Rightarrow> bool" where
  "is_ok (Inl e) = False"
| "is_ok (Inr x) = True"

lemma rbind_Inr_iff [simp]: "rbind m f = Inr y \<longleftrightarrow> (\<exists>x. m = Inr x \<and> f x = Inr y)"
  by (cases m) auto

lemma rbind_Inl_iff: "rbind m f = Inl e \<longleftrightarrow> m = Inl e \<or> (\<exists>x. m = Inr x \<and> f x = Inl e)"
  by (cases m) auto

lemma reject_Inr_iff [simp]: "reject b code = Inr u \<longleftrightarrow> \<not> b"
  by (simp add: reject_def)

lemma reject_Inl_iff: "reject b code = Inl e \<longleftrightarrow> b \<and> e = err code"
  by (auto simp: reject_def)

lemma ok_or_Inr_iff [simp]: "ok_or code opt = Inr x \<longleftrightarrow> opt = Some x"
  by (auto simp: ok_or_def split: option.splits)

lemma unwrap_Inr_iff [simp]: "unwrap opt = Inr x \<longleftrightarrow> opt = Some x"
  by (auto simp: unwrap_def split: option.splits)

lemma unwrap_ok_or_simps [simp]:
  "unwrap (Some x) = Inr x" "unwrap None = Inl Panic"
  "ok_or code (Some x) = Inr x" "ok_or code None = Inl (err code)"
  by (simp_all add: unwrap_def ok_or_def)

lemma map_err_Inr_iff [simp]: "map_err code m = Inr x \<longleftrightarrow> m = Inr x"
  by (cases "(code, m)" rule: map_err.cases) auto

lemma is_ok_iff: "is_ok m \<longleftrightarrow> (\<exists>x. m = Inr x)"
  by (cases m) auto

text \<open>A loop over a list whose body may return early with an error.\<close>

fun rfold :: "('x \<Rightarrow> 'acc \<Rightarrow> 'acc res) \<Rightarrow> 'x list \<Rightarrow> 'acc \<Rightarrow> 'acc res" where
  "rfold f [] acc = Inr acc"
| "rfold f (x # xs) acc = rbind (f x acc) (rfold f xs)"

definition rall :: "('x \<Rightarrow> unit res) \<Rightarrow> 'x list \<Rightarrow> unit res" where
  "rall f xs = rfold (\<lambda>x _. f x) xs ()"

lemma rall_simps [simp]:
  "rall f [] = Inr ()"
  "rall f (x # xs) = rbind (f x) (\<lambda>_. rall f xs)"
  by (simp_all add: rall_def)

lemma rall_Inr_iff: "rall f xs = Inr u \<longleftrightarrow> (\<forall>x \<in> set xs. f x = Inr ())"
  by (induction xs) auto

lemma rall_append: "rall f (xs @ ys) = rbind (rall f xs) (\<lambda>_. rall f ys)"
proof (induction xs)
  case Nil
  then show ?case by simp
next
  case (Cons x xs)
  then show ?case by (cases "f x") simp_all
qed

subsection \<open>The transaction monad\<close>

text \<open>
  A computation reads and writes the database and may fail. The database is returned on
  failure too: the source commits some failed calls (nonces, rate buckets) and rolls others back.
\<close>

type_synonym ('s, 'a) M = "'s \<Rightarrow> 'a res \<times> 's"

definition ret :: "'a \<Rightarrow> ('s, 'a) M" where
  "ret x = (\<lambda>s. (Inr x, s))"

definition lift :: "'a res \<Rightarrow> ('s, 'a) M" where
  "lift r = (\<lambda>s. (r, s))"

definition gets :: "('s \<Rightarrow> 'a) \<Rightarrow> ('s, 'a) M" where
  "gets f = (\<lambda>s. (Inr (f s), s))"

definition modify :: "('s \<Rightarrow> 's) \<Rightarrow> ('s, unit) M" where
  "modify f = (\<lambda>s. (Inr (), f s))"

definition bindM :: "('s, 'a) M \<Rightarrow> ('a \<Rightarrow> ('s, 'b) M) \<Rightarrow> ('s, 'b) M" where
  "bindM m f = (\<lambda>s. case m s of (Inl e, t) \<Rightarrow> (Inl e, t) | (Inr x, t) \<Rightarrow> f x t)"

definition rejectM :: "bool \<Rightarrow> string \<Rightarrow> ('s, unit) M" where
  "rejectM b code = lift (reject b code)"

definition map_errM :: "string \<Rightarrow> ('s, 'a) M \<Rightarrow> ('s, 'a) M" where
  "map_errM code m = (\<lambda>s. case m s of (r, t) \<Rightarrow> (map_err code r, t))"

fun foldM :: "('x \<Rightarrow> 'acc \<Rightarrow> ('s, 'acc) M) \<Rightarrow> 'x list \<Rightarrow> 'acc \<Rightarrow> ('s, 'acc) M" where
  "foldM f [] acc = ret acc"
| "foldM f (x # xs) acc = bindM (f x acc) (foldM f xs)"

text \<open>
  \<open>wp m Q E s\<close>: run from \<open>s\<close>, a value satisfies \<open>Q\<close> and a failure satisfies \<open>E\<close>, each with
  the database the run leaves.
\<close>

definition wp :: "('s, 'a) M \<Rightarrow> ('a \<Rightarrow> 's \<Rightarrow> bool) \<Rightarrow> (failure \<Rightarrow> 's \<Rightarrow> bool) \<Rightarrow> 's \<Rightarrow> bool" where
  "wp m Q E s = (case m s of (Inl e, t) \<Rightarrow> E e t | (Inr x, t) \<Rightarrow> Q x t)"

lemma wp_ret [simp, wp_rules]: "wp (ret x) Q E s = Q x s"
  by (simp add: wp_def ret_def)

lemma wp_gets [simp, wp_rules]: "wp (gets f) Q E s = Q (f s) s"
  by (simp add: wp_def gets_def)

lemma wp_modify [simp, wp_rules]: "wp (modify f) Q E s = Q () (f s)"
  by (simp add: wp_def modify_def)

lemma wp_lift [wp_rules]: "wp (lift r) Q E s = (case r of Inl e \<Rightarrow> E e s | Inr x \<Rightarrow> Q x s)"
  by (simp add: wp_def lift_def split: sum.splits)

lemma wp_bindM [simp, wp_rules]:
  "wp (bindM m f) Q E s = wp m (\<lambda>x. wp (f x) Q E) E s"
  by (simp add: wp_def bindM_def split: prod.splits sum.splits)

lemma wp_rejectM [simp, wp_rules]:
  "wp (rejectM b code) Q E s = (if b then E (err code) s else Q () s)"
  by (simp add: rejectM_def wp_lift reject_def)

lemma wp_mono:
  assumes "wp m Q E s" and "\<And>x t. Q x t \<Longrightarrow> Q' x t" and "\<And>e t. E e t \<Longrightarrow> E' e t"
  shows "wp m Q' E' s"
  using assms by (auto simp: wp_def split: prod.splits sum.splits)

lemma wp_conj:
  assumes "wp m Q E s" and "wp m Q' E' s"
  shows "wp m (\<lambda>x t. Q x t \<and> Q' x t) (\<lambda>e t. E e t \<and> E' e t) s"
  using assms by (auto simp: wp_def split: prod.splits sum.splits)

lemma wp_run: "wp m Q E s \<Longrightarrow> m s = (Inr x, t) \<Longrightarrow> Q x t"
  by (simp add: wp_def)

lemma wp_fail: "wp m Q E s \<Longrightarrow> m s = (Inl e, t) \<Longrightarrow> E e t"
  by (simp add: wp_def)

lemma wpI:
  assumes "\<And>x t. m s = (Inr x, t) \<Longrightarrow> Q x t" and "\<And>e t. m s = (Inl e, t) \<Longrightarrow> E e t"
  shows "wp m Q E s"
  using assms by (auto simp: wp_def split: prod.splits sum.splits)

lemma wp_map_errM [wp_rules]:
  "wp (map_errM code m) Q E s =
     wp m Q (\<lambda>e t. E (case e of Err c x \<Rightarrow> err code | Panic \<Rightarrow> Panic) t) s"
proof -
  obtain r t where "m s = (r, t)" by fastforce
  then show ?thesis
    by (cases "(code, r)" rule: map_err.cases) (auto simp: wp_def map_errM_def)
qed

text \<open>The invariant rule of a loop: what one iteration keeps, the loop keeps.\<close>

lemma wp_foldM:
  assumes "\<And>x acc s. x \<in> set xs \<Longrightarrow> I acc s \<Longrightarrow> wp (f x acc) I E s" and "I acc s"
  shows "wp (foldM f xs acc) I E s"
  using assms
proof (induction xs arbitrary: acc s)
  case Nil
  then show ?case by simp
next
  case (Cons x xs)
  from Cons.prems have "wp (f x acc) I E s" by simp
  then have "wp (f x acc) (\<lambda>acc'. wp (foldM f xs acc') I E) E s"
    by (rule wp_mono) (use Cons in auto)
  then show ?case by simp
qed

lemma bindM_run:
  "bindM m f s = (Inr y, t) \<longleftrightarrow> (\<exists>x u. m s = (Inr x, u) \<and> f x u = (Inr y, t))"
  by (auto simp: bindM_def split: prod.splits sum.splits)

lemma run_simps [simp]:
  "ret x s = (Inr x, s)" "gets f s = (Inr (f s), s)" "modify g s = (Inr (), g s)"
  "lift r s = (r, s)"
  by (simp_all add: ret_def gets_def modify_def lift_def)

lemma rejectM_run [simp]: "rejectM b code s = (Inr u, t) \<longleftrightarrow> \<not> b \<and> s = t"
  by (auto simp: rejectM_def reject_def)

lemma bindM_ret [simp]: "bindM (ret x) f = f x"
  by (simp add: bindM_def ret_def)

lemma bindM_assoc: "bindM (bindM m f) g = bindM m (\<lambda>x. bindM (f x) g)"
  by (rule ext) (simp add: bindM_def split: prod.splits sum.splits)

text \<open>A computation that only reads.\<close>

definition read_only :: "('s, 'a) M \<Rightarrow> bool" where
  "read_only m \<longleftrightarrow> (\<forall>s. snd (m s) = s)"

lemma read_onlyD: "read_only m \<Longrightarrow> m s = (r, t) \<Longrightarrow> t = s"
  unfolding read_only_def by (metis snd_conv)

lemma read_only_basic [intro, simp]:
  "read_only (ret x)" "read_only (gets f)" "read_only (lift r)" "read_only (rejectM b code)"
  by (simp_all add: read_only_def rejectM_def)

lemma read_only_bindM [intro]:
  "read_only m \<Longrightarrow> (\<And>x. read_only (f x)) \<Longrightarrow> read_only (bindM m f)"
  unfolding read_only_def bindM_def by (auto split: prod.splits sum.splits) (metis snd_conv)+

lemma read_only_cases [intro]:
  "read_only a \<Longrightarrow> (\<And>y. read_only (b y)) \<Longrightarrow> read_only (case opt of None \<Rightarrow> a | Some y \<Rightarrow> b y)"
  "read_only a \<Longrightarrow> read_only a' \<Longrightarrow> read_only (if cond then a else a')"
  "(\<And>y z. read_only (f y z)) \<Longrightarrow> read_only (case p of (y, z) \<Rightarrow> f y z)"
  by (auto split: option.splits prod.splits)

lemma read_only_map_errM [intro]: "read_only m \<Longrightarrow> read_only (map_errM code m)"
  unfolding read_only_def map_errM_def by (auto split: prod.splits) (metis snd_conv)

lemma read_only_foldM [intro]:
  "(\<And>x acc. read_only (f x acc)) \<Longrightarrow> read_only (foldM f xs acc)"
  by (induction xs arbitrary: acc) auto

lemma wp_read_only:
  assumes "read_only m"
  shows "wp m Q E s \<longleftrightarrow> (case fst (m s) of Inl e \<Rightarrow> E e s | Inr x \<Rightarrow> Q x s)"
proof -
  from assms have "snd (m s) = s" by (simp add: read_only_def)
  then show ?thesis by (cases "m s") (auto simp: wp_def split: sum.splits)
qed

end
