(* ===== verification/Relay_Json.thy ===== *)
theory Relay_Json
  imports Relay_Prelude "HOL-Library.Code_Target_Nat"
begin

text \<open>
  Strings, JSON values and the code the relay calls but does not contain. Bytes and UTF-8
  strings are both HOL strings (one \<open>char\<close> is one byte), so \<open>length\<close> is Rust's byte length and
  \<open><\<close> its byte-wise order.
\<close>

type_synonym bytes = string

subsection \<open>Rust's string operations\<close>

definition in_range :: "char \<Rightarrow> char \<Rightarrow> char \<Rightarrow> bool" where
  "in_range lo hi c \<longleftrightarrow> of_char lo \<le> (of_char c :: nat) \<and> of_char c \<le> (of_char hi :: nat)"

definition ascii_digit :: "char \<Rightarrow> bool" where
  "ascii_digit c \<longleftrightarrow> in_range CHR ''0'' CHR ''9'' c"

definition ascii_lower :: "char \<Rightarrow> bool" where
  "ascii_lower c \<longleftrightarrow> in_range CHR ''a'' CHR ''z'' c"

definition ascii_upper :: "char \<Rightarrow> bool" where
  "ascii_upper c \<longleftrightarrow> in_range CHR ''A'' CHR ''Z'' c"

definition ascii_alnum :: "char \<Rightarrow> bool" where
  "ascii_alnum c \<longleftrightarrow> ascii_digit c \<or> ascii_lower c \<or> ascii_upper c"

definition strip_prefix :: "string \<Rightarrow> string \<Rightarrow> string option" where
  "strip_prefix p t = (if take (length p) t = p then Some (drop (length p) t) else None)"

definition strip_suffix :: "string \<Rightarrow> string \<Rightarrow> string option" where
  "strip_suffix p t =
     (if length p \<le> length t \<and> drop (length t - length p) t = p
      then Some (take (length t - length p) t) else None)"

text \<open>\<^verbatim>\<open>str::split\<close> on one character, \<^verbatim>\<open>str::split_once\<close> and \<^verbatim>\<open>[String]::join\<close>.\<close>

fun split_on :: "char \<Rightarrow> string \<Rightarrow> string list" where
  "split_on d [] = [[]]"
| "split_on d (c # cs) =
     (if c = d then [] # split_on d cs
      else case split_on d cs of [] \<Rightarrow> [[c]] | w # ws \<Rightarrow> (c # w) # ws)"

fun split_once :: "char \<Rightarrow> string \<Rightarrow> (string \<times> string) option" where
  "split_once d [] = None"
| "split_once d (c # cs) =
     (if c = d then Some ([], cs)
      else map_option (\<lambda>(a, b). (c # a, b)) (split_once d cs))"

fun join :: "string \<Rightarrow> string list \<Rightarrow> string" where
  "join sep [] = []"
| "join sep [w] = w"
| "join sep (w # v # ws) = w @ sep @ join sep (v # ws)"

lemma split_on_nonempty [simp]: "split_on d cs \<noteq> []"
  by (induction cs) (auto split: list.splits)

lemma split_on_no_sep: "d \<notin> set cs \<Longrightarrow> split_on d cs = [cs]"
  by (induction cs) auto

lemma split_on_append_sep:
  "d \<notin> set w \<Longrightarrow> split_on d (w @ d # cs) = w # split_on d cs"
  by (induction w) auto

lemma split_on_join:
  "ws \<noteq> [] \<Longrightarrow> \<forall>w \<in> set ws. d \<notin> set w \<Longrightarrow> split_on d (join [d] ws) = ws"
proof (induction "[d]" ws rule: join.induct)
  case (3 w v ws)
  then show ?case by (simp add: split_on_append_sep)
qed (simp_all add: split_on_no_sep)

lemma join_nonempty: "ws \<noteq> [] \<Longrightarrow> \<forall>w \<in> set ws. w \<noteq> [] \<Longrightarrow> join sep ws \<noteq> []"
  by (induction sep ws rule: join.induct) auto

lemma split_once_append:
  "d \<notin> set k \<Longrightarrow> split_once d (k @ d # v) = Some (k, v)"
  by (induction k) auto

text \<open>Decimal numbers: \<^verbatim>\<open>u64::to_string\<close> and \<^verbatim>\<open>str::parse::<u64>\<close> (an optional \<^verbatim>\<open>+\<close>, digits, no overflow).\<close>

definition digit_char :: "nat \<Rightarrow> char" where
  "digit_char n = char_of (48 + n)"

definition digit_val :: "char \<Rightarrow> nat" where
  "digit_val c = of_char c - 48"

fun show_nat :: "nat \<Rightarrow> string" where
  "show_nat n = (if n < 10 then [digit_char n] else show_nat (n div 10) @ [digit_char (n mod 10)])"

declare show_nat.simps [simp del]

definition digits_val :: "string \<Rightarrow> nat" where
  "digits_val = foldl (\<lambda>acc c. 10 * acc + digit_val c) 0"

definition strip_plus :: "string \<Rightarrow> string" where
  "strip_plus t = (case t of c # cs \<Rightarrow> if c = CHR ''+'' then cs else t | [] \<Rightarrow> t)"

definition parse_u64 :: "string \<Rightarrow> nat option" where
  "parse_u64 t =
     (let ds = strip_plus t in
      if ds \<noteq> [] \<and> list_all ascii_digit ds \<and> digits_val ds < 2 ^ 64
      then Some (digits_val ds) else None)"

lemma ascii_digit_digit_char [simp]: "n < 10 \<Longrightarrow> ascii_digit (digit_char n)"
  by (simp add: ascii_digit_def in_range_def digit_char_def)

lemma digit_val_digit_char [simp]: "n < 10 \<Longrightarrow> digit_val (digit_char n) = n"
  by (simp add: digit_val_def digit_char_def)

lemma show_nat_digits: "list_all ascii_digit (show_nat n)"
proof (induction n rule: show_nat.induct)
  case (1 n)
  then show ?case by (simp add: show_nat.simps [of n])
qed

lemma show_nat_nonempty [simp]: "show_nat n \<noteq> []"
  by (subst show_nat.simps) simp

lemma digits_val_show_nat [simp]: "digits_val (show_nat n) = n"
proof (induction n rule: show_nat.induct)
  case (1 n)
  then show ?case by (simp add: show_nat.simps [of n] digits_val_def)
qed

lemma show_nat_inject [simp]: "show_nat m = show_nat n \<longleftrightarrow> m = n"
  by (metis digits_val_show_nat)

lemma ascii_digit_not_plus: "ascii_digit c \<Longrightarrow> c \<noteq> CHR ''+''"
  by (auto simp: ascii_digit_def in_range_def)

lemma strip_plus_show_nat [simp]: "strip_plus (show_nat n) = show_nat n"
  using show_nat_digits [of n] by (auto simp: strip_plus_def dest: ascii_digit_not_plus split: list.splits)

lemma parse_u64_show_nat: "n < 2 ^ 64 \<Longrightarrow> parse_u64 (show_nat n) = Some n"
  by (simp add: parse_u64_def show_nat_digits)

text \<open>\<^verbatim>\<open>u64::to_be_bytes\<close>.\<close>

definition be64 :: "nat \<Rightarrow> bytes" where
  "be64 n = map (\<lambda>i. char_of (n div 256 ^ (7 - i))) [0..<8]"

lemma length_be64 [simp]: "length (be64 n) = 8"
  by (simp add: be64_def)

subsection \<open>JSON objects\<close>

text \<open>\<^verbatim>\<open>serde_json::Map\<close> (a \<^verbatim>\<open>BTreeMap\<close>): lookup, insertion and removal on the sorted list.\<close>

definition obj_get :: "(string \<times> json) list \<Rightarrow> string \<Rightarrow> json option" where
  "obj_get kvs k = map_of kvs k"

fun obj_put :: "string \<Rightarrow> json \<Rightarrow> (string \<times> json) list \<Rightarrow> (string \<times> json) list" where
  "obj_put k x [] = [(k, x)]"
| "obj_put k x ((k', y) # kvs) =
     (if k < k' then (k, x) # (k', y) # kvs
      else if k = k' then (k, x) # kvs
      else (k', y) # obj_put k x kvs)"

definition obj_remove :: "string \<Rightarrow> (string \<times> json) list \<Rightarrow> (string \<times> json) list" where
  "obj_remove k kvs = filter (\<lambda>p. fst p \<noteq> k) kvs"

text \<open>The macro \<^verbatim>\<open>json!({...})\<close> inserts its members in turn.\<close>

definition jobj :: "(string \<times> json) list \<Rightarrow> json" where
  "jobj kvs = JObj (fold (\<lambda>(k, x). obj_put k x) kvs [])"

text \<open>\<^verbatim>\<open>v[key]\<close>, \<^verbatim>\<open>v[key] = x\<close> on an object, \<^verbatim>\<open>v.get(key)\<close> and \<^verbatim>\<open>as_object_mut().remove(key)\<close>.\<close>

definition jfind :: "json \<Rightarrow> string \<Rightarrow> json option" where
  "jfind v k = (case v of JObj kvs \<Rightarrow> obj_get kvs k | _ \<Rightarrow> None)"

definition jget :: "json \<Rightarrow> string \<Rightarrow> json" where
  "jget v k = (case jfind v k of None \<Rightarrow> JNull | Some x \<Rightarrow> x)"

definition jset :: "string \<Rightarrow> json \<Rightarrow> json \<Rightarrow> json" where
  "jset k x v = (case v of JObj kvs \<Rightarrow> JObj (obj_put k x kvs) | JNull \<Rightarrow> JObj [(k, x)] | _ \<Rightarrow> v)"

definition jremove :: "string \<Rightarrow> json \<Rightarrow> json" where
  "jremove k v = (case v of JObj kvs \<Rightarrow> JObj (obj_remove k kvs) | _ \<Rightarrow> v)"

definition is_object :: "json \<Rightarrow> bool" where
  "is_object v = (case v of JObj kvs \<Rightarrow> True | _ \<Rightarrow> False)"

definition as_str :: "json \<Rightarrow> string option" where
  "as_str v = (case v of JStr t \<Rightarrow> Some t | _ \<Rightarrow> None)"

definition as_u64 :: "json \<Rightarrow> nat option" where
  "as_u64 v = (case v of JInt i \<Rightarrow> if 0 \<le> i \<and> i < 2 ^ 64 then Some (nat i) else None | _ \<Rightarrow> None)"

definition as_array :: "json \<Rightarrow> json list option" where
  "as_array v = (case v of JArr xs \<Rightarrow> Some xs | _ \<Rightarrow> None)"

abbreviation JNat :: "nat \<Rightarrow> json" where
  "JNat n \<equiv> JInt (int n)"

definition jopt :: "('a \<Rightarrow> json) \<Rightarrow> 'a option \<Rightarrow> json" where
  "jopt f opt = (case opt of None \<Rightarrow> JNull | Some x \<Rightarrow> f x)"

text \<open>Object keys are strictly sorted, at every level: the invariant of the \<^verbatim>\<open>BTreeMap\<close>s.\<close>

fun wf_json :: "json \<Rightarrow> bool" where
  "wf_json (JArr xs) = (\<forall>x \<in> set xs. wf_json x)"
| "wf_json (JObj kvs) = (sorted_wrt (<) (map fst kvs) \<and> (\<forall>p \<in> set kvs. wf_json (snd p)))"
| "wf_json v = True"

lemma obj_get_put [simp]: "obj_get (obj_put k x kvs) k' = (if k' = k then Some x else obj_get kvs k')"
  by (induction k x kvs rule: obj_put.induct) (auto simp: obj_get_def)

lemma obj_get_remove [simp]: "obj_get (obj_remove k kvs) k' = (if k' = k then None else obj_get kvs k')"
  by (induction kvs) (auto simp: obj_get_def obj_remove_def)

lemma keys_obj_put: "fst ` set (obj_put k x kvs) = insert k (fst ` set kvs)"
  by (induction k x kvs rule: obj_put.induct) auto

lemma sorted_obj_put:
  "sorted_wrt (<) (map fst kvs) \<Longrightarrow> sorted_wrt (<) (map fst (obj_put k x kvs))"
proof (induction k x kvs rule: obj_put.induct)
  case (2 k x k' y kvs)
  have keys: "set (map fst (obj_put k x kvs)) = insert k (set (map fst kvs))"
    using keys_obj_put [of k x kvs] by simp
  show ?case
    using 2 keys by (auto simp del: list.set_map dest: less_trans)
qed simp

lemma vals_obj_put: "snd ` set (obj_put k x kvs) \<subseteq> insert x (snd ` set kvs)"
  by (induction k x kvs rule: obj_put.induct) auto

lemma wf_obj_put:
  assumes "wf_json (JObj kvs)" and "wf_json x"
  shows "wf_json (JObj (obj_put k x kvs))"
proof -
  have "\<forall>y \<in> insert x (snd ` set kvs). wf_json y"
    using assms by auto
  then have "\<forall>y \<in> snd ` set (obj_put k x kvs). wf_json y"
    using vals_obj_put [of k x kvs] by blast
  then show ?thesis using assms by (simp add: sorted_obj_put)
qed

lemma wf_jobj: "\<forall>p \<in> set kvs. wf_json (snd p) \<Longrightarrow> wf_json (jobj kvs)"
proof -
  assume vals: "\<forall>p \<in> set kvs. wf_json (snd p)"
  have "wf_json (JObj acc) \<Longrightarrow> wf_json (JObj (fold (\<lambda>(k, x). obj_put k x) kvs acc))" for acc
    using vals
  proof (induction kvs arbitrary: acc)
    case (Cons p kvs)
    then show ?case
      using wf_obj_put [of acc "snd p" "fst p"]
      by (simp only: fold.simps comp_def split_beta list.set) simp
  qed simp
  from this [of "[]"] show ?thesis by (simp add: jobj_def)
qed

lemma obj_get_fold_put:
  "obj_get (fold (\<lambda>(k, x). obj_put k x) kvs acc) k =
     (case map_of (rev kvs) k of None \<Rightarrow> obj_get acc k | Some x \<Rightarrow> Some x)"
proof (induction kvs arbitrary: acc)
  case (Cons p kvs)
  then show ?case
    by (cases p) (auto simp: map_add_def split: option.splits)
qed simp

lemma jfind_jobj: "jfind (jobj kvs) k = map_of (rev kvs) k"
  by (simp add: jfind_def jobj_def obj_get_fold_put) (simp add: obj_get_def split: option.splits)

lemma jget_jobj: "jget (jobj kvs) k = (case map_of (rev kvs) k of None \<Rightarrow> JNull | Some x \<Rightarrow> x)"
  by (simp add: jget_def jfind_jobj)

lemma jget_jset [simp]: "is_object v \<Longrightarrow> jget (jset k x v) k' = (if k' = k then x else jget v k')"
  by (auto simp: is_object_def jget_def jset_def jfind_def split: json.splits)

lemma is_object_jset [simp]: "is_object v \<Longrightarrow> is_object (jset k x v)"
  by (auto simp: is_object_def jset_def split: json.splits)

lemma is_object_jobj [simp]: "is_object (jobj kvs)"
  by (simp add: is_object_def jobj_def)

end
