(* ===== verification/Relay_Ext.thy ===== *)
theory Relay_Ext
  imports Relay_Json Complex_Main
begin

text \<open>
  The code the relay calls and does not contain, as one record of functions that every definition
  of the model takes as its argument \<open>X\<close>, and the documented laws the proofs use of it. The
  clock and the source of random UUIDs are functions of a counter that the database state
  advances, so two readings may differ in any way.
\<close>

text \<open>What \<^verbatim>\<open>serde_json\<close> hands to a visitor: numbers by class, objects with their members in input order.\<close>

datatype raw =
    RNull
  | RBool bool
  | RU64 nat
  | RI64 int
  | RF64
  | RStr string
  | RArr "raw list"
  | RObj "(string \<times> raw) list"

record ext =
  x_serde :: "string \<Rightarrow> raw option"            \<comment> \<open>\<^verbatim>\<open>serde_json::from_str\<close> driving a visitor\<close>
  x_jcs :: "json \<Rightarrow> bytes"                      \<comment> \<open>\<^verbatim>\<open>serde_jcs::to_vec\<close>\<close>
  x_sha256 :: "bytes \<Rightarrow> bytes"                  \<comment> \<open>\<^verbatim>\<open>Sha256::digest\<close>\<close>
  x_b64enc :: "bytes \<Rightarrow> string"                 \<comment> \<open>\<^verbatim>\<open>URL_SAFE_NO_PAD.encode\<close>\<close>
  x_b64dec :: "string \<Rightarrow> bytes option"          \<comment> \<open>\<^verbatim>\<open>URL_SAFE_NO_PAD.decode\<close>\<close>
  x_decompress :: "bytes \<Rightarrow> bytes option"        \<comment> \<open>\<^verbatim>\<open>CompressedEdwardsY::decompress\<close>, a point by handle\<close>
  x_compress :: "bytes \<Rightarrow> bytes"
  x_identity :: "bytes \<Rightarrow> bool"
  x_torsion_free :: "bytes \<Rightarrow> bool"
  x_mul_clamped :: "bytes \<Rightarrow> bytes \<Rightarrow> bytes"    \<comment> \<open>\<^verbatim>\<open>MontgomeryPoint::mul_clamped\<close>\<close>
  x_scalar_canonical :: "bytes \<Rightarrow> bool"         \<comment> \<open>\<^verbatim>\<open>Scalar::from_canonical_bytes\<close>\<close>
  x_verifying_key :: "bytes \<Rightarrow> bool"            \<comment> \<open>\<^verbatim>\<open>VerifyingKey::from_bytes\<close> succeeds\<close>
  x_verify_strict :: "bytes \<Rightarrow> bytes \<Rightarrow> bytes \<Rightarrow> bool"  \<comment> \<open>key, message, signature\<close>
  x_public_key :: "bytes \<Rightarrow> bytes"              \<comment> \<open>\<^verbatim>\<open>SigningKey::verifying_key\<close>\<close>
  x_sign :: "bytes \<Rightarrow> bytes \<Rightarrow> bytes"           \<comment> \<open>\<^verbatim>\<open>Signer::sign\<close>\<close>
  x_nfc :: "string \<Rightarrow> string"                   \<comment> \<open>Unicode normalization form C\<close>
  x_uuid_parse :: "string \<Rightarrow> bytes option"      \<comment> \<open>\<^verbatim>\<open>Uuid::parse_str\<close>, its sixteen bytes\<close>
  x_uuid_v4 :: "bytes \<Rightarrow> bool"                  \<comment> \<open>version 4 and variant RFC 4122\<close>
  x_uuid_str :: "bytes \<Rightarrow> string"               \<comment> \<open>\<^verbatim>\<open>Uuid::to_string\<close>\<close>
  x_reason :: "nat \<Rightarrow> string option"         \<comment> \<open>\<^verbatim>\<open>StatusCode::canonical_reason\<close>\<close>
  x_fresh :: "nat \<Rightarrow> bytes"                     \<comment> \<open>the i-th \<^verbatim>\<open>Uuid::new_v4\<close>\<close>
  x_clock :: "nat \<Rightarrow> nat"                       \<comment> \<open>the i-th reading of the clock, in milliseconds\<close>
  x_round :: "rat \<Rightarrow> rat"                       \<comment> \<open>the rounding of a finite \<^verbatim>\<open>f64\<close> operation's exact result\<close>

definition b64_char :: "char \<Rightarrow> bool" where
  "b64_char c \<longleftrightarrow> ascii_alnum c \<or> c = CHR ''-'' \<or> c = CHR ''_''"

text \<open>
  Documented behaviour: the URL-safe alphabet, decoding inverts encoding, a SHA-256 digest has 32
  bytes, a UUID is printed in the form it is parsed from.
\<close>

definition ext_ok :: "ext \<Rightarrow> bool" where
  "ext_ok X \<longleftrightarrow>
     (\<forall>b. x_b64dec X (x_b64enc X b) = Some b) \<and>
     (\<forall>b. list_all b64_char (x_b64enc X b)) \<and>
     (\<forall>b. length (x_sha256 X b) = 32) \<and>
     (\<forall>i. x_uuid_parse X (x_uuid_str X (x_fresh X i)) = Some (x_fresh X i))"

lemma ext_okD:
  assumes "ext_ok X"
  shows "x_b64dec X (x_b64enc X b) = Some b" "list_all b64_char (x_b64enc X b)"
    "length (x_sha256 X b) = 32" "x_uuid_parse X (x_uuid_str X (x_fresh X i)) = Some (x_fresh X i)"
  using assms by (auto simp: ext_ok_def)

subsection \<open>A concrete instance\<close>

text \<open>
  An executable instance on which witnesses evaluate: bytes in octal digits, a checksum of 32 bytes,
  signatures that always verify, a printer of JSON, a clock that advances by one second per reading.
  Encoding and checksum work on the bits of a byte, which keeps kernel evaluation fast.
\<close>

definition oct_digit :: "bool \<Rightarrow> bool \<Rightarrow> bool \<Rightarrow> char" where
  "oct_digit a b c = Char a b c False True True False False"

primrec oct_byte :: "char \<Rightarrow> string" where
  "oct_byte (Char b0 b1 b2 b3 b4 b5 b6 b7) =
     [oct_digit b6 b7 False, oct_digit b3 b4 b5, oct_digit b0 b1 b2]"

fun oct_enc :: "bytes \<Rightarrow> string" where
  "oct_enc [] = []"
| "oct_enc (c # cs) = oct_byte c @ oct_enc cs"

fun oct_dec :: "string \<Rightarrow> bytes option" where
  "oct_dec [] = Some []"
| "oct_dec (Char a0 a1 a2 a3 a4 a5 a6 a7 # Char b0 b1 b2 b3 b4 b5 b6 b7 # Char c0 c1 c2 c3 c4 c5 c6 c7 # cs) =
     (case oct_dec cs of None \<Rightarrow> None | Some bs \<Rightarrow> Some (Char c0 c1 c2 b0 b1 b2 a0 a1 # bs))"
| "oct_dec cs = None"

lemma oct_dec_enc [simp]: "oct_dec (oct_enc b) = Some b"
proof (induction b)
  case (Cons c b)
  then show ?case by (cases c) (simp add: oct_digit_def)
qed simp

lemma oct_enc_chars: "list_all b64_char (oct_enc b)"
proof -
  have digit: "b64_char (oct_digit x y z)" for x y z
    by (cases x; cases y; cases z) (simp_all add: oct_digit_def b64_char_def ascii_alnum_def ascii_digit_def in_range_def)
  show ?thesis
  proof (induction b)
    case (Cons c b)
    then show ?case by (cases c) (simp add: digit)
  qed simp
qed

definition xor_byte :: "char \<Rightarrow> char \<Rightarrow> char" where
  "xor_byte a b = (case a of Char a0 a1 a2 a3 a4 a5 a6 a7 \<Rightarrow> case b of Char b0 b1 b2 b3 b4 b5 b6 b7 \<Rightarrow>
     Char (a0 \<noteq> b0) (a1 \<noteq> b1) (a2 \<noteq> b2) (a3 \<noteq> b3) (a4 \<noteq> b4) (a5 \<noteq> b5) (a6 \<noteq> b6) (a7 \<noteq> b7))"

text \<open>The 32 columns of a text of rows of 32 bytes, combined by exclusive or.\<close>

fun xor_rows :: "bytes \<Rightarrow> bytes \<Rightarrow> bytes" where
  "xor_rows (a # as) (b # bs) = xor_byte a b # xor_rows as bs"
| "xor_rows as bs = as"

fun sum_rows :: "nat \<Rightarrow> bytes \<Rightarrow> bytes \<Rightarrow> bytes" where
  "sum_rows 0 acc b = acc"
| "sum_rows (Suc n) acc b = (if b = [] then acc else sum_rows n (xor_rows acc b) (drop 32 b))"

definition sum32 :: "bytes \<Rightarrow> bytes" where
  "sum32 b = sum_rows (length b) (replicate 32 CHR ''0'') b"

lemma length_sum32 [simp]: "length (sum32 b) = 32"
proof -
  have "length (xor_rows as bs) = length as" for as bs
    by (induction as bs rule: xor_rows.induct) auto
  then have "length (sum_rows n acc b) = length acc" for n acc
    by (induction n acc b rule: sum_rows.induct) auto
  then show ?thesis by (simp add: sum32_def)
qed

fun print_json :: "json \<Rightarrow> string" where
  "print_json JNull = ''null''"
| "print_json (JBool b) = (if b then ''true'' else ''false'')"
| "print_json (JInt i) = (if i < 0 then ''-'' else []) @ show_nat (nat \<bar>i\<bar>)"
| "print_json (JStr t) = ''\"'' @ t @ ''\"''"
| "print_json (JArr xs) = ''['' @ concat (map (\<lambda>x. print_json x @ '','') xs) @ '']''"
| "print_json (JObj kvs) =
     ''{'' @ concat (map (\<lambda>p. fst p @ '':'' @ print_json (snd p) @ '','') kvs) @ ''}''"

text \<open>Each field is a constant of its own, so that evaluation unfolds it only where it is applied.\<close>

definition demo_serde :: "string \<Rightarrow> raw option" where "demo_serde t = None"
definition demo_true :: "'a \<Rightarrow> bool" where "demo_true b = True"
definition demo_false :: "'a \<Rightarrow> bool" where "demo_false b = False"
definition demo_id :: "'a \<Rightarrow> 'a" where "demo_id b = b"
definition demo_mul :: "bytes \<Rightarrow> bytes \<Rightarrow> bytes" where "demo_mul p k = k"
definition demo_verify :: "bytes \<Rightarrow> bytes \<Rightarrow> bytes \<Rightarrow> bool" where "demo_verify k m sg = True"
definition demo_sign :: "bytes \<Rightarrow> bytes \<Rightarrow> bytes" where "demo_sign k m = replicate 64 CHR ''s''"
definition demo_reason :: "nat \<Rightarrow> string option" where "demo_reason n = Some ''reason''"
definition demo_fresh :: "nat \<Rightarrow> bytes" where "demo_fresh i = be64 0 @ be64 i"
definition demo_clock :: "nat \<Rightarrow> nat" where "demo_clock i = 1000 * i"

definition demo_ext :: ext where
  "demo_ext = \<lparr>
     x_serde = demo_serde, x_jcs = print_json, x_sha256 = sum32, x_b64enc = oct_enc, x_b64dec = oct_dec,
     x_decompress = Some, x_compress = demo_id, x_identity = demo_false, x_torsion_free = demo_true,
     x_mul_clamped = demo_mul, x_scalar_canonical = demo_true, x_verifying_key = demo_true,
     x_verify_strict = demo_verify, x_public_key = demo_id, x_sign = demo_sign, x_nfc = demo_id,
     x_uuid_parse = oct_dec, x_uuid_v4 = demo_true, x_uuid_str = oct_enc, x_reason = demo_reason,
     x_fresh = demo_fresh, x_clock = demo_clock, x_round = demo_id\<rparr>"

lemma demo_ext_ok: "ext_ok demo_ext"
  by (simp add: ext_ok_def demo_ext_def oct_enc_chars)

text \<open>
  A second instance for long runs: a constant digest, empty canonical texts, and an encoding that
  writes the usual lengths (keys and hashes, signatures, nonces, ciphertexts) as one character. It keeps
  evaluation short where the laws of encoding and hashing play no part.
\<close>

definition demo_nil :: "'a \<Rightarrow> bytes" where "demo_nil b = []"
definition demo_digest :: "bytes \<Rightarrow> bytes" where "demo_digest b = replicate 32 CHR ''#''"
definition demo_signature :: "bytes \<Rightarrow> bytes \<Rightarrow> bytes" where "demo_signature k m = replicate 64 CHR ''$''"
definition demo_name :: "nat \<Rightarrow> bytes" where "demo_name i = show_nat i"

definition demo_dec :: "string \<Rightarrow> bytes option" where
  "demo_dec t = Some (
     if t = ''K'' then replicate 32 CHR ''#'' else if t = ''S'' then replicate 64 CHR ''$''
     else if t = ''N'' then replicate 24 CHR ''%'' else if t = ''C'' then replicate 48 CHR ''&'' else t)"

definition demo_enc :: "bytes \<Rightarrow> string" where
  "demo_enc b = (case b of [] \<Rightarrow> [] | ch # cs \<Rightarrow>
     if ch = CHR ''#'' then ''K'' else if ch = CHR ''$'' then ''S''
     else if ch = CHR ''%'' then ''N'' else if ch = CHR ''&'' then ''C'' else b)"

definition demo_fast :: ext where
  "demo_fast = demo_ext\<lparr>x_jcs := demo_nil, x_sha256 := demo_digest, x_b64enc := demo_enc, x_b64dec := demo_dec,
     x_sign := demo_signature, x_uuid_parse := Some, x_uuid_str := demo_id, x_fresh := demo_name\<rparr>"

end
