(* ===== verification/Relay_Crypto.thy ===== *)
theory Relay_Crypto
  imports Relay_Ext
begin

text \<open>
  \<^verbatim>\<open>src/crypto/jcs.rs\<close>: the duplicate-detecting parser with its lexical scan, and
  \<^verbatim>\<open>src/crypto/verify.rs\<close>: canonical Base64URL, key checks, signatures and hashes.
\<close>

subsection \<open>The strict visitor\<close>

definition MAX_INTEGER :: nat where
  "MAX_INTEGER = 9007199254740991"

definition visit_u64 :: "nat \<Rightarrow> json option" where
  "visit_u64 v = (if v > MAX_INTEGER then None else Some (JNat v))"

definition visit_i64 :: "int \<Rightarrow> json option" where
  "visit_i64 v = (if v < 0 then None else visit_u64 (nat v))"

text \<open>
  The visitor as a recursive function over what the parser hands it. A member is looked up in the
  map built so far before its value is read, as \<^verbatim>\<open>visit_map\<close> does.
\<close>

function (sequential) strict :: "raw \<Rightarrow> json option"
  and strict_seq :: "raw list \<Rightarrow> json list \<Rightarrow> json list option"
  and strict_map :: "(string \<times> raw) list \<Rightarrow> (string \<times> json) list \<Rightarrow> (string \<times> json) list option" where
  "strict RNull = Some JNull"
| "strict (RBool b) = Some (JBool b)"
| "strict (RU64 v) = visit_u64 v"
| "strict (RI64 v) = visit_i64 v"
| "strict RF64 = None"
| "strict (RStr t) = Some (JStr t)"
| "strict (RArr xs) = map_option JArr (strict_seq xs [])"
| "strict (RObj kvs) = map_option JObj (strict_map kvs [])"
| "strict_seq [] items = Some items"
| "strict_seq (x # xs) items =
     (case strict x of None \<Rightarrow> None | Some v \<Rightarrow> strict_seq xs (items @ [v]))"
| "strict_map [] obj = Some obj"
| "strict_map ((k, x) # kvs) obj =
     (if obj_get obj k \<noteq> None then None
      else case strict x of None \<Rightarrow> None | Some v \<Rightarrow> strict_map kvs (obj_put k v obj))"
  by pat_completeness auto
termination
  by (relation "measure (case_sum size (case_sum (size_list size \<circ> fst)
        (size_list (\<lambda>p. Suc (size (snd p))) \<circ> fst)))")
    (auto simp: size_prod_simp)

subsection \<open>The lexical scan\<close>

text \<open>\<^verbatim>\<open>str::from_utf8\<close>: the well-formed byte sequences of the Unicode standard.\<close>

definition cont_byte :: "char \<Rightarrow> bool" where
  "cont_byte c \<longleftrightarrow> (128 :: nat) \<le> of_char c \<and> of_char c < (192 :: nat)"

fun utf8_ok :: "bytes \<Rightarrow> bool" where
  "utf8_ok [] = True"
| "utf8_ok (a # bs) =
     (let n = (of_char a :: nat) in
      if n < 128 then utf8_ok bs
      else if 194 \<le> n \<and> n < 224 then
        (case bs of b # cs \<Rightarrow> cont_byte b \<and> utf8_ok cs | _ \<Rightarrow> False)
      else if 224 \<le> n \<and> n < 240 then
        (case bs of b # c # cs \<Rightarrow>
            cont_byte b \<and> cont_byte c \<and> utf8_ok cs \<and>
            (n = 224 \<longrightarrow> (160 :: nat) \<le> of_char b) \<and> (n = 237 \<longrightarrow> of_char b < (160 :: nat))
         | _ \<Rightarrow> False)
      else if 240 \<le> n \<and> n < 245 then
        (case bs of b # c # d # cs \<Rightarrow>
            cont_byte b \<and> cont_byte c \<and> cont_byte d \<and> utf8_ok cs \<and>
            (n = 240 \<longrightarrow> (144 :: nat) \<le> of_char b) \<and> (n = 244 \<longrightarrow> of_char b < (144 :: nat))
         | _ \<Rightarrow> False)
      else False)"

definition quote_char :: char where
  "quote_char = CHR 0x22"

definition backslash :: char where
  "backslash = CHR 0x5C"

text \<open>
  The loop of \<^verbatim>\<open>parse\<close> over the remaining bytes, with its variables \<^verbatim>\<open>quoted\<close>, \<^verbatim>\<open>escaped\<close> and
  \<^verbatim>\<open>depth\<close>; the inner loop over digits is \<open>takeWhile\<close>. The result is the error, if any.
\<close>

function scan :: "bool \<Rightarrow> bool \<Rightarrow> nat \<Rightarrow> bytes \<Rightarrow> string option" where
  "scan quoted escaped depth [] = None"
| "scan quoted escaped depth (b # bs) =
     (if quoted then
        (if escaped then scan quoted False depth bs
         else if b = backslash then scan quoted True depth bs
         else if b = quote_char then scan False escaped depth bs
         else scan quoted escaped depth bs)
      else if b = quote_char then scan True escaped depth bs
      else if b = CHR ''{'' \<or> b = CHR ''['' then
        (if depth + 1 > 32 then Some ''Depth exceeds 32'' else scan quoted escaped (depth + 1) bs)
      else if b = CHR ''}'' \<or> b = CHR '']'' then scan quoted escaped (depth - 1) bs
      else if b = CHR ''-'' then Some ''Negative number forbidden''
      else if ascii_digit b then
        (let run = takeWhile ascii_digit (b # bs); rest = dropWhile ascii_digit (b # bs) in
         if length run > 1 \<and> b = CHR ''0'' then Some ''Leading zero''
         else if rest \<noteq> [] \<and> hd rest \<in> {CHR ''.'', CHR ''e'', CHR ''E''}
         then Some ''Float/exponent forbidden''
         else scan quoted escaped depth rest)
      else scan quoted escaped depth bs)"
  by pat_completeness auto
termination
proof (relation "measure (\<lambda>(q, e, d, bs). length bs)")
  show "wf (measure (\<lambda>(q, e, d, bs). length bs))" by simp
next
  fix quoted escaped depth b bs run rest
  assume "ascii_digit b" and "rest = dropWhile ascii_digit (b # bs)"
  then show "((quoted, escaped, depth, rest), quoted, escaped, depth, b # bs)
      \<in> measure (\<lambda>(q :: bool, e :: bool, d :: nat, bs :: char list). length bs)"
    using length_dropWhile_le [of ascii_digit bs] by (simp add: less_Suc_eq_le)
qed auto

definition parse :: "ext \<Rightarrow> bytes \<Rightarrow> string + json" where
  "parse X bytes =
     (if \<not> utf8_ok bytes then Inl ''Invalid UTF-8''
      else if take 3 bytes = [char_of (239 :: nat), char_of (187 :: nat), char_of (191 :: nat)]
      then Inl ''BOM forbidden''
      else case scan False False 0 bytes of
        Some e \<Rightarrow> Inl e
      | None \<Rightarrow>
          (case x_serde X bytes of
             None \<Rightarrow> Inl ''Invalid I-JSON''
           | Some r \<Rightarrow> (case strict r of None \<Rightarrow> Inl ''Invalid I-JSON'' | Some v \<Rightarrow> Inr v)))"

text \<open>
  The source returns the error of the serialiser, which only a number without a JSON form or a writer that
  fails can cause. A value of \<open>json\<close> has integers only and the writer is a vector, so there is
  no such case and the model has none.
\<close>

definition canonicalize_json :: "ext \<Rightarrow> json \<Rightarrow> bytes" where
  "canonicalize_json X v = x_jcs X v"

subsection \<open>Base64URL, keys and signatures\<close>

definition CTX_SYNC_RECORD :: bytes where "CTX_SYNC_RECORD = ''PALLASYNC-SYNC-RECORD-v3'' @ [CHR 0x00]"
definition CTX_DEVICE_RECORD :: bytes where "CTX_DEVICE_RECORD = ''PALLASYNC-DEVICE-RECORD-v3'' @ [CHR 0x00]"
definition CTX_ENROLLMENT :: bytes where "CTX_ENROLLMENT = ''PALLASYNC-ENROLLMENT-v3'' @ [CHR 0x00]"
definition CTX_CAPABILITY :: bytes where "CTX_CAPABILITY = ''PALLASYNC-CAPABILITY-v3'' @ [CHR 0x00]"
definition CTX_PARAMETERS :: bytes where "CTX_PARAMETERS = ''PALLASYNC-CHAIN-PARAMS-v3'' @ [CHR 0x00]"
definition CTX_EPOCH :: bytes where "CTX_EPOCH = ''PALLASYNC-EPOCH-v3'' @ [CHR 0x00]"
definition CTX_ENVELOPE :: bytes where "CTX_ENVELOPE = ''PALLASYNC-EPOCH-ENVELOPE-v3'' @ [CHR 0x00]"
definition CTX_COMPACTION :: bytes where "CTX_COMPACTION = ''PALLASYNC-COMPACTION-v3'' @ [CHR 0x00]"
definition CTX_REQUEST :: bytes where "CTX_REQUEST = ''PALLASYNC-ENROLL-REQUEST-v3'' @ [CHR 0x00]"
definition CTX_ADMIN_OP :: bytes where "CTX_ADMIN_OP = ''PALLASYNC-ADMIN-OP-v3'' @ [CHR 0x00]"
definition CTX_RECEIPT :: bytes where "CTX_RECEIPT = ''PALLASYNC-UPLOAD-RECEIPT-v3'' @ [CHR 0x00]"
definition CTX_TRANSPARENCY :: bytes where "CTX_TRANSPARENCY = ''PALLASYNC-TRANSPARENCY-ENTRY-v3'' @ [CHR 0x00]"
definition CTX_HEAD :: bytes where "CTX_HEAD = ''PALLASYNC-TRANSPARENCY-HEAD-v3'' @ [CHR 0x00]"
definition CTX_DELETE :: bytes where "CTX_DELETE = ''PALLASYNC-DELETE-RECEIPT-v3'' @ [CHR 0x00]"

text \<open>
  \<^verbatim>\<open>decode\<close>: \<open>None\<close> stands for the error, whose text no caller uses. The length check and the
  re-encoding check make the accepted strings canonical.
\<close>

definition decode :: "ext \<Rightarrow> string \<Rightarrow> nat option \<Rightarrow> bytes option" where
  "decode X t len =
     (if \<not> list_all b64_char t then None
      else case x_b64dec X t of
        None \<Rightarrow> None
      | Some b \<Rightarrow>
          if (case len of None \<Rightarrow> False | Some n \<Rightarrow> length b \<noteq> n) \<or> x_b64enc X b \<noteq> t
          then None else Some b)"

definition prime_point :: "ext \<Rightarrow> bytes \<Rightarrow> bool" where
  "prime_point X b =
     (case x_decompress X b of
        None \<Rightarrow> False
      | Some p \<Rightarrow> x_compress X p = b \<and> \<not> x_identity X p \<and> x_torsion_free X p)"

definition valid_ed_key :: "ext \<Rightarrow> string \<Rightarrow> bool" where
  "valid_ed_key X key = (case decode X key (Some 32) of None \<Rightarrow> False | Some b \<Rightarrow> prime_point X b)"

text \<open>The little-endian bytes of the field prime, and the comparison from the last byte down.\<close>

definition field_prime_bytes :: bytes where
  "field_prime_bytes =
     [char_of (237 :: nat)] @ replicate 30 (char_of (255 :: nat)) @ [char_of (127 :: nat)]"

definition valid_x_key :: "ext \<Rightarrow> string \<Rightarrow> bool" where
  "valid_x_key X key =
     (case decode X key (Some 32) of
        None \<Rightarrow> False
      | Some b \<Rightarrow>
          if \<not> rev b < rev field_prime_bytes then False
          else list_ex (\<lambda>v. v \<noteq> CHR 0x00) (x_mul_clamped X b (replicate 32 (char_of (42 :: nat)))))"

definition verify_signature :: "ext \<Rightarrow> string \<Rightarrow> string \<Rightarrow> bytes \<Rightarrow> bool option" where
  "verify_signature X key sig message =
     (case decode X key (Some 32) of
        None \<Rightarrow> None
      | Some a \<Rightarrow>
          (case decode X sig (Some 64) of
             None \<Rightarrow> None
           | Some sg \<Rightarrow>
               if \<not> prime_point X a \<or> \<not> prime_point X (take 32 sg) \<or> \<not> x_scalar_canonical X (drop 32 sg)
               then Some False
               else if \<not> x_verifying_key X a then None
               else Some (x_verify_strict X a message sg)))"

text \<open>\<open>None\<close> is the panic of \<^verbatim>\<open>expect("validated object")\<close>.\<close>

definition signing_bytes :: "ext \<Rightarrow> json \<Rightarrow> bytes \<Rightarrow> string \<Rightarrow> bytes option" where
  "signing_bytes X v context member =
     (if is_object v then Some (context @ canonicalize_json X (jremove member v)) else None)"

definition verify_signed_json :: "ext \<Rightarrow> string \<Rightarrow> string \<Rightarrow> json \<Rightarrow> bytes \<Rightarrow> bool option" where
  "verify_signed_json X key sig v context =
     (if \<not> is_object v then None
      else case signing_bytes X v context ''signature'' of
        None \<Rightarrow> None
      | Some m \<Rightarrow> verify_signature X key sig m)"

definition sign_relay :: "ext \<Rightarrow> bytes \<Rightarrow> json \<Rightarrow> bytes \<Rightarrow> json option" where
  "sign_relay X key v context =
     (case signing_bytes X v context ''relay_signature'' of
        None \<Rightarrow> None
      | Some input \<Rightarrow>
          (let sig = x_b64enc X (x_sign X key input) in
           case verify_signature X (x_b64enc X (x_public_key X key)) sig input of
             Some True \<Rightarrow> Some (jset ''relay_signature'' (JStr sig) v)
           | _ \<Rightarrow> None))"

definition hash_bytes :: "ext \<Rightarrow> bytes \<Rightarrow> string" where
  "hash_bytes X b = x_b64enc X (x_sha256 X b)"

definition object_hash :: "ext \<Rightarrow> json \<Rightarrow> string" where
  "object_hash X v = hash_bytes X (canonicalize_json X v)"


subsection \<open>What an accepted document looks like\<close>

text \<open>Every integer of the document is in the range JavaScript represents exactly.\<close>

fun ints_ok :: "json \<Rightarrow> bool" where
  "ints_ok (JInt i) = (0 \<le> i \<and> i \<le> int MAX_INTEGER)"
| "ints_ok (JArr xs) = (\<forall>x \<in> set xs. ints_ok x)"
| "ints_ok (JObj kvs) = (\<forall>p \<in> set kvs. ints_ok (snd p))"
| "ints_ok v = True"

lemma ints_obj_put:
  assumes "ints_ok (JObj kvs)" and "ints_ok x"
  shows "ints_ok (JObj (obj_put k x kvs))"
proof -
  have "\<forall>y \<in> insert x (snd ` set kvs). ints_ok y" using assms by auto
  then have "\<forall>y \<in> snd ` set (obj_put k x kvs). ints_ok y"
    using vals_obj_put [of k x kvs] by blast
  then show ?thesis by simp
qed

lemma strict_ok:
  "strict r = Some v \<Longrightarrow> wf_json v \<and> ints_ok v"
  "strict_seq rs items = Some items' \<Longrightarrow> wf_json (JArr items) \<and> ints_ok (JArr items) \<Longrightarrow>
     wf_json (JArr items') \<and> ints_ok (JArr items')"
  "strict_map kvs obj = Some obj' \<Longrightarrow> wf_json (JObj obj) \<and> ints_ok (JObj obj) \<Longrightarrow>
     wf_json (JObj obj') \<and> ints_ok (JObj obj')"
proof (induction r and rs items and kvs obj arbitrary: v and items' and obj'
    rule: strict_strict_seq_strict_map.induct)
  case (12 k x kvs obj)
  from 12(3) obtain w where w: "strict x = Some w" and rest: "strict_map kvs (obj_put k w obj) = Some obj'"
    by (auto split: if_splits option.splits)
  from 12(3) have fresh: "\<not> obj_get obj k \<noteq> None" by (simp split: if_splits)
  from 12(1) fresh w have "wf_json w \<and> ints_ok w" by blast
  with 12(4) have "wf_json (JObj (obj_put k w obj)) \<and> ints_ok (JObj (obj_put k w obj))"
    using wf_obj_put ints_obj_put by blast
  with 12(2) fresh w rest show ?case by blast
next
  case (10 x xs items)
  from 10(3) obtain w where w: "strict x = Some w" and rest: "strict_seq xs (items @ [w]) = Some items'"
    by (auto split: option.splits)
  from 10(1) w have "wf_json w \<and> ints_ok w" by blast
  with 10(4) have "wf_json (JArr (items @ [w])) \<and> ints_ok (JArr (items @ [w]))" by auto
  with 10(2) w rest show ?case by blast
next
  case (7 xs)
  then show ?case by fastforce
next
  case (8 kvs)
  then show ?case by fastforce
qed (auto simp: visit_u64_def visit_i64_def split: if_splits)

text \<open>
  The strict reading of a document, independent of the visitor and of the map it fills: an array is
  read item by item, an object only when its names as written are pairwise distinct, and then into
  exactly its members, sorted by name.
\<close>

inductive ijson :: "raw \<Rightarrow> json \<Rightarrow> bool" where
  "ijson RNull JNull"
| "ijson (RBool b) (JBool b)"
| "n \<le> 2 ^ 53 - 1 \<Longrightarrow> ijson (RU64 n) (JInt (int n))"
| "0 \<le> i \<Longrightarrow> i \<le> 2 ^ 53 - 1 \<Longrightarrow> ijson (RI64 i) (JInt i)"
| "ijson (RStr t) (JStr t)"
| "list_all2 ijson xs vs \<Longrightarrow> ijson (RArr xs) (JArr vs)"
| "distinct (map fst kvs) \<Longrightarrow> list_all2 (\<lambda>p q. fst p = fst q \<and> ijson (snd p) (snd q)) kvs qs \<Longrightarrow>
   set ms = set qs \<Longrightarrow> sorted_wrt (<) (map fst ms) \<Longrightarrow> ijson (RObj kvs) (JObj ms)"

inductive_simps ijson_simps:
  "ijson (RArr xs) v" "ijson (RObj kvs) v" "ijson RF64 v" "ijson (RU64 n) v"

lemma set_obj_put_fresh: "obj_get kvs k = None \<Longrightarrow> set (obj_put k x kvs) = insert (k, x) (set kvs)"
  by (induction k x kvs rule: obj_put.induct) (auto simp: obj_get_def split: if_splits)

lemma strict_ijson:
  "strict r = Some v \<Longrightarrow> ijson r v"
  "strict_seq rs items = Some items' \<Longrightarrow> \<exists>vs. items' = items @ vs \<and> list_all2 ijson rs vs"
  "strict_map kvs obj = Some obj' \<Longrightarrow> distinct (map fst kvs) \<and> (\<forall>k \<in> set (map fst kvs). obj_get obj k = None)
     \<and> (\<exists>qs. list_all2 (\<lambda>p q. fst p = fst q \<and> ijson (snd p) (snd q)) kvs qs \<and> set obj' = set obj \<union> set qs)"
proof (induction r and rs items and kvs obj arbitrary: v and items' and obj'
    rule: strict_strict_seq_strict_map.induct)
  case (8 kvs)
  then obtain ms where ms: "strict_map kvs [] = Some ms" "v = JObj ms" by auto
  then have "sorted_wrt (<) (map fst ms)" using strict_ok(3) [OF ms(1)] by simp
  with 8(1) [OF ms(1)] ms(2) show ?case by (auto intro: ijson.intros)
next
  case (10 x xs items)
  from 10(3) obtain w where w: "strict x = Some w" and rest: "strict_seq xs (items @ [w]) = Some items'"
    by (auto split: option.splits)
  from 10(2) [OF w rest] obtain vs where vs: "items' = (items @ [w]) @ vs" "list_all2 ijson xs vs" by blast
  with 10(1) [OF w] show ?case by (intro exI [of _ "w # vs"]) simp
next
  case (12 k x kvs obj)
  from 12(3) obtain w where fresh: "\<not> obj_get obj k \<noteq> None" and w: "strict x = Some w"
    and rest: "strict_map kvs (obj_put k w obj) = Some obj'"
    by (auto split: if_splits option.splits)
  from 12(2) [OF fresh w rest] obtain qs where
    qs: "list_all2 (\<lambda>p q. fst p = fst q \<and> ijson (snd p) (snd q)) kvs qs" "set obj' = set (obj_put k w obj) \<union> set qs"
    and names: "distinct (map fst kvs)" "\<forall>k' \<in> set (map fst kvs). k' \<noteq> k \<and> obj_get obj k' = None"
    by (auto split: if_splits)
  have "list_all2 (\<lambda>p q. fst p = fst q \<and> ijson (snd p) (snd q)) ((k, x) # kvs) ((k, w) # qs)"
    using qs(1) 12(1) [OF fresh w] by simp
  moreover have "set obj' = set obj \<union> set ((k, w) # qs)" using qs(2) fresh by (auto simp: set_obj_put_fresh)
  moreover have "distinct (map fst ((k, x) # kvs)) \<and> (\<forall>k' \<in> set (map fst ((k, x) # kvs)). obj_get obj k' = None)"
    using names fresh by auto
  ultimately show ?case by blast
qed (auto simp: visit_u64_def visit_i64_def MAX_INTEGER_def intro: ijson.intros split: if_splits)

text \<open>
  The bytes outside string literals, and the deepest nesting of brackets among them: a reference
  that reads the document in two passes where the scan reads it in one.
\<close>

fun structural :: "bool \<Rightarrow> bool \<Rightarrow> bytes \<Rightarrow> bytes" where
  "structural quoted escaped [] = []"
| "structural quoted escaped (b # bs) =
     (if quoted then structural (escaped \<or> b \<noteq> quote_char) (\<not> escaped \<and> b = backslash) bs
      else if b = quote_char then structural True escaped bs
      else b # structural False escaped bs)"

fun nesting :: "nat \<Rightarrow> bytes \<Rightarrow> nat" where
  "nesting d [] = d"
| "nesting d (b # bs) =
     (if b = CHR ''{'' \<or> b = CHR ''['' then nesting (d + 1) bs
      else if b = CHR ''}'' \<or> b = CHR '']'' then max d (nesting (d - 1) bs)
      else nesting d bs)"

lemma digit_not_special:
  "ascii_digit b \<Longrightarrow> b \<noteq> quote_char \<and> b \<noteq> CHR ''{'' \<and> b \<noteq> CHR ''['' \<and> b \<noteq> CHR ''}'' \<and> b \<noteq> CHR '']'' \<and> b \<noteq> CHR ''-''"
  by (auto simp: ascii_digit_def in_range_def quote_char_def)

lemma structural_digits:
  "\<forall>c \<in> set ds. ascii_digit c \<Longrightarrow>
   structural False escaped (ds @ bs) = ds @ structural False escaped bs"
  by (induction ds) (auto dest: digit_not_special)

lemma nesting_digits: "\<forall>c \<in> set ds. ascii_digit c \<Longrightarrow> nesting d (ds @ bs) = nesting d bs"
  by (induction ds) (auto dest: digit_not_special)

lemma nesting_ge: "d \<le> nesting d bs"
  by (induction d bs rule: nesting.induct) auto

lemma scan_sound:
  assumes "scan quoted escaped depth bs = None" and "depth \<le> 32"
    and "quoted \<or> \<not> escaped"
  shows "nesting depth (structural quoted escaped bs) \<le> 32
    \<and> CHR ''-'' \<notin> set (structural quoted escaped bs)"
  using assms
proof (induction quoted escaped depth bs rule: scan.induct)
  case (1 quoted escaped depth)
  then show ?case by simp
next
  case (2 quoted escaped depth b bs)
  show ?case
  proof (cases "\<not> quoted \<and> ascii_digit b")
    case True
    let ?run = "takeWhile ascii_digit (b # bs)" and ?rest = "dropWhile ascii_digit (b # bs)"
    have run: "\<forall>c \<in> set ?run. ascii_digit c"
      by (metis set_takeWhileD)
    have esc: "\<not> escaped" using "2.prems" True by simp
    from True digit_not_special [of b] "2.prems" esc
    have rest: "scan quoted escaped depth ?rest = None"
      by (simp add: Let_def split: if_splits)
    from True digit_not_special [of b] "2.prems"
    have "\<not> (1 < length ?run \<and> b = CHR ''0'')"
      and "\<not> (?rest \<noteq> [] \<and> hd ?rest \<in> {CHR ''.'', CHR ''e'', CHR ''E''})"
      by (auto simp: Let_def split: if_splits)
    with 2(8) True digit_not_special [of b] rest "2.prems"(2) esc
    have IH: "nesting depth (structural quoted escaped ?rest) \<le> 32
        \<and> CHR ''-'' \<notin> set (structural quoted escaped ?rest)"
      by blast
    have eq: "structural quoted escaped (b # bs) = ?run @ structural quoted escaped ?rest"
      using structural_digits [OF run, of escaped ?rest] True
      by (simp only: takeWhile_dropWhile_id simp_thms)
    have "CHR ''-'' \<notin> set ?run" using run digit_not_special by blast
    with IH show ?thesis
      by (simp only: eq nesting_digits [OF run] set_append Un_iff simp_thms)
  next
    case False
    consider (str) "quoted" | (open_quote) "\<not> quoted" "b = quote_char"
      | (open_bracket) "\<not> quoted" "b \<noteq> quote_char" "b = CHR ''{'' \<or> b = CHR ''[''"
      | (close_bracket) "\<not> quoted" "b \<noteq> quote_char" "\<not> (b = CHR ''{'' \<or> b = CHR ''['')"
          "b = CHR ''}'' \<or> b = CHR '']''"
      | (other) "\<not> quoted" "b \<noteq> quote_char" "\<not> (b = CHR ''{'' \<or> b = CHR ''['')"
          "\<not> (b = CHR ''}'' \<or> b = CHR '']'')"
      by blast
    then show ?thesis
    proof cases
      case str
      then show ?thesis
        using 2(1-4) "2.prems"
        by (cases escaped; cases "b = backslash"; cases "b = quote_char")
          (simp_all add: quote_char_def backslash_def)
    next
      case open_quote
      with 2(5) "2.prems" show ?thesis by simp
    next
      case open_bracket
      from "2.prems"(1) open_bracket have "\<not> depth + 1 > 32" "scan quoted escaped (depth + 1) bs = None"
        by (simp_all split: if_splits)
      with 2(6) open_bracket "2.prems" show ?thesis by (auto simp: quote_char_def)
    next
      case close_bracket
      with 2(7) "2.prems" show ?thesis by auto
    next
      case other
      from "2.prems"(1) other False have "b \<noteq> CHR ''-''" "scan quoted escaped depth bs = None"
        by (simp_all split: if_splits)
      with 2(9) other False "2.prems" show ?thesis by auto
    qed
  qed
qed


text \<open>
  C27: what the parser accepts is the strict reading of the document that the JSON library found:
  no object of the document names a member twice, no number is fractional, negative or above
  2^53 - 1, and the value has exactly the document's members and items, with sorted distinct names
  and integers from 0 to \<open>MAX_INTEGER\<close> at every level; there are at most 32 levels of nesting and no minus sign
  outside string literals.
\<close>

theorem parse_accepts_strict_json:
  assumes "parse X bytes = Inr v"
  shows "(\<exists>r. x_serde X bytes = Some r \<and> ijson r v)
    \<and> wf_json v \<and> ints_ok v \<and> nesting 0 (structural False False bytes) \<le> 32
    \<and> CHR ''-'' \<notin> set (structural False False bytes)"
proof -
  from assms obtain r where "scan False False 0 bytes = None" and "x_serde X bytes = Some r" "strict r = Some v"
    by (auto simp: parse_def split: if_splits option.splits)
  then show ?thesis using strict_ok(1) [of r v] strict_ijson(1) [of r v] scan_sound [of False False 0 bytes] by simp
qed

definition demo_doc :: bytes where
  "demo_doc = ''{'' @ [quote_char] @ ''-a'' @ [quote_char] @ '':[7]}''"

theorem parse_accepts_strict_json_witness:
  "\<exists>v. parse (demo_ext\<lparr>x_serde := (\<lambda>t. Some (RObj [(''-a'', RArr [RU64 7])]))\<rparr>) demo_doc = Inr v
     \<and> wf_json v \<and> ints_ok v"
proof -
  let ?X = "demo_ext\<lparr>x_serde := (\<lambda>t. Some (RObj [(''-a'', RArr [RU64 7])]))\<rparr>"
  have "parse ?X demo_doc = Inr (JObj [(''-a'', JArr [JInt 7])])"
    by (simp add: parse_def demo_doc_def quote_char_def backslash_def ascii_digit_def in_range_def
        visit_u64_def MAX_INTEGER_def obj_get_def char_of_def)
  with parse_accepts_strict_json [OF this] show ?thesis by blast
qed

subsection \<open>Base64URL is canonical\<close>

lemma decode_Some_iff:
  "decode X t len = Some b \<longleftrightarrow>
     list_all b64_char t \<and> x_b64dec X t = Some b \<and> x_b64enc X b = t \<and> (\<forall>n. len = Some n \<longrightarrow> length b = n)"
  by (auto simp: decode_def split: if_splits option.splits)

lemma decode_encode [simp]:
  assumes "ext_ok X"
  shows "decode X (x_b64enc X b) len = (if \<forall>n. len = Some n \<longrightarrow> length b = n then Some b else None)"
  using ext_okD(1,2) [OF assms, of b] by (auto simp: decode_def split: option.splits)

lemma decode_hash_bytes [simp]: "ext_ok X \<Longrightarrow> decode X (hash_bytes X b) (Some 32) = Some (x_sha256 X b)"
  by (simp add: hash_bytes_def ext_okD(3))

lemma decode_object_hash [simp]:
  "ext_ok X \<Longrightarrow> decode X (object_hash X v) (Some 32) = Some (x_sha256 X (x_jcs X v))"
  by (simp add: object_hash_def canonicalize_json_def)

lemma hash_bytes_inject:
  assumes "ext_ok X"
  shows "hash_bytes X a = hash_bytes X b \<longleftrightarrow> x_sha256 X a = x_sha256 X b"
  using ext_okD(1) [OF assms] unfolding hash_bytes_def by (metis option.inject)

text \<open>
  Two different strings never decode to the same bytes (no second spelling of a key, hash
  or signature is accepted), and every encoding decodes back to its bytes.
\<close>

theorem decode_canonical:
  "(decode X t len = Some b \<longrightarrow> decode X t' len' = Some b \<longrightarrow> t = t')
   \<and> (ext_ok X \<longrightarrow> decode X (x_b64enc X b) (Some (length b)) = Some b)"
  by (auto simp: decode_Some_iff ext_okD)

theorem decode_canonical_witness:
  "decode demo_ext ''141142'' None = Some ''ab'' \<and>
   decode demo_ext (x_b64enc demo_ext ''ab'') (Some (length ''ab'')) = Some ''ab''"
proof -
  have "decode demo_ext ''141142'' None = Some ''ab''"
    by code_simp
  then show ?thesis using decode_canonical [of demo_ext "''141142''" None "''ab''"] demo_ext_ok by blast
qed

subsection \<open>Relay signatures verify\<close>

lemma jremove_jset [simp]: "is_object v \<Longrightarrow> jremove k (jset k x v) = jremove k v"
proof -
  have "obj_remove k (obj_put k x kvs) = obj_remove k kvs" for kvs
    by (induction k x kvs rule: obj_put.induct) (auto simp: obj_remove_def)
  then show "is_object v \<Longrightarrow> jremove k (jset k x v) = jremove k v"
    by (auto simp: is_object_def jremove_def jset_def split: json.splits)
qed

lemma sign_relay_is_object: "sign_relay X key v ctx = Some v' \<Longrightarrow> is_object v \<and> is_object v'"
  by (auto simp: sign_relay_def signing_bytes_def Let_def split: option.splits if_splits bool.splits)

lemma sign_relay_jget:
  "sign_relay X key v ctx = Some v' \<Longrightarrow> k \<noteq> ''relay_signature'' \<Longrightarrow> jget v' k = jget v k"
  by (auto simp: sign_relay_def signing_bytes_def Let_def split: option.splits if_splits bool.splits)

lemma sign_relay_sound:
  assumes "sign_relay X key v ctx = Some v'"
  shows "\<exists>sig m. jget v' ''relay_signature'' = JStr sig
    \<and> signing_bytes X v' ctx ''relay_signature'' = Some m
    \<and> signing_bytes X v ctx ''relay_signature'' = Some m
    \<and> verify_signature X (x_b64enc X (x_public_key X key)) sig m = Some True"
proof -
  from assms have "is_object v" by (simp add: sign_relay_is_object)
  with assms show ?thesis
    by (auto simp: sign_relay_def signing_bytes_def Let_def split: option.splits if_splits bool.splits)
qed

text \<open>
  What \<open>sign_relay\<close> returns is the object it was given with a \<^verbatim>\<open>relay_signature\<close> member that
  verifies under the relay's public key, over bytes that do not depend on the signature itself.
\<close>

theorem sign_relay_verifies:
  assumes "sign_relay X key v ctx = Some v'"
  shows "\<exists>sig m. jget v' ''relay_signature'' = JStr sig
    \<and> signing_bytes X v' ctx ''relay_signature'' = Some m
    \<and> signing_bytes X v ctx ''relay_signature'' = Some m
    \<and> verify_signature X (x_b64enc X (x_public_key X key)) sig m = Some True
    \<and> (\<forall>k. k \<noteq> ''relay_signature'' \<longrightarrow> jget v' k = jget v k)"
  using sign_relay_sound [OF assms] sign_relay_jget [OF assms] by blast

theorem sign_relay_verifies_witness:
  "\<exists>v'. sign_relay demo_ext (replicate 32 CHR ''k'') (JObj []) CTX_HEAD = Some v'
     \<and> (\<exists>sig. jget v' ''relay_signature'' = JStr sig)"
proof -
  have "sign_relay demo_ext (replicate 32 CHR ''k'') (JObj []) CTX_HEAD \<noteq> None"
    by code_simp
  then obtain v' where v': "sign_relay demo_ext (replicate 32 CHR ''k'') (JObj []) CTX_HEAD = Some v'"
    by blast
  from sign_relay_verifies [OF this] v' show ?thesis by blast
qed

subsection \<open>The range check of X25519 keys\<close>

definition be_val :: "bytes \<Rightarrow> nat" where
  "be_val = foldl (\<lambda>acc c. 256 * acc + of_char c) 0"

definition le_val :: "bytes \<Rightarrow> nat" where
  "le_val b = be_val (rev b)"

lemma be_val_acc: "foldl (\<lambda>acc c. 256 * acc + of_char c) n cs = n * 256 ^ length cs + be_val cs"
proof (induction cs arbitrary: n)
  case Nil
  then show ?case by (simp add: be_val_def)
next
  case (Cons c cs)
  have "be_val (c # cs) = of_char c * 256 ^ length cs + be_val cs"
    unfolding be_val_def foldl.simps using Cons.IH [of "of_char c"] by (simp add: be_val_def)
  with Cons.IH [of "256 * n + of_char c"] show ?case by (simp add: algebra_simps)
qed

lemma be_val_Cons: "be_val (c # cs) = of_char c * 256 ^ length cs + be_val cs"
  unfolding be_val_def foldl.simps using be_val_acc [of "of_char c" cs] by (simp add: be_val_def)

lemma be_val_less: "be_val cs < 256 ^ length cs"
proof (induction cs)
  case Nil
  then show ?case by (simp add: be_val_def)
next
  case (Cons c cs)
  have "of_char c * 256 ^ length cs + be_val cs < (of_char c + 1) * 256 ^ length cs"
    using Cons by (simp add: algebra_simps)
  also have "\<dots> \<le> 256 * 256 ^ length cs"
    by (rule mult_le_mono1) (use nat_of_char_less_256 [of c] in linarith)
  finally show ?case by (simp add: be_val_Cons)
qed

lemma lex_less_iff_be_val:
  "length a = length b \<Longrightarrow> a < b \<longleftrightarrow> be_val a < be_val b"
proof (induction a b rule: list_induct2)
  case Nil
  then show ?case by simp
next
  case (Cons c cs d ds)
  let ?p = "256 ^ length ds :: nat"
  have bounds: "be_val cs < ?p" "be_val ds < ?p"
    using be_val_less [of cs] be_val_less [of ds] Cons.hyps by simp_all
  have high: "x < y \<Longrightarrow> u < ?p \<Longrightarrow> x * ?p + u < y * ?p + v" for x y u v :: nat
  proof -
    assume "x < y" "u < ?p"
    then have "x * ?p + u < (x + 1) * ?p" by simp
    also have "\<dots> \<le> y * ?p" using \<open>x < y\<close> by (intro mult_le_mono1) simp
    finally show ?thesis by simp
  qed
  consider (lt) "of_char c < (of_char d :: nat)" | (eq) "c = d" | (gt) "of_char d < (of_char c :: nat)"
    by (metis linorder_cases of_char_eq_iff)
  then show ?case
  proof cases
    case lt
    then show ?thesis
      using high [OF lt bounds(1), of "be_val ds"] Cons.hyps by (simp add: be_val_Cons less_char_def)
  next
    case eq
    then show ?thesis using Cons by (simp add: be_val_Cons)
  next
    case gt
    then show ?thesis
      using high [OF gt bounds(2), of "be_val cs"] Cons.hyps by (auto simp: be_val_Cons less_char_def)
  qed
qed

lemma be_val_replicate_255:
  "be_val (replicate n (char_of (255 :: nat)) @ cs) + 256 ^ length cs = 256 ^ (n + length cs) + be_val cs"
proof (induction n)
  case 0
  then show ?case by simp
next
  case (Suc n)
  have "of_char (char_of (255 :: nat)) = (255 :: nat)" by simp
  then have "be_val (replicate (Suc n) (char_of (255 :: nat)) @ cs)
      = 255 * 256 ^ (n + length cs) + be_val (replicate n (char_of (255 :: nat)) @ cs)"
    by (simp only: replicate_Suc append_Cons be_val_Cons length_append length_replicate)
  with Suc show ?case by simp
qed

lemma le_val_field_prime: "le_val field_prime_bytes = 2 ^ 255 - 19"
proof -
  have "be_val (replicate 30 (char_of (255 :: nat)) @ [char_of (237 :: nat)]) + 256 = 256 ^ 31 + 237"
    using be_val_replicate_255 [of 30 "[char_of (237 :: nat)]"] by (simp add: be_val_def)
  then show ?thesis
    by (simp add: le_val_def field_prime_bytes_def be_val_Cons)
qed

text \<open>
  The byte-wise comparison from the last byte down is the comparison of the little-endian
  number with the prime \<open>2^255 - 19\<close>, so a key is accepted only when it is a reduced field element
  and the probe multiplication is not all zero.
\<close>

theorem valid_x_key_iff:
  "valid_x_key X key \<longleftrightarrow>
     (\<exists>b. decode X key (Some 32) = Some b \<and> le_val b < 2 ^ 255 - 19
        \<and> list_ex (\<lambda>v. v \<noteq> CHR 0x00) (x_mul_clamped X b (replicate 32 (char_of (42 :: nat)))))"
proof -
  have "rev b < rev field_prime_bytes \<longleftrightarrow> le_val b < 2 ^ 255 - 19"
    if "decode X key (Some 32) = Some b" for b
  proof -
    from that have "length b = 32" by (simp add: decode_Some_iff)
    then have "length (rev b) = length (rev field_prime_bytes)" by (simp add: field_prime_bytes_def)
    from lex_less_iff_be_val [OF this] show ?thesis
      using le_val_field_prime by (simp add: le_val_def)
  qed
  then show ?thesis
    by (auto simp: valid_x_key_def split: option.splits)
qed

end
