(* ===== verification/Relay_Error.thy ===== *)
theory Relay_Error
  imports Relay_Crypto
begin

text \<open>
  \<^verbatim>\<open>src/api/error.rs\<close>: the error catalogue and the problem document of a failed request.
\<close>

text \<open>
  \<^verbatim>\<open>catalogue\<close>: HTTP status and retryability of a code; \<open>None\<close> is the \<^verbatim>\<open>unreachable!\<close> arm.
\<close>

definition catalogue :: "string \<Rightarrow> (nat \<times> bool) option" where
  "catalogue c =
    (if c \<in> set [''INVALID_JSON'', ''INVALID_FIELD'', ''CURSOR_INVALID'', ''FILTER_NOT_ALLOWED''] then Some (400, False)
     else if c \<in> set [''TOKEN_REQUIRED'', ''TOKEN_NOT_YET_VALID'', ''TOKEN_EXPIRED'', ''TOKEN_REPLAYED''] then Some (401, True)
     else if c \<in> set [''TOKEN_TTL_TOO_LONG'', ''TOKEN_SIGNATURE_INVALID'', ''TOKEN_BINDING_MISMATCH''] then Some (401, False)
     else if c \<in> set [''ADMIN_REQUIRED'', ''DEVICE_PENDING_KEYS'', ''DEVICE_UNKNOWN'', ''ENROLLMENT_NOT_ALLOWED'',
         ''ROTATION_NOT_ALLOWED''] then Some (403, True)
     else if c \<in> set [''DEVICE_REVOKED'', ''DEVICE_KEY_MISMATCH'', ''ENVELOPE_ACCESS_DENIED''] then Some (403, False)
     else if c = ''ENDPOINT_NOT_FOUND'' then Some (404, False)
     else if c \<in> set [''CHAIN_NOT_FOUND'', ''DEVICE_NOT_FOUND'', ''EPOCH_NOT_FOUND'', ''OFFER_NOT_FOUND'',
         ''ENVELOPE_NOT_FOUND'', ''SNAPSHOT_PART_NOT_FOUND'', ''SNAPSHOT_NOT_FOUND'', ''RECEIPT_NOT_FOUND''] then Some (404, True)
     else if c = ''METHOD_NOT_ALLOWED'' then Some (405, False)
     else if c = ''REQUEST_TIMEOUT'' then Some (408, True)
     else if c \<in> set [''CHAIN_EXISTS'', ''RECORD_ID_CONFLICT'', ''DEVICE_ID_CONFLICT'', ''REQUEST_ID_CONFLICT'',
         ''ENVELOPE_ID_CONFLICT'', ''OPERATION_ID_CONFLICT'', ''IMPORT_CONFLICT''] then Some (409, False)
     else if c \<in> set [''EPOCH_STALE'', ''CAS_MISMATCH'', ''GENERATION_MISMATCH'', ''MEMBER_SET_MISMATCH'',
         ''RECOVERY_ENVELOPE_REQUIRED'', ''HISTORY_KEY_EXPIRED'', ''CURSOR_EXPIRED'', ''LOG_ID_MISMATCH'', ''LOG_PRUNED'',
         ''SNAPSHOT_INCOMPLETE'', ''COMPACTION_UNSAFE'', ''REPAIR_PROOF_REQUIRED'', ''TRANSPARENCY_ID_MISMATCH'',
         ''TRANSPARENCY_RANGE_UNAVAILABLE''] then Some (409, True)
     else if c = ''CHAIN_DELETED'' then Some (410, False)
     else if c \<in> set [''PAYLOAD_TOO_LARGE'', ''DEVICE_LIMIT_REACHED''] then Some (413, True)
     else if c = ''UNSUPPORTED_MEDIA_TYPE'' then Some (415, False)
     else if c \<in> set [''OBJECT_SIGNATURE_INVALID'', ''ENROLLMENT_CERTIFICATE_INVALID'', ''EPOCH_CHAIN_INVALID''] then Some (422, False)
     else if c = ''RATE_LIMITED'' then Some (429, True)
     else if c = ''INTERNAL_ERROR'' then Some (500, True)
     else if c = ''BAD_GATEWAY'' then Some (502, True)
     else if c \<in> set [''RELAY_UNAVAILABLE'', ''RELAY_SHUTTING_DOWN''] then Some (503, True)
     else if c = ''GATEWAY_TIMEOUT'' then Some (504, True)
     else if c \<in> set [''QUOTA_EXCEEDED'', ''STORAGE_UNAVAILABLE''] then Some (507, True)
     else None)"

definition status :: "string \<Rightarrow> nat option" where
  "status code = map_option fst (catalogue code)"

definition retryable :: "string \<Rightarrow> bool option" where
  "retryable code = map_option snd (catalogue code)"

text \<open>A failed SQL statement: \<^verbatim>\<open>impl From<sqlx::Error> for ApiError\<close>.\<close>

definition sql_error :: failure where
  "sql_error = err ''STORAGE_UNAVAILABLE''"

text \<open>\<^verbatim>\<open>u64::div_ceil\<close> and the clamp of the \<^verbatim>\<open>Retry-After\<close> header.\<close>

definition div_ceil :: "nat \<Rightarrow> nat \<Rightarrow> nat" where
  "div_ceil a b = (if a mod b = 0 then a div b else a div b + 1)"

definition retry_after :: "string \<Rightarrow> json option \<Rightarrow> nat option" where
  "retry_after code context =
     (if code \<in> set [''RATE_LIMITED'', ''TOKEN_NOT_YET_VALID'']
      then (let ms = (case context of None \<Rightarrow> 1000
                      | Some v \<Rightarrow> (case as_u64 (jget v ''retry_after_ms'') of None \<Rightarrow> 1000 | Some m \<Rightarrow> m))
            in Some (max 1 (min 3600 (div_ceil ms 1000))))
      else None)"

text \<open>
  \<^verbatim>\<open>into_response\<close> at time \<open>t\<close>: status, body and \<^verbatim>\<open>Retry-After\<close>; \<open>None\<close> is a panic (an
  uncatalogued code, or a status without a reason phrase).
\<close>

definition into_response :: "ext \<Rightarrow> nat \<Rightarrow> string \<Rightarrow> json option \<Rightarrow> (nat \<times> json \<times> nat option) option" where
  "into_response X t code context =
     (case catalogue code of
        None \<Rightarrow> None
      | Some (st, again) \<Rightarrow>
          (case x_reason X st of
             None \<Rightarrow> None
           | Some title \<Rightarrow>
               (let body = jobj [(''type'', JStr ''about:blank''), (''title'', JStr title), (''status'', JNat st),
                      (''code'', JStr code), (''retryable'', JBool again), (''server_time_ms'', JNat t)];
                    body = (case context of None \<Rightarrow> body | Some c \<Rightarrow> jset ''context'' c body)
                in Some (st, body, retry_after code context))))"

text \<open>A failure the catalogue knows; a panic is counted separately.\<close>

definition catalogued :: "failure \<Rightarrow> bool" where
  "catalogued f = (case f of Err c x \<Rightarrow> catalogue c \<noteq> None | Panic \<Rightarrow> True)"

lemma catalogued_err: "catalogued (err c) \<longleftrightarrow> catalogue c \<noteq> None"
  by (simp add: catalogued_def err_def)

text \<open>Every status of the catalogue is one of an error.\<close>

lemma peel_case: "(if b then Some x else y) = Some z \<Longrightarrow> P x \<Longrightarrow> (y = Some z \<Longrightarrow> P z) \<Longrightarrow> P z"
  by (simp split: if_splits)

lemma catalogue_range:
  assumes "catalogue code = Some (st, again)"
  shows "400 \<le> st \<and> st < 600"
proof -
  have "(\<lambda>(n, b). 400 \<le> n \<and> n < (600 :: nat)) (st, again)"
    using assms unfolding catalogue_def
    by - ((erule peel_case [where P = "\<lambda>(n, b). 400 \<le> n \<and> n < (600 :: nat)"], simp)+, simp)
  then show ?thesis by simp
qed

lemma status_range: "status code = Some n \<Longrightarrow> 400 \<le> n \<and> n < 600"
  by (auto simp: status_def dest: catalogue_range)

text \<open>
  A catalogued code always yields a problem document (given that its status has a reason
  phrase) whose status is a client or server error, and \<^verbatim>\<open>Retry-After\<close> is present exactly for
  the two codes that announce a waiting time, between one second and one hour.
\<close>

theorem into_response_total:
  assumes "catalogue code = Some (st, again)" and "x_reason X st = Some title"
  shows "\<exists>body ra. into_response X t code context = Some (st, body, ra) \<and> 400 \<le> st \<and> st < 600
    \<and> jget body ''code'' = JStr code \<and> jget body ''status'' = JNat st \<and> jget body ''retryable'' = JBool again
    \<and> (ra \<noteq> None \<longleftrightarrow> code = ''RATE_LIMITED'' \<or> code = ''TOKEN_NOT_YET_VALID'')
    \<and> (\<forall>r. ra = Some r \<longrightarrow> 1 \<le> r \<and> r \<le> 3600)"
proof -
  have st: "400 \<le> st \<and> st < 600"
    by (rule catalogue_range [OF assms(1)])
  have ra: "retry_after code context \<noteq> None \<longleftrightarrow> code = ''RATE_LIMITED'' \<or> code = ''TOKEN_NOT_YET_VALID''"
    "\<forall>r. retry_after code context = Some r \<longrightarrow> 1 \<le> r \<and> r \<le> 3600"
    by (auto simp: retry_after_def Let_def)
  show ?thesis
    using assms st ra by (cases "context") (simp_all add: into_response_def Let_def jget_jobj)
qed

theorem into_response_total_witness:
  "catalogue ''RATE_LIMITED'' = Some (429, True) \<and>
   (\<exists>body ra. into_response demo_ext 5 ''RATE_LIMITED'' (Some (jobj [(''retry_after_ms'', JInt 7000000)])) = Some (429, body, ra)
      \<and> (\<forall>r. ra = Some r \<longrightarrow> 1 \<le> r \<and> r \<le> 3600))"
proof -
  have c: "catalogue ''RATE_LIMITED'' = Some (429, True)" by (simp add: catalogue_def)
  have "x_reason demo_ext 429 = Some ''reason''" by (simp add: demo_ext_def demo_reason_def)
  from into_response_total [OF c this] c show ?thesis by blast
qed

end
