(* ===== verification/Relay_Wire.thy ===== *)
theory Relay_Wire
  imports Relay_Error "HOL-Library.Product_Lexorder"
begin

text \<open>
  \<^verbatim>\<open>src/api/wire.rs\<close>: member accessors, the closed wire schemas, and the canonical query.
\<close>

subsection \<open>Accessors\<close>

text \<open>The source's \<^verbatim>\<open>s\<close>, \<^verbatim>\<open>n\<close> and \<^verbatim>\<open>a\<close>: a member as string, number or array, with the empty default.\<close>

definition s_of :: "json \<Rightarrow> string \<Rightarrow> string" where
  "s_of v key = (case as_str (jget v key) of None \<Rightarrow> [] | Some t \<Rightarrow> t)"

definition n_of :: "json \<Rightarrow> string \<Rightarrow> nat" where
  "n_of v key = (case as_u64 (jget v key) of None \<Rightarrow> 0 | Some n \<Rightarrow> n)"

definition a_of :: "json \<Rightarrow> string \<Rightarrow> json list" where
  "a_of v key = (case as_array (jget v key) of None \<Rightarrow> [] | Some xs \<Rightarrow> xs)"

definition id_ok :: "ext \<Rightarrow> string \<Rightarrow> bool" where
  "id_ok X v \<longleftrightarrow> CHR 0x00 \<notin> set v \<and> x_nfc X v = v"

definition uuid :: "ext \<Rightarrow> string \<Rightarrow> bool" where
  "uuid X v = (case x_uuid_parse X v of None \<Rightarrow> False | Some u \<Rightarrow> x_uuid_v4 X u \<and> x_uuid_str X u = v)"

subsection \<open>Closed schemas\<close>

function check_type :: "ext \<Rightarrow> json \<Rightarrow> string \<Rightarrow> bool" where
  "check_type X v t =
     (case strip_suffix ''?'' t of
        Some t' \<Rightarrow> v = JNull \<or> check_type X v t'
      | None \<Rightarrow>
          (case strip_suffix ''[]'' t of
             Some t' \<Rightarrow> (case as_array v of None \<Rightarrow> False | Some xs \<Rightarrow> list_all (\<lambda>x. check_type X x t') xs)
           | None \<Rightarrow>
               if t = ''string'' then (case as_str v of None \<Rightarrow> False | Some w \<Rightarrow> id_ok X w)
               else if t = ''uuid'' then (case as_str v of None \<Rightarrow> False | Some w \<Rightarrow> uuid X w)
               else if t = ''u32'' then (case as_u64 v of None \<Rightarrow> False | Some n \<Rightarrow> n \<le> 2 ^ 32 - 1)
               else if t = ''int'' then (case as_u64 v of None \<Rightarrow> False | Some n \<Rightarrow> n \<le> MAX_INTEGER)
               else if t = ''bool'' then (case v of JBool b \<Rightarrow> True | _ \<Rightarrow> False)
               else if t = ''object'' then is_object v
               else if t = ''array'' then as_array v \<noteq> None
               else if t = ''3.0'' then v = JStr ''3.0''
               else if t \<in> set [''b16'', ''b24'', ''b32'', ''b48'', ''b64'']
               then (case as_str v of None \<Rightarrow> False | Some w \<Rightarrow> decode X w (parse_u64 (tl t)) \<noteq> None)
               else (case as_str v of None \<Rightarrow> False | Some w \<Rightarrow> list_ex (\<lambda>u. u = w) (split_on CHR ''|'' t))))"
  by pat_completeness auto
termination
  by (relation "measure (\<lambda>(X, v, t). length t)") (auto simp: strip_suffix_def split: if_splits)

declare check_type.simps [simp del]

definition fields :: "ext \<Rightarrow> json \<Rightarrow> (string \<times> string) list \<Rightarrow> (string \<times> string) list \<Rightarrow> unit res" where
  "fields X v required optional =
     (case v of
        JObj o' \<Rightarrow>
          rbind (rall (\<lambda>(k, t). reject (\<not> (case obj_get o' k of None \<Rightarrow> False | Some x \<Rightarrow> check_type X x t))
                   ''INVALID_FIELD'') required) (\<lambda>_.
          rall (\<lambda>(k, x). case find (\<lambda>(name, t). name = k) (required @ optional) of
                   None \<Rightarrow> Inl (err ''INVALID_FIELD'')
                 | Some (name, t) \<Rightarrow> reject (\<not> check_type X x t) ''INVALID_FIELD'') o')
      | _ \<Rightarrow> Inl (err ''INVALID_FIELD''))"

text \<open>\<^verbatim>\<open>reject_local_artifacts\<close>: the stack \<^verbatim>\<open>pending\<close> with its top first.\<close>

definition artifact_types :: "string list" where
  "artifact_types = [''PALLASYNC-RECOVERY-BLOB-v3'', ''PALLASYNC-RECOVERY-SET-v3'', ''PALLASYNC-RECOVERY-STATUS-v3'',
     ''PALLASYNC-RECOVERY-SHARE-v3'', ''PALLASYNC-RECOVERY-PACKAGE-v3'', ''PALLASYNC-OFFLINE-SHARE-KEY-v3'',
     ''PALLASYNC-RECOVERY-SESSION-v3'', ''PALLASYNC-RECOVERY-TRANSFER-v3'']"

definition artifact_object :: "(string \<times> json) list \<Rightarrow> bool" where
  "artifact_object o' \<longleftrightarrow>
     (case obj_get o' ''type'' of Some (JStr kind) \<Rightarrow> kind \<in> set artifact_types | _ \<Rightarrow> False)
     \<or> (obj_get o' ''mnemonic'' \<noteq> None \<and> obj_get o' ''passphrase'' \<noteq> None)"

lemma size_list_sum: "size_list f xs = sum_list (map f xs) + length xs"
  by (induction xs) auto

lemma sum_size_prod: "sum_list (map (size_prod (\<lambda>x. 0) size) kvs) = sum_list (map (size \<circ> snd) kvs) + length kvs"
  by (induction kvs) auto

function reject_loop :: "json list \<Rightarrow> unit res" where
  "reject_loop [] = Inr ()"
| "reject_loop (v # pending) =
     (case v of
        JObj o' \<Rightarrow> if artifact_object o' then Inl (err ''INVALID_FIELD'')
                  else reject_loop (rev (map snd o') @ pending)
      | JArr xs \<Rightarrow> reject_loop (rev xs @ pending)
      | _ \<Rightarrow> reject_loop pending)"
  by pat_completeness auto
termination
proof (relation "measure (\<lambda>vs. sum_list (map size vs) + length vs)")
  show "wf (measure (\<lambda>vs :: json list. sum_list (map size vs) + length vs))" by simp
qed (auto simp: rev_map [symmetric] size_list_sum sum_size_prod)


definition reject_local_artifacts :: "json \<Rightarrow> unit res" where
  "reject_local_artifacts v = reject_loop [v]"

text \<open>\<^verbatim>\<open>signed\<close>: the closed schema with its signature, and the naming rule of extension members.\<close>

definition ext_label_ok :: "bool \<Rightarrow> string \<Rightarrow> bool" where
  "ext_label_ok last_label label \<longleftrightarrow>
     label \<noteq> [] \<and> length label \<le> (if last_label then 64 else 63) \<and> ascii_lower (hd label)
     \<and> last label \<noteq> CHR ''-''
     \<and> list_all (\<lambda>b. ascii_lower b \<or> ascii_digit b \<or> (if last_label then b = CHR ''_'' else b = CHR ''-'')) label"

definition ext_key_ok :: "string \<Rightarrow> bool" where
  "ext_key_ok key \<longleftrightarrow>
     (let labels = split_on CHR ''.'' key in
      \<not> (length labels < 3 \<or> length key > 255
         \<or> \<not> list_all (\<lambda>(i, label). ext_label_ok (i + 1 = length labels) label) (enumerate 0 labels)))"

definition signed :: "ext \<Rightarrow> json \<Rightarrow> (string \<times> string) list \<Rightarrow> unit res" where
  "signed X v required =
     rbind (reject_local_artifacts v) (\<lambda>_.
     rbind (fields X v (required @ [(''signature'', ''b64'')]) [(''ext'', ''object'')]) (\<lambda>_.
     case jfind v ''ext'' of
       None \<Rightarrow> Inr ()
     | Some e \<Rightarrow>
         rbind (reject (length (canonicalize_json X e) > 1024) ''INVALID_FIELD'') (\<lambda>_.
         case e of
           JObj o' \<Rightarrow> rall (\<lambda>p. reject (\<not> ext_key_ok (fst p)) ''INVALID_FIELD'') o'
         | _ \<Rightarrow> Inl Panic)))"

definition signer :: "json \<Rightarrow> unit res" where
  "signer v = reject ((s_of v ''signer_kind'' = ''admin'') \<noteq> (jget v ''signer_device_id'' = JNull)) ''INVALID_FIELD''"

definition verify :: "ext \<Rightarrow> json \<Rightarrow> string \<Rightarrow> bytes \<Rightarrow> unit res" where
  "verify X v key ctx =
     reject (verify_signed_json X key (s_of v ''signature'') v ctx \<noteq> Some True) ''OBJECT_SIGNATURE_INVALID''"

subsection \<open>One validator per kind of object\<close>

definition validate_parameters :: "ext \<Rightarrow> json \<Rightarrow> unit res" where
  "validate_parameters X v =
     rbind (signed X v
       [(''version'', ''3.0''), (''chain_id'', ''b32''), (''admin_public_key'', ''b32''), (''generation'', ''u32''),
        (''previous_parameters_hash'', ''b32?''), (''policy'', ''object'')]) (\<lambda>_.
     rbind (fields X (jget v ''policy'')
       [(''metadata_profile'', ''private|queryable''), (''allow_device_chain_delete'', ''bool''),
        (''allow_peer_enrollment'', ''bool''), (''allow_device_rotation'', ''bool''),
        (''epoch_retention'', ''retain|windowed|immediate''), (''epoch_window_ms'', ''int''),
        (''scheduled_rotation_ms'', ''int'')] []) (\<lambda>_.
     let w = n_of (jget v ''policy'') ''epoch_window_ms'';
         t = n_of (jget v ''policy'') ''scheduled_rotation_ms'' in
     reject (\<not> (1 \<le> w \<and> w \<le> 31536000000)
        \<or> (t \<noteq> 0 \<and> \<not> (3600000 \<le> t \<and> t \<le> 31536000000))
        \<or> (n_of v ''generation'' = 0) \<noteq> (jget v ''previous_parameters_hash'' = JNull)
        \<or> \<not> valid_ed_key X (s_of v ''admin_public_key'')) ''INVALID_FIELD''))"

definition validate_certificate :: "ext \<Rightarrow> json \<Rightarrow> unit res" where
  "validate_certificate X v =
     rbind (signed X v
       [(''chain_id'', ''b32''), (''generation'', ''u32''), (''certificate_id'', ''uuid''), (''device_id'', ''uuid''),
        (''device_public_key'', ''b32''), (''device_kex_public_key'', ''b32''), (''signer_kind'', ''admin|device''),
        (''signer_device_id'', ''uuid?''), (''request_hash'', ''b32?''), (''approved_at_ms'', ''int'')]) (\<lambda>_.
     rbind (signer v) (\<lambda>_.
     reject ((s_of v ''signer_kind'' = ''device'' \<and> jget v ''request_hash'' = JNull)
        \<or> \<not> valid_ed_key X (s_of v ''device_public_key'')
        \<or> \<not> valid_x_key X (s_of v ''device_kex_public_key'')) ''INVALID_FIELD''))"

definition validate_device :: "ext \<Rightarrow> json \<Rightarrow> unit res" where
  "validate_device X v =
     rbind (signed X v
       [(''version'', ''3.0''), (''chain_id'', ''b32''), (''generation'', ''u32''), (''device_id'', ''uuid''),
        (''device_public_key'', ''b32''), (''device_kex_public_key'', ''b32''), (''meta_epoch'', ''u32''),
        (''meta_nonce'', ''b24''), (''encrypted_device_meta'', ''string''), (''enrollment'', ''object'')]) (\<lambda>_.
     rbind (validate_certificate X (jget v ''enrollment'')) (\<lambda>_.
     rbind (ok_or ''INVALID_FIELD'' (decode X (s_of v ''encrypted_device_meta'') None)) (\<lambda>b.
     rbind (reject (length b \<notin> set [1040, 4112]) ''INVALID_FIELD'') (\<lambda>_.
     rall (\<lambda>k. reject (jget v k \<noteq> jget (jget v ''enrollment'') k) ''ENROLLMENT_CERTIFICATE_INVALID'')
       [''chain_id'', ''generation'', ''device_id'', ''device_public_key'', ''device_kex_public_key'']))))"

text \<open>\<^verbatim>\<open>windows(2).any(..)\<close>, and \<^verbatim>\<open>>=\<close> on \<^verbatim>\<open>Option<&str>\<close>, where \<^verbatim>\<open>None\<close> is least.\<close>

fun windows2_any :: "('a \<Rightarrow> 'a \<Rightarrow> bool) \<Rightarrow> 'a list \<Rightarrow> bool" where
  "windows2_any p (x # y # zs) = (p x y \<or> windows2_any p (y # zs))"
| "windows2_any p xs = False"

definition opt_str_ge :: "string option \<Rightarrow> string option \<Rightarrow> bool" where
  "opt_str_ge x y = (case y of None \<Rightarrow> True | Some b \<Rightarrow> (case x of None \<Rightarrow> False | Some a \<Rightarrow> b \<le> a))"

definition validate_epoch :: "ext \<Rightarrow> json \<Rightarrow> unit res" where
  "validate_epoch X v =
     rbind (signed X v
       [(''chain_id'', ''b32''), (''generation'', ''u32''), (''epoch'', ''u32''), (''previous_epoch_hash'', ''b32?''),
        (''epoch_commitment'', ''b32''),
        (''reason'', ''genesis|scheduled|manual|device_revocation|key_rotation|reseed|emergency''),
        (''signer_kind'', ''admin|device''), (''signer_device_id'', ''uuid?''), (''members'', ''uuid[]''),
        (''revoked_device_ids'', ''uuid[]''), (''recovery_envelope_hash'', ''b32'')]) (\<lambda>_.
     rbind (signer v) (\<lambda>_.
     rbind (reject (a_of v ''members'' = [] \<or> length (a_of v ''members'') > 128
        \<or> (n_of v ''epoch'' = 0) \<noteq> (jget v ''previous_epoch_hash'' = JNull)) ''EPOCH_CHAIN_INVALID'') (\<lambda>_.
     rbind (rall (\<lambda>k. reject (windows2_any (\<lambda>x y. opt_str_ge (as_str x) (as_str y)) (a_of v k)) ''MEMBER_SET_MISMATCH'')
        [''members'', ''revoked_device_ids'']) (\<lambda>_.
     reject (list_ex (\<lambda>i. i \<in> set (a_of v ''revoked_device_ids'')) (a_of v ''members'')) ''MEMBER_SET_MISMATCH''))))"

definition validate_envelope :: "ext \<Rightarrow> json \<Rightarrow> unit res" where
  "validate_envelope X v =
     rbind (signed X v
       [(''envelope_id'', ''uuid''), (''chain_id'', ''b32''), (''generation'', ''u32''), (''epoch'', ''u32''),
        (''previous_epoch_hash'', ''b32?''), (''epoch_commitment'', ''b32''), (''recipient_kind'', ''device|recovery''),
        (''recipient_device_id'', ''uuid?''), (''recipient_key_hash'', ''b32?''), (''signer_kind'', ''admin|device''),
        (''signer_device_id'', ''uuid?''), (''enc'', ''b32?''), (''nonce'', ''b24?''), (''ciphertext'', ''b48'')]) (\<lambda>_.
     rbind (signer v) (\<lambda>_.
     let device = (s_of v ''recipient_kind'' = ''device'') in
     reject (device = (jget v ''recipient_device_id'' = JNull)
        \<or> device = (jget v ''recipient_key_hash'' = JNull)
        \<or> device = (jget v ''enc'' = JNull)
        \<or> device \<noteq> (jget v ''nonce'' = JNull)
        \<or> (device \<and> \<not> valid_x_key X (s_of v ''enc''))) ''INVALID_FIELD''))"

definition validate_record :: "ext \<Rightarrow> json \<Rightarrow> unit res" where
  "validate_record X v =
     rbind (signed X v
       [(''version'', ''3.0''), (''chain_id'', ''b32''), (''generation'', ''u32''), (''record_id'', ''uuid''),
        (''device_id'', ''uuid''), (''epoch'', ''u32''), (''collection_tag'', ''b16?''), (''payload_nonce'', ''b24''),
        (''encrypted_payload'', ''string'')]) (\<lambda>_.
     rbind (ok_or ''INVALID_FIELD'' (decode X (s_of v ''encrypted_payload'') None)) (\<lambda>b.
     reject (length b \<notin> set [1040, 4112, 16400, 65552, 262160, 1048592]) ''INVALID_FIELD''))"

definition validate_compaction :: "ext \<Rightarrow> json \<Rightarrow> unit res" where
  "validate_compaction X v =
     rbind (signed X v
       [(''compaction_id'', ''uuid''), (''chain_id'', ''b32''), (''generation'', ''u32''), (''device_id'', ''uuid''),
        (''log_id'', ''uuid''), (''covered_through_seq'', ''int''), (''covered_log_hash'', ''b32''),
        (''epoch_hash'', ''b32''), (''snapshot_parts'', ''array''), (''state_sha256'', ''b32'')]) (\<lambda>_.
     rbind (reject (a_of v ''snapshot_parts'' = [] \<or> length (a_of v ''snapshot_parts'') > 65536) ''INVALID_FIELD'') (\<lambda>_.
     rbind (rfold (\<lambda>p ids.
         rbind (fields X p [(''record_id'', ''uuid''), (''record_hash'', ''b32'')] []) (\<lambda>_.
         rbind (reject (s_of p ''record_id'' \<in> set ids) ''INVALID_FIELD'') (\<lambda>_.
         Inr (s_of p ''record_id'' # ids)))) (a_of v ''snapshot_parts'') []) (\<lambda>_.
     Inr ())))"

definition validate_admin :: "ext \<Rightarrow> json \<Rightarrow> unit res" where
  "validate_admin X v =
     signed X v
       [(''operation_id'', ''uuid''), (''chain_id'', ''b32''), (''generation'', ''u32''),
        (''action'', ''approve_enrollment|revoke_device|reseed|delete_chain|prune_log''),
        (''expected_parameters_hash'', ''b32''), (''expected_epoch_hash'', ''b32''), (''target_hash'', ''b32''),
        (''created_at_ms'', ''int'')]"

definition validate_request :: "ext \<Rightarrow> json \<Rightarrow> unit res" where
  "validate_request X v =
     rbind (signed X v
       [(''request_id'', ''uuid''), (''chain_id'', ''b32''), (''generation'', ''u32''), (''device_id'', ''uuid''),
        (''device_public_key'', ''b32''), (''device_kex_public_key'', ''b32''), (''offer_nonce'', ''b32''),
        (''created_at_ms'', ''int''), (''expires_at_ms'', ''int'')]) (\<lambda>_.
     reject (n_of v ''created_at_ms'' \<ge> n_of v ''expires_at_ms''
        \<or> n_of v ''expires_at_ms'' - n_of v ''created_at_ms'' > 300000
        \<or> \<not> valid_ed_key X (s_of v ''device_public_key'')
        \<or> \<not> valid_x_key X (s_of v ''device_kex_public_key'')) ''INVALID_FIELD'')"

datatype schema = SParameters | SCertificate | SDevice | SEpoch | SEnvelope | SRecord | SCompaction | SAdmin | SRequest

fun validate :: "ext \<Rightarrow> json \<Rightarrow> schema \<Rightarrow> unit res" where
  "validate X v SParameters = validate_parameters X v"
| "validate X v SCertificate = validate_certificate X v"
| "validate X v SDevice = validate_device X v"
| "validate X v SEpoch = validate_epoch X v"
| "validate X v SEnvelope = validate_envelope X v"
| "validate X v SRecord = validate_record X v"
| "validate X v SCompaction = validate_compaction X v"
| "validate X v SAdmin = validate_admin X v"
| "validate X v SRequest = validate_request X v"

subsection \<open>The canonical query\<close>

definition hex_val :: "char \<Rightarrow> nat option" where
  "hex_val c =
     (if ascii_digit c then Some (of_char c - 48)
      else if in_range CHR ''a'' CHR ''f'' c then Some (of_char c - 87)
      else if in_range CHR ''A'' CHR ''F'' c then Some (of_char c - 55) else None)"

text \<open>
  \<^verbatim>\<open>u8::from_str_radix(h, 16)\<close> on two characters. Rust accepts one leading \<^verbatim>\<open>+\<close> before the digits.
\<close>

definition from_hex2 :: "char \<Rightarrow> char \<Rightarrow> nat option" where
  "from_hex2 c d =
     (if c = CHR ''+'' then hex_val d
      else case hex_val c of None \<Rightarrow> None
        | Some h \<Rightarrow> (case hex_val d of None \<Rightarrow> None | Some l \<Rightarrow> Some (16 * h + l)))"

definition unreserved :: "char \<Rightarrow> bool" where
  "unreserved c \<longleftrightarrow> ascii_alnum c \<or> c \<in> set ''-._~''"

definition hex_upper :: "nat \<Rightarrow> char" where
  "hex_upper n = (if n < 10 then char_of (48 + n) else char_of (55 + n))"

definition pct_char :: "char \<Rightarrow> string" where
  "pct_char v = (if unreserved v then [v] else [CHR ''%'', hex_upper (of_char v div 16), hex_upper (of_char v mod 16)])"

fun pct :: "string \<Rightarrow> string res" where
  "pct [] = Inr []"
| "pct (b # bs) =
     (if b = CHR ''%'' then
        (case bs of
           c # d # rest \<Rightarrow>
             (case from_hex2 c d of
                None \<Rightarrow> Inl (err ''INVALID_FIELD'')
              | Some v \<Rightarrow> rbind (pct rest) (\<lambda>out. Inr (pct_char (char_of v) @ out)))
         | _ \<Rightarrow> Inl (err ''INVALID_FIELD''))
      else rbind (pct bs) (\<lambda>out. Inr (pct_char b @ out)))"

definition query_pair :: "string \<Rightarrow> (string \<times> string) res" where
  "query_pair p =
     (let (k, v) = (case split_once CHR ''='' p of None \<Rightarrow> (p, []) | Some kv \<Rightarrow> kv) in
      rbind (pct k) (\<lambda>k'. rbind (pct v) (\<lambda>v'. Inr (k', v'))))"

definition canonical_query :: "string \<Rightarrow> (string \<times> string) list res" where
  "canonical_query raw =
     (if raw = [] then Inr []
      else rbind (rfold (\<lambda>p out. rbind (query_pair p) (\<lambda>kv. Inr (out @ [kv]))) (split_on CHR ''&'' raw) []) (\<lambda>out.
        let out = sort out in
        rbind (reject (windows2_any (\<lambda>x y. fst x = fst y) out) ''INVALID_FIELD'') (\<lambda>_. Inr out)))"

definition query_string :: "(string \<times> string) list \<Rightarrow> string" where
  "query_string q = join ''&'' (map (\<lambda>(k, v). k @ ''='' @ v) q)"


subsection \<open>What the closed schemas guarantee\<close>

text \<open>The type specifications that occur in the schemas, evaluated.\<close>

lemma check_type_uuid: "check_type X v ''uuid'' \<longleftrightarrow> (\<exists>w. v = JStr w \<and> uuid X w)"
  by (subst check_type.simps) (auto simp: strip_suffix_def as_str_def split: json.splits option.splits)

lemma check_type_b32: "check_type X v ''b32'' \<longleftrightarrow> (\<exists>w b. v = JStr w \<and> decode X w (Some 32) = Some b)"
  by (subst check_type.simps) (auto simp: strip_suffix_def as_str_def parse_u64_def strip_plus_def digits_val_def digit_val_def ascii_digit_def in_range_def split: json.splits option.splits)

lemma check_type_b64: "check_type X v ''b64'' \<longleftrightarrow> (\<exists>w b. v = JStr w \<and> decode X w (Some 64) = Some b)"
  by (subst check_type.simps) (auto simp: strip_suffix_def as_str_def parse_u64_def strip_plus_def digits_val_def digit_val_def ascii_digit_def in_range_def split: json.splits option.splits)

lemma check_type_object: "check_type X v ''object'' \<longleftrightarrow> is_object v"
  by (subst check_type.simps) (auto simp: strip_suffix_def split: json.splits option.splits)

lemma check_type_array: "check_type X v ''array'' \<longleftrightarrow> (\<exists>xs. v = JArr xs)"
  by (subst check_type.simps) (auto simp: strip_suffix_def as_array_def split: json.splits option.splits)

lemma as_u64_Some: "as_u64 v = Some n \<longleftrightarrow> v = JNat n \<and> n < 2 ^ 64"
  by (cases v) (auto simp: as_u64_def)

lemma check_type_u32: "check_type X v ''u32'' \<longleftrightarrow> (\<exists>n. v = JNat n \<and> n < 2 ^ 32)"
proof -
  have "check_type X v ''u32'' \<longleftrightarrow> (\<exists>n. as_u64 v = Some n \<and> n \<le> 2 ^ 32 - 1)"
    by (subst check_type.simps) (simp add: strip_suffix_def split: option.splits)
  also have "\<dots> \<longleftrightarrow> (\<exists>n. v = JNat n \<and> n < 2 ^ 32)"
    by (auto simp: as_u64_Some)
  finally show ?thesis .
qed

lemma check_type_int: "check_type X v ''int'' \<longleftrightarrow> (\<exists>n. v = JNat n \<and> n \<le> MAX_INTEGER)"
proof -
  have "check_type X v ''int'' \<longleftrightarrow> (\<exists>n. as_u64 v = Some n \<and> n \<le> MAX_INTEGER)"
    by (subst check_type.simps) (simp add: strip_suffix_def split: option.splits)
  also have "\<dots> \<longleftrightarrow> (\<exists>n. v = JNat n \<and> n \<le> MAX_INTEGER)"
    by (auto simp: as_u64_Some MAX_INTEGER_def)
  finally show ?thesis .
qed

lemma check_type_uuids:
  "check_type X v ''uuid[]'' \<longleftrightarrow> (\<exists>ids. v = JArr (map JStr ids) \<and> (\<forall>w \<in> set ids. uuid X w))"
proof -
  have "check_type X v ''uuid[]'' \<longleftrightarrow> (\<exists>xs. v = JArr xs \<and> (\<forall>x \<in> set xs. check_type X x ''uuid''))"
    by (subst check_type.simps)
      (auto simp: strip_suffix_def as_array_def list_all_iff split: json.splits)
  also have "\<dots> \<longleftrightarrow> (\<exists>ids. v = JArr (map JStr ids) \<and> (\<forall>w \<in> set ids. uuid X w))"
  proof
    assume "\<exists>xs. v = JArr xs \<and> (\<forall>x \<in> set xs. check_type X x ''uuid'')"
    then obtain xs where xs: "v = JArr xs" "\<forall>x \<in> set xs. \<exists>w. x = JStr w \<and> uuid X w"
      by (auto simp: check_type_uuid)
    then have "\<exists>ids. xs = map JStr ids \<and> (\<forall>w \<in> set ids. uuid X w)"
    proof (induction xs arbitrary: v)
      case (Cons x xs)
      then obtain ids w where "xs = map JStr ids" "\<forall>w \<in> set ids. uuid X w" "x = JStr w" "uuid X w"
        by auto
      then show ?case by (intro exI [of _ "w # ids"]) simp
    qed simp
    with xs show "\<exists>ids. v = JArr (map JStr ids) \<and> (\<forall>w \<in> set ids. uuid X w)" by blast
  qed (auto simp: check_type_uuid)
  finally show ?thesis .
qed

lemma check_type_string: "check_type X v ''string'' \<longleftrightarrow> (\<exists>w. v = JStr w \<and> CHR 0x00 \<notin> set w \<and> x_nfc X w = w)"
  by (subst check_type.simps) (auto simp: strip_suffix_def as_str_def id_ok_def split: json.splits)

lemma check_type_bool: "check_type X v ''bool'' \<longleftrightarrow> (\<exists>b. v = JBool b)"
  by (subst check_type.simps) (auto simp: strip_suffix_def split: json.splits)

lemma check_type_version: "check_type X v ''3.0'' \<longleftrightarrow> v = JStr ''3.0''"
  by (subst check_type.simps) (auto simp: strip_suffix_def)

lemmas check_type_specs = check_type_uuid check_type_b32 check_type_b64 check_type_u32 check_type_int
  check_type_object check_type_array check_type_uuids

lemma check_type_nullable:
  "check_type X v (t @ ''?'') \<longleftrightarrow> v = JNull \<or> check_type X v t"
  by (subst check_type.simps) (simp add: strip_suffix_def)

text \<open>
  The typing judgement of the schema language, one rule per form of a type: \<open>t?\<close> is nullable
  and \<open>t[]\<close> is a list; the names are strings (no NUL, composed), canonical version 4 identifiers,
  32-bit and JavaScript integers, booleans, objects, arrays and the protocol version; \<open>bN\<close> is the one
  Base64URL spelling of N bytes; any other text lists the admitted words.
\<close>

definition byte_types :: "(string \<times> nat) list" where
  "byte_types = [(''b16'', 16), (''b24'', 24), (''b32'', 32), (''b48'', 48), (''b64'', 64)]"

definition plain_types :: "string list" where
  "plain_types = [''string'', ''uuid'', ''u32'', ''int'', ''bool'', ''object'', ''array'', ''3.0'']"

definition base_type :: "string \<Rightarrow> bool" where
  "base_type t \<longleftrightarrow> (\<forall>u. t \<noteq> u @ ''?'') \<and> (\<forall>u. t \<noteq> u @ ''[]'')"

inductive typed :: "ext \<Rightarrow> string \<Rightarrow> json \<Rightarrow> bool" for X where
  "typed X (t @ ''?'') JNull"
| "typed X t v \<Longrightarrow> typed X (t @ ''?'') v"
| "\<forall>x \<in> set xs. typed X t x \<Longrightarrow> typed X (t @ ''[]'') (JArr xs)"
| "CHR 0x00 \<notin> set w \<Longrightarrow> x_nfc X w = w \<Longrightarrow> typed X ''string'' (JStr w)"
| "x_uuid_parse X w = Some u \<Longrightarrow> x_uuid_v4 X u \<Longrightarrow> x_uuid_str X u = w \<Longrightarrow> typed X ''uuid'' (JStr w)"
| "n < 2 ^ 32 \<Longrightarrow> typed X ''u32'' (JInt (int n))"
| "n \<le> 2 ^ 53 - 1 \<Longrightarrow> typed X ''int'' (JInt (int n))"
| "typed X ''bool'' (JBool b)"
| "typed X ''object'' (JObj kvs)"
| "typed X ''array'' (JArr xs)"
| "typed X ''3.0'' (JStr ''3.0'')"
| "(t, n) \<in> set byte_types \<Longrightarrow> list_all b64_char w \<Longrightarrow> x_b64dec X w = Some b \<Longrightarrow> x_b64enc X b = w \<Longrightarrow> length b = n \<Longrightarrow>
   typed X t (JStr w)"
| "t = join ''|'' ws \<Longrightarrow> \<forall>u \<in> set ws. CHR ''|'' \<notin> set u \<Longrightarrow> w \<in> set ws \<Longrightarrow> base_type t \<Longrightarrow>
   t \<notin> set plain_types \<Longrightarrow> t \<notin> fst ` set byte_types \<Longrightarrow> typed X t (JStr w)"

lemma strip_suffix_Some: "strip_suffix p t = Some u \<longleftrightarrow> t = u @ p"
  by (auto simp: strip_suffix_def) (metis append_take_drop_id)

lemma strip_suffix_None: "strip_suffix p t = None \<longleftrightarrow> (\<forall>u. t \<noteq> u @ p)"
  using strip_suffix_Some [of p t] by (metis not_Some_eq)

lemma base_type_names: "t \<in> set plain_types \<union> fst ` set byte_types \<Longrightarrow> strip_suffix ''?'' t = None \<and> strip_suffix ''[]'' t = None"
  by (auto simp: plain_types_def byte_types_def strip_suffix_def)

lemma check_type_list:
  "check_type X v (t @ ''[]'') \<longleftrightarrow> (\<exists>xs. v = JArr xs \<and> (\<forall>x \<in> set xs. check_type X x t))"
  by (subst check_type.simps) (auto simp: strip_suffix_def as_array_def list_all_iff split: json.splits)

lemma parse_sizes:
  "(t, n) \<in> set byte_types \<Longrightarrow> parse_u64 (tl t) = Some n"
  by (auto simp: byte_types_def parse_u64_def strip_plus_def digits_val_def digit_val_def ascii_digit_def in_range_def)

lemma check_type_bytes:
  assumes "(t, n) \<in> set byte_types"
  shows "check_type X v t \<longleftrightarrow> (\<exists>w. v = JStr w \<and> decode X w (Some n) \<noteq> None)"
proof -
  have "strip_suffix ''?'' t = None" "strip_suffix ''[]'' t = None" using base_type_names [of t] assms by force+
  moreover have "t \<in> set [''b16'', ''b24'', ''b32'', ''b48'', ''b64'']" "t \<notin> set plain_types"
    using assms by (auto simp: byte_types_def plain_types_def)
  ultimately show ?thesis
    using parse_sizes [OF assms]
    by (subst check_type.simps) (auto simp: plain_types_def as_str_def split: json.splits)
qed

lemma check_type_words:
  assumes "base_type t" and "t \<notin> set plain_types" "t \<notin> fst ` set byte_types"
  shows "check_type X v t \<longleftrightarrow> (\<exists>w. v = JStr w \<and> w \<in> set (split_on CHR ''|'' t))"
proof -
  have "strip_suffix ''?'' t = None" "strip_suffix ''[]'' t = None"
    using assms(1) by (simp_all add: base_type_def strip_suffix_None)
  then show ?thesis
    using assms(2,3)
    by (subst check_type.simps) (auto simp: plain_types_def byte_types_def as_str_def list_ex_iff split: json.splits)
qed

lemma join_split_on: "join [d] (split_on d t) = t \<and> (\<forall>u \<in> set (split_on d t). d \<notin> set u)"
proof (induction t)
  case (Cons c t)
  obtain w ws where "split_on d t = w # ws" by (cases "split_on d t") simp_all
  with Cons show ?case by (cases ws) auto
qed simp

lemma typed_check_type: "typed X t v \<Longrightarrow> check_type X v t"
proof (induction rule: typed.induct)
  case (13 t ws w)
  then have "split_on CHR ''|'' t = ws" by (metis empty_iff list.set(1) split_on_join)
  with 13 show ?case by (simp add: check_type_words)
qed (auto simp: check_type_nullable check_type_list check_type_specs check_type_string check_type_bool check_type_version
    check_type_bytes decode_Some_iff uuid_def MAX_INTEGER_def is_object_def)

lemma typed_uuid: "uuid X w \<Longrightarrow> typed X ''uuid'' (JStr w)"
  unfolding uuid_def by (simp split: option.splits) (metis typed.intros(5))

lemma check_type_typed: "check_type X v t \<Longrightarrow> typed X t v"
proof (induction X v t rule: check_type.induct)
  case (1 X v t)
  consider (opt) u where "t = u @ ''?''" | (arr) u where "t = u @ ''[]''" | (plain) "t \<in> set plain_types"
    | (bytes) n where "(t, n) \<in> set byte_types"
    | (enum) "base_type t" "t \<notin> set plain_types" "t \<notin> fst ` set byte_types"
    by (force simp: base_type_def)
  then show ?case
  proof cases
    case opt
    with 1 show ?thesis by (auto simp: check_type_nullable strip_suffix_Some intro: typed.intros)
  next
    case arr
    then have "strip_suffix ''?'' t = None" "strip_suffix ''[]'' t = Some u" by (auto simp: strip_suffix_def)
    with 1 arr show ?thesis by (auto simp: check_type_list as_array_def intro: typed.intros)
  next
    case plain
    with 1(3) show ?thesis
      by (auto simp: plain_types_def check_type_specs check_type_string check_type_bool check_type_version is_object_def
          MAX_INTEGER_def split: json.splits
          intro: typed.intros(4) typed_uuid typed.intros(6,7) [simplified] typed.intros(8-11))
  next
    case bytes
    with 1(3) show ?thesis by (auto simp: check_type_bytes decode_Some_iff intro: typed.intros(12))
  next
    case enum
    with 1(3) join_split_on [of "CHR ''|''" t] show ?thesis
      by (auto simp: check_type_words intro: typed.intros(13) [of t "split_on CHR ''|'' t"])
  qed
qed

lemma check_type_iff: "check_type X v t \<longleftrightarrow> typed X t v"
  using typed_check_type check_type_typed by blast

lemma fields_Inr_iff:
  "fields X v required optional = Inr () \<longleftrightarrow>
     (\<exists>kvs. v = JObj kvs
        \<and> list_all (\<lambda>(k, t). \<exists>x. obj_get kvs k = Some x \<and> check_type X x t) required
        \<and> list_all (\<lambda>(k, x). \<exists>t. map_of (required @ optional) k = Some t \<and> check_type X x t) kvs)"
proof -
  have find_map_of: "find (\<lambda>(name, t). name = k) ps = map_option (Pair k) (map_of ps k)" for k and ps :: "(string \<times> string) list"
    by (induction ps) auto
  have "(case find (\<lambda>(name, t). name = k) (required @ optional) of None \<Rightarrow> Inl (err ''INVALID_FIELD'')
      | Some (name, t) \<Rightarrow> reject (\<not> check_type X x t) ''INVALID_FIELD'') = Inr () \<longleftrightarrow>
      (\<exists>t. map_of (required @ optional) k = Some t \<and> check_type X x t)" for k x
    unfolding find_map_of by (auto split: option.splits)
  then show ?thesis
    by (cases v) (auto simp: fields_def rall_Inr_iff list_all_iff split_beta split: option.splits)
qed

text \<open>
  C28: \<open>fields\<close> accepts exactly the objects that have every required member with its type and no
  member that is not declared, each declared member having the type of its first declaration, where
  having a type is the typing judgement above and not the code's own check.
\<close>

theorem fields_closed_schema:
  "fields X v required optional = Inr () \<longleftrightarrow>
     (\<exists>kvs. v = JObj kvs
        \<and> list_all (\<lambda>(k, t). \<exists>x. obj_get kvs k = Some x \<and> typed X t x) required
        \<and> list_all (\<lambda>(k, x). \<exists>t. map_of (required @ optional) k = Some t \<and> typed X t x) kvs)"
  by (simp add: fields_Inr_iff check_type_iff)

subsection \<open>Local artifacts\<close>

text \<open>The reference: an artifact object occurs somewhere in the value.\<close>

fun has_artifact :: "json \<Rightarrow> bool" where
  "has_artifact (JObj kvs) = (artifact_object kvs \<or> (\<exists>p \<in> set kvs. has_artifact (snd p)))"
| "has_artifact (JArr xs) = (\<exists>x \<in> set xs. has_artifact x)"
| "has_artifact v = False"

lemma reject_loop_iff:
  "reject_loop vs = (if list_ex has_artifact vs then Inl (err ''INVALID_FIELD'') else Inr ())"
proof (induction vs rule: reject_loop.induct)
  case (2 v pending)
  then show ?case by (cases v) (auto simp: list_ex_iff)
qed simp

text \<open>
  C25: the worklist loop terminates on every document and rejects exactly the documents that
  hold a reserved recovery object, or an object with both a mnemonic and a passphrase, at any depth.
\<close>

theorem reject_local_artifacts_iff:
  "reject_local_artifacts v = (if has_artifact v then Inl (err ''INVALID_FIELD'') else Inr ())"
  by (simp add: reject_local_artifacts_def reject_loop_iff)

subsection \<open>Validated objects\<close>

lemma signed_fields:
  assumes "signed X v required = Inr ()"
  shows "fields X v (required @ [(''signature'', ''b64'')]) [(''ext'', ''object'')] = Inr ()" and "\<not> has_artifact v"
  using assms by (auto simp: signed_def reject_local_artifacts_iff split: if_splits)

lemma signed_member:
  assumes "signed X v required = Inr ()" and "map_of required k = Some t"
  shows "\<exists>x. jfind v k = Some x \<and> jget v k = x \<and> check_type X x t"
proof -
  from assms(2) have "(k, t) \<in> set required" by (rule map_of_SomeD)
  with signed_fields(1) [OF assms(1)] show ?thesis
    by (fastforce simp: fields_Inr_iff list_all_iff jfind_def jget_def)
qed

lemma signed_is_object: "signed X v required = Inr () \<Longrightarrow> is_object v"
  using signed_fields(1) [of X v required] by (auto simp: fields_Inr_iff is_object_def)

lemma windows2_any_iff:
  "\<not> windows2_any (\<lambda>x y. opt_str_ge (as_str x) (as_str y)) (map JStr ids) \<longleftrightarrow> sorted_wrt (<) ids"
proof (induction ids)
  case (Cons a ids)
  show ?case
  proof (cases ids)
    case (Cons b cs)
    with Cons.IH show ?thesis
      by (auto simp: opt_str_ge_def as_str_def not_le dest: less_trans)
  qed simp
qed simp

text \<open>
  A validated epoch names between 1 and 128 members and a list of revoked devices, both
  strictly sorted lists of UUIDs, and no member is revoked; its first epoch, and only that, has no
  predecessor hash, and it is signed by the administrator exactly when it names no device signer.
\<close>

theorem validate_epoch_members:
  assumes "validate X v SEpoch = Inr ()"
  shows "\<exists>ms rs. a_of v ''members'' = map JStr ms \<and> a_of v ''revoked_device_ids'' = map JStr rs
    \<and> sorted_wrt (<) ms \<and> sorted_wrt (<) rs \<and> set ms \<inter> set rs = {}
    \<and> ms \<noteq> [] \<and> length ms \<le> 128 \<and> list_all (uuid X) ms \<and> list_all (uuid X) rs
    \<and> (n_of v ''epoch'' = 0 \<longleftrightarrow> jget v ''previous_epoch_hash'' = JNull)
    \<and> (s_of v ''signer_kind'' = ''admin'' \<longleftrightarrow> jget v ''signer_device_id'' = JNull)
    \<and> n_of v ''epoch'' < 2 ^ 32"
proof -
  let ?req = "[(''chain_id'', ''b32''), (''generation'', ''u32''), (''epoch'', ''u32''), (''previous_epoch_hash'', ''b32?''),
        (''epoch_commitment'', ''b32''),
        (''reason'', ''genesis|scheduled|manual|device_revocation|key_rotation|reseed|emergency''),
        (''signer_kind'', ''admin|device''), (''signer_device_id'', ''uuid?''), (''members'', ''uuid[]''),
        (''revoked_device_ids'', ''uuid[]''), (''recovery_envelope_hash'', ''b32'')]"
  from assms have sg: "signed X v ?req = Inr ()" and rest: "signer v = Inr ()"
      "a_of v ''members'' \<noteq> []" "length (a_of v ''members'') \<le> 128"
      "(n_of v ''epoch'' = 0) = (jget v ''previous_epoch_hash'' = JNull)"
      "\<not> windows2_any (\<lambda>x y. opt_str_ge (as_str x) (as_str y)) (a_of v ''members'')"
      "\<not> windows2_any (\<lambda>x y. opt_str_ge (as_str x) (as_str y)) (a_of v ''revoked_device_ids'')"
      "\<not> list_ex (\<lambda>i. i \<in> set (a_of v ''revoked_device_ids'')) (a_of v ''members'')"
    by (simp_all add: validate_epoch_def)
  from signed_member [OF sg, of "''members''"] obtain ms where
    ms: "a_of v ''members'' = map JStr ms" "list_all (uuid X) ms"
    by (auto simp: check_type_uuids a_of_def as_array_def list_all_iff)
  from signed_member [OF sg, of "''revoked_device_ids''"] obtain rs where
    rs: "a_of v ''revoked_device_ids'' = map JStr rs" "list_all (uuid X) rs"
    by (auto simp: check_type_uuids a_of_def as_array_def list_all_iff)
  from signed_member [OF sg, of "''epoch''"] have ep: "n_of v ''epoch'' < 2 ^ 32"
    by (auto simp: check_type_u32 n_of_def as_u64_def)
  from rest ms rs have "set ms \<inter> set rs = {}" "ms \<noteq> []" "length ms \<le> 128" "sorted_wrt (<) ms" "sorted_wrt (<) rs"
    by (auto simp: list_ex_iff windows2_any_iff)
  with ms rs rest(1,4) ep show ?thesis by (auto simp: signer_def)
qed


text \<open>A small epoch that the demonstration instance accepts.\<close>

definition demo_b32 :: string where "demo_b32 = ''K''"
definition demo_b64 :: string where "demo_b64 = ''S''"

definition demo_epoch :: json where
  "demo_epoch = jobj [(''chain_id'', JStr demo_b32), (''generation'', JInt 0), (''epoch'', JInt 0),
     (''previous_epoch_hash'', JNull), (''epoch_commitment'', JStr demo_b32), (''reason'', JStr ''genesis''),
     (''signer_kind'', JStr ''admin''), (''signer_device_id'', JNull), (''members'', JArr [JStr ''141'', JStr ''142'']),
     (''revoked_device_ids'', JArr [JStr ''143'']), (''recovery_envelope_hash'', JStr demo_b32),
     (''signature'', JStr demo_b64)]"

theorem validate_epoch_members_witness:
  "validate demo_fast demo_epoch SEpoch = Inr () \<and>
   (\<exists>ms. a_of demo_epoch ''members'' = map JStr ms \<and> sorted_wrt (<) ms)"
proof -
  have "validate demo_fast demo_epoch SEpoch = Inr ()" by code_simp
  with validate_epoch_members [OF this] show ?thesis by blast
qed

subsection \<open>The canonical query is a normal form\<close>

lemma hex_val_hex_upper [simp]: "n < 16 \<Longrightarrow> hex_val (hex_upper n) = Some n"
proof -
  assume "n < 16"
  then have "n \<in> set [0..<16]" by simp
  then show ?thesis
    by (auto simp: upt_rec hex_val_def hex_upper_def ascii_digit_def in_range_def)
qed

lemma hex_upper_not_plus: "n < 16 \<Longrightarrow> hex_upper n \<noteq> CHR ''+''"
proof
  assume n: "n < 16" and "hex_upper n = CHR ''+''"
  then have "Some n = hex_val (CHR ''+'')" using hex_val_hex_upper [OF n] by simp
  then show False by (simp add: hex_val_def ascii_digit_def in_range_def)
qed

lemma hex_byte: fixes c :: char shows "of_char c div 16 < (16 :: nat)" "of_char c mod 16 < (16 :: nat)"
proof -
  have "of_char c < (16 * 16 :: nat)" using nat_of_char_less_256 [of c] by simp
  then show "of_char c div 16 < (16 :: nat)" by (rule less_mult_imp_div_less)
qed simp

lemma unreserved_not_special: "unreserved c \<Longrightarrow> c \<noteq> CHR ''%'' \<and> c \<noteq> CHR ''&'' \<and> c \<noteq> CHR ''=''"
  by (auto simp: unreserved_def ascii_alnum_def ascii_digit_def ascii_lower_def ascii_upper_def in_range_def)

lemma pct_pct_char: "pct (pct_char c @ rest) = rbind (pct rest) (\<lambda>out. Inr (pct_char c @ out))"
proof (cases "unreserved c")
  case True
  then show ?thesis using unreserved_not_special [OF True] by (simp add: pct_char_def)
next
  case False
  let ?h = "of_char c div (16 :: nat)" and ?l = "of_char c mod (16 :: nat)"
  have "from_hex2 (hex_upper ?h) (hex_upper ?l) = Some (16 * ?h + ?l)"
    using hex_byte [of c] by (simp add: from_hex2_def hex_upper_not_plus)
  also have "16 * ?h + ?l = of_char c" by simp
  finally show ?thesis using False by (simp add: pct_char_def)
qed

lemma pct_step:
  assumes "pct (b # bs) = Inr y"
  obtains c rest out where "pct rest = Inr out" "y = pct_char c @ out" "length rest \<le> length bs"
proof (cases "b = CHR ''%''")
  case False
  with assms obtain out where "pct bs = Inr out" "y = pct_char b @ out" by auto
  then show ?thesis using that by blast
next
  case True
  with assms have "\<exists>c d rest v out. bs = c # d # rest \<and> pct rest = Inr out \<and> y = pct_char (char_of (v :: nat)) @ out"
    by (auto split: list.splits option.splits)
  then obtain c d rest v out where "bs = c # d # rest" "pct rest = Inr out" "y = pct_char (char_of (v :: nat)) @ out"
    by blast
  then show ?thesis using that [of rest out "char_of v"] by simp
qed

lemma pct_induct:
  assumes "pct x = Inr y" and "P []" and "\<And>c out. pct out = Inr out \<Longrightarrow> P out \<Longrightarrow> P (pct_char c @ out)"
  shows "P y \<and> pct y = Inr y"
  using assms(1)
proof (induction x arbitrary: y rule: length_induct)
  case (1 x)
  show ?case
  proof (cases x)
    case Nil
    with 1 assms(2) show ?thesis by simp
  next
    case (Cons b bs)
    with "1.prems" obtain c rest out where out: "pct rest = Inr out" "y = pct_char c @ out" "length rest \<le> length bs"
      using pct_step by metis
    with "1.IH" Cons have "P out \<and> pct out = Inr out" by (metis le_imp_less_Suc length_Cons)
    with out assms(3) show ?thesis by (simp add: pct_pct_char)
  qed
qed

lemma pct_idem: "pct x = Inr y \<Longrightarrow> pct y = Inr y"
  using pct_induct [of x y "\<lambda>_. True"] by simp

lemma hex_upper_alnum: "n < 16 \<Longrightarrow> ascii_alnum (hex_upper n)"
proof -
  assume "n < 16"
  then have "n \<in> set [0..<16]" by simp
  then show ?thesis
    by (auto simp: upt_rec hex_upper_def ascii_alnum_def ascii_digit_def ascii_upper_def in_range_def)
qed

lemma pct_char_clean: "CHR ''&'' \<notin> set (pct_char c) \<and> CHR ''='' \<notin> set (pct_char c)"
proof -
  have "n < 16 \<Longrightarrow> hex_upper n \<noteq> CHR ''&'' \<and> hex_upper n \<noteq> CHR ''=''" for n
    using hex_upper_alnum [of n] unreserved_not_special [of "hex_upper n"] by (auto simp: unreserved_def)
  then have "hex_upper (of_char c div 16) \<notin> {CHR ''&'', CHR ''=''}" "hex_upper (of_char c mod 16) \<notin> {CHR ''&'', CHR ''=''}"
    using hex_byte [of c] by simp_all
  then show ?thesis using unreserved_not_special [of c] by (simp add: pct_char_def) metis
qed

lemma pct_clean: "pct x = Inr y \<Longrightarrow> CHR ''&'' \<notin> set y \<and> CHR ''='' \<notin> set y"
  using pct_induct [of x y "\<lambda>y. CHR ''&'' \<notin> set y \<and> CHR ''='' \<notin> set y"] by (simp add: pct_char_clean)

definition normal_pair :: "string \<times> string \<Rightarrow> bool" where
  "normal_pair p \<longleftrightarrow> pct (fst p) = Inr (fst p) \<and> pct (snd p) = Inr (snd p)"

lemma query_pair_normal: "query_pair p = Inr kv \<Longrightarrow> normal_pair kv"
  by (auto simp: query_pair_def normal_pair_def pct_idem Let_def split: prod.splits)

lemma query_pair_print:
  assumes "normal_pair (k, v)"
  shows "query_pair (k @ ''='' @ v) = Inr (k, v)"
proof -
  from assms have "CHR ''='' \<notin> set k" using pct_clean [of k k] by (simp add: normal_pair_def)
  with assms show ?thesis
    by (simp add: query_pair_def normal_pair_def split_once_append)
qed

lemma rfold_collect:
  "rfold (\<lambda>p out. rbind (f p) (\<lambda>kv. Inr (out @ [kv]))) ps acc = Inr out \<longleftrightarrow>
   (\<exists>kvs. out = acc @ kvs \<and> list_all2 (\<lambda>p kv. f p = Inr kv) ps kvs)"
proof (induction ps arbitrary: acc)
  case (Cons p ps)
  then show ?case by (auto simp: list_all2_Cons1)
qed auto

lemma canonical_query_Inr:
  "raw \<noteq> [] \<Longrightarrow> canonical_query raw = Inr q \<longleftrightarrow>
   (\<exists>kvs. list_all2 (\<lambda>p kv. query_pair p = Inr kv) (split_on CHR ''&'' raw) kvs \<and> q = sort kvs
      \<and> \<not> windows2_any (\<lambda>x y. fst x = fst y) q)"
  by (auto simp: canonical_query_def rfold_collect Let_def)

text \<open>
  C26: the canonical query is a normal form: printing it and canonicalising the text again gives the
  same pairs, so the token's bound query and the request's query are compared up to encoding only.
\<close>

theorem canonical_query_normal_form:
  assumes "canonical_query raw = Inr q"
  shows "canonical_query (query_string q) = Inr q"
proof (cases "raw = []")
  case True
  with assms show ?thesis by (simp add: canonical_query_def query_string_def)
next
  case False
  with assms obtain kvs where kvs: "list_all2 (\<lambda>p kv. query_pair p = Inr kv) (split_on CHR ''&'' raw) kvs"
    and q: "q = sort kvs" and dis: "\<not> windows2_any (\<lambda>x y. fst x = fst y) q"
    by (auto simp: canonical_query_Inr)
  have "kvs \<noteq> []" using kvs by (metis list_all2_Nil2 split_on_nonempty)
  then have ne: "q \<noteq> []" using q by (metis set_empty set_sort)
  have "\<forall>kv \<in> set kvs. normal_pair kv"
    using kvs by (induction rule: list_all2_induct) (auto dest: query_pair_normal)
  then have normal: "\<forall>kv \<in> set q. normal_pair kv" using q by simp
  let ?txt = "\<lambda>(k, v). k @ ''='' @ v"
  have clean: "\<forall>w \<in> set (map ?txt q). CHR ''&'' \<notin> set w"
  proof
    fix w assume "w \<in> set (map ?txt q)"
    then obtain k v where kv: "(k, v) \<in> set q" and w: "w = k @ ''='' @ v" by auto
    from kv normal have "pct k = Inr k" "pct v = Inr v" by (auto simp: normal_pair_def)
    then show "CHR ''&'' \<notin> set w" using pct_clean [of k k] pct_clean [of v v] w by simp
  qed
  have split: "split_on CHR ''&'' (query_string q) = map ?txt q"
    unfolding query_string_def using ne clean by (intro split_on_join) simp_all
  have "list_all2 (\<lambda>p kv. query_pair p = Inr kv) (map ?txt q) q"
    using normal
  proof (induction q)
    case (Cons kv q)
    then show ?case using query_pair_print [of "fst kv" "snd kv"] by (simp add: split_beta)
  qed simp
  moreover have "q = sort q" using q by (simp add: sorted_sort_id)
  moreover have "query_string q \<noteq> []"
    unfolding query_string_def using ne by (intro join_nonempty) auto
  ultimately show ?thesis using dis split canonical_query_Inr by metis
qed

theorem canonical_query_normal_form_witness:
  "canonical_query ''b=%7e&a=x%2f'' = Inr [(''a'', ''x%2F''), (''b'', ''~'')] \<and>
   canonical_query (query_string [(''a'', ''x%2F''), (''b'', ''~'')]) = Inr [(''a'', ''x%2F''), (''b'', ''~'')]"
proof -
  have "canonical_query ''b=%7e&a=x%2f'' = Inr [(''a'', ''x%2F''), (''b'', ''~'')]" by code_simp
  with canonical_query_normal_form [OF this] show ?thesis by blast
qed

text \<open>
  A percent escape may carry a plus sign where its first hexadecimal digit belongs: the text
  \<^verbatim>\<open>%+a\<close> is accepted as the byte 10, which the protocol document does not allow.
\<close>

theorem pct_accepts_plus_sign: "pct ''%+a'' = Inr ''%0A'' \<and> pct ''%0A'' = Inr ''%0A''"
  by code_simp

end
