(* ===== verification/Relay_Db.thy ===== *)
theory Relay_Db
  imports Relay_Wire
begin

text \<open>
  The database of the relay (\<^verbatim>\<open>src/db/schema.sql\<close>) as a record of tables, each a list of rows in
  insertion order, the statements the source runs on them, and the relay's configuration. A column
  of JSON text holds the JSON value: the source writes \<^verbatim>\<open>text(v)\<close> and reads \<^verbatim>\<open>value(..)\<close> back, and
  only the byte length of the text is observed (\<open>x_jcs\<close>). The clock and the source of random
  identifiers are read through counters that are part of the state and survive a rollback.
\<close>

subsection \<open>Configuration\<close>

record config =
  cfg_key :: bytes
  cfg_origin :: string
  cfg_key_id :: string
  cfg_privacy :: json
  cfg_markdown :: bytes
  cfg_max_bytes :: "nat option"
  cfg_shutdown_at_ms :: "nat option"
  cfg_migration_origin :: "string option"
  cfg_stop_writes :: bool

subsection \<open>Rows\<close>

record chain =
  ch_id :: string
  ch_parameters :: json
  ch_epoch :: json
  ch_log_id :: string
  ch_head_seq :: nat
  ch_head_hash :: string
  ch_min_available_seq :: nat
  ch_boundary_compaction_id :: "string option"
  ch_transparency_id :: string
  ch_transparency_index :: nat
  ch_transparency_hash :: string
  ch_writable :: bool
  ch_notice_id :: string

record object_row =
  o_chain :: string
  o_kind :: string
  o_id :: string
  o_hash :: string
  o_body :: "json option"
  o_log :: "string option"
  o_seq :: "nat option"

record registry_row =
  g_chain :: string
  g_device :: string
  g_generation :: nat
  g_status :: string
  g_enrolled :: nat
  g_revoked :: "nat option"

record log_row =
  l_chain :: string
  l_log :: string
  l_seq :: nat
  l_entry :: "json option"
  l_hash :: string

record receipt_row =
  r_chain :: string
  r_kind :: string
  r_id :: string
  r_log :: string
  r_seq :: "nat option"
  r_receipt :: json

record transparency_row =
  t_chain :: string
  t_id :: string
  t_idx :: nat
  t_entry :: json
  t_hash :: string

record head_row =
  hd_chain :: string
  hd_id :: string
  hd_idx :: nat
  hd_head :: json

record nonce_row =
  n_chain :: string
  n_kind :: string
  n_device :: string
  n_nonce :: string
  n_expires :: nat

record outcome_row =
  u_chain :: string
  u_scope :: string
  u_id :: string
  u_digest :: string
  u_response :: json

record offer_row =
  f_chain :: string
  f_id :: string
  f_offer :: json
  f_request :: "json option"
  f_status :: string
  f_updated :: nat

record cursor_row =
  k_cursor :: string
  k_chain :: string
  k_binding :: string
  k_state :: json
  k_expires :: nat

record rate_row =
  q_scope :: string
  q_identity :: string
  q_tokens :: rat
  q_updated :: nat

record deletion_row =
  d_chain :: string
  d_device :: "string option"
  d_admin_key :: string
  d_device_key :: "string option"
  d_proof :: json
  d_outcome :: json
  d_request_hash :: string

record import_row =
  im_chain :: string
  im_log :: string
  im_parameters :: json
  im_epoch :: json

record payload_nonce_row =
  pn_chain :: string
  pn_epoch :: nat
  pn_nonce :: string
  pn_record :: string

record handoff_row =
  hf_chain :: string
  hf_epoch :: nat
  hf_compaction :: string
  hf_due :: nat
  hf_expired :: bool

record delete_version_row =
  v_chain :: string
  v_receipt_hash :: string
  v_proof :: json

record notice_row =
  nt_chain :: string
  nt_notice :: json

record operator_row =
  op_origin :: string
  op_key_id :: string
  op_revision :: nat
  op_disclosure :: string

record db =
  db_chains :: "chain list"
  db_objects :: "object_row list"
  db_registry :: "registry_row list"
  db_log :: "log_row list"
  db_receipts :: "receipt_row list"
  db_transparency :: "transparency_row list"
  db_heads :: "head_row list"
  db_nonces :: "nonce_row list"
  db_outcomes :: "outcome_row list"
  db_offers :: "offer_row list"
  db_cursors :: "cursor_row list"
  db_rates :: "rate_row list"
  db_deletions :: "deletion_row list"
  db_imports :: "import_row list"
  db_payload_nonces :: "payload_nonce_row list"
  db_handoffs :: "handoff_row list"
  db_delete_versions :: "delete_version_row list"
  db_barrier :: "nat option"
  db_operator :: "operator_row option"
  db_notices :: "notice_row list"
  db_registry_history :: "(nat \<times> registry_row) list"
  db_registry_seq :: nat
  db_offer_history :: "(nat \<times> offer_row) list"
  db_offer_seq :: nat
  db_tick :: nat
  db_ids :: nat

definition empty_db :: db where
  "empty_db = \<lparr>db_chains = [], db_objects = [], db_registry = [], db_log = [], db_receipts = [],
     db_transparency = [], db_heads = [], db_nonces = [], db_outcomes = [], db_offers = [], db_cursors = [],
     db_rates = [], db_deletions = [], db_imports = [], db_payload_nonces = [], db_handoffs = [],
     db_delete_versions = [], db_barrier = None, db_operator = None, db_notices = [], db_registry_history = [],
     db_registry_seq = 0, db_offer_history = [], db_offer_seq = 0, db_tick = 0, db_ids = 0\<rparr>"

type_synonym 'a tx = "(db, 'a) M"

subsection \<open>Statements\<close>

text \<open>
  A table is given by its selector and its update function. \<open>clash r r'\<close> holds when the new row
  \<open>r\<close> and the stored row \<open>r'\<close> collide under the primary key or a unique index: then \<^verbatim>\<open>INSERT\<close>
  fails, \<^verbatim>\<open>INSERT OR IGNORE\<close> does nothing (and reports that), and \<^verbatim>\<open>ON CONFLICT DO UPDATE\<close> replaces.
\<close>

definition select_opt :: "('s \<Rightarrow> 'r list) \<Rightarrow> ('r \<Rightarrow> bool) \<Rightarrow> ('s, 'r option) M" where
  "select_opt sel p = gets (\<lambda>st. find p (sel st))"

definition select_all :: "('s \<Rightarrow> 'r list) \<Rightarrow> ('r \<Rightarrow> bool) \<Rightarrow> ('s, 'r list) M" where
  "select_all sel p = gets (\<lambda>st. filter p (sel st))"

text \<open>\<^verbatim>\<open>fetch_one\<close>: a missing row is an SQL error.\<close>

definition select_one :: "('s \<Rightarrow> 'r list) \<Rightarrow> ('r \<Rightarrow> bool) \<Rightarrow> ('s, 'r) M" where
  "select_one sel p = (\<lambda>st. case find p (sel st) of None \<Rightarrow> (Inl sql_error, st) | Some r \<Rightarrow> (Inr r, st))"

definition count_rows :: "('s \<Rightarrow> 'r list) \<Rightarrow> ('r \<Rightarrow> bool) \<Rightarrow> ('s, nat) M" where
  "count_rows sel p = gets (\<lambda>st. length (filter p (sel st)))"

definition insert_row ::
    "('s \<Rightarrow> 'r list) \<Rightarrow> (('r list \<Rightarrow> 'r list) \<Rightarrow> 's \<Rightarrow> 's) \<Rightarrow> ('r \<Rightarrow> 'r \<Rightarrow> bool) \<Rightarrow> 'r \<Rightarrow> ('s, unit) M" where
  "insert_row sel upd clash r =
     (\<lambda>st. if list_ex (clash r) (sel st) then (Inl sql_error, st) else (Inr (), upd (\<lambda>rows. rows @ [r]) st))"

definition insert_ignore ::
    "('s \<Rightarrow> 'r list) \<Rightarrow> (('r list \<Rightarrow> 'r list) \<Rightarrow> 's \<Rightarrow> 's) \<Rightarrow> ('r \<Rightarrow> 'r \<Rightarrow> bool) \<Rightarrow> 'r \<Rightarrow> ('s, bool) M" where
  "insert_ignore sel upd clash r =
     (\<lambda>st. if list_ex (clash r) (sel st) then (Inr False, st) else (Inr True, upd (\<lambda>rows. rows @ [r]) st))"

definition upsert_row ::
    "('s \<Rightarrow> 'r list) \<Rightarrow> (('r list \<Rightarrow> 'r list) \<Rightarrow> 's \<Rightarrow> 's) \<Rightarrow> ('r \<Rightarrow> 'r \<Rightarrow> bool) \<Rightarrow> 'r \<Rightarrow> ('s, unit) M" where
  "upsert_row sel upd clash r =
     (\<lambda>st. if list_ex (clash r) (sel st)
           then (Inr (), upd (map (\<lambda>r'. if clash r r' then r else r')) st)
           else (Inr (), upd (\<lambda>rows. rows @ [r]) st))"

definition update_rows ::
    "(('r list \<Rightarrow> 'r list) \<Rightarrow> 's \<Rightarrow> 's) \<Rightarrow> ('r \<Rightarrow> bool) \<Rightarrow> ('r \<Rightarrow> 'r) \<Rightarrow> ('s, unit) M" where
  "update_rows upd p f = modify (upd (map (\<lambda>r. if p r then f r else r)))"

definition delete_rows ::
    "(('r list \<Rightarrow> 'r list) \<Rightarrow> 's \<Rightarrow> 's) \<Rightarrow> ('r \<Rightarrow> bool) \<Rightarrow> ('s, unit) M" where
  "delete_rows upd p = modify (upd (filter (\<lambda>r. \<not> p r)))"

text \<open>
  The triggers of the registry and of the offers add each row written to a history table, under the
  next number of its \<^verbatim>\<open>AUTOINCREMENT\<close> key (\<^verbatim>\<open>db_registry_seq\<close>, \<^verbatim>\<open>db_offer_seq\<close>: the last number
  given out, which a deletion does not set back).
\<close>

definition numbered :: "nat \<Rightarrow> 'r list \<Rightarrow> (nat \<times> 'r) list" where
  "numbered n rows = zip [Suc n..<Suc n + length rows] rows"

definition registry_trigger :: "registry_row list \<Rightarrow> unit tx" where
  "registry_trigger rows = modify (\<lambda>st. st\<lparr>
     db_registry_history := db_registry_history st @ numbered (db_registry_seq st) rows,
     db_registry_seq := db_registry_seq st + length rows\<rparr>)"

definition offer_trigger :: "offer_row list \<Rightarrow> unit tx" where
  "offer_trigger rows = modify (\<lambda>st. st\<lparr>
     db_offer_history := db_offer_history st @ numbered (db_offer_seq st) rows,
     db_offer_seq := db_offer_seq st + length rows\<rparr>)"

subsection \<open>Clock and identifiers\<close>

definition now :: "ext \<Rightarrow> nat tx" where
  "now X = (\<lambda>st. (Inr (x_clock X (db_tick st)), st\<lparr>db_tick := db_tick st + 1\<rparr>))"

definition new_id :: "ext \<Rightarrow> string tx" where
  "new_id X = (\<lambda>st. (Inr (x_uuid_str X (x_fresh X (db_ids st))), st\<lparr>db_ids := db_ids st + 1\<rparr>))"

text \<open>The tables of \<open>st\<close> with the counters of \<open>st'\<close>: what a rollback to \<open>st\<close> leaves.\<close>

definition rollback_to :: "db \<Rightarrow> db \<Rightarrow> db" where
  "rollback_to st st' = st\<lparr>db_tick := db_tick st', db_ids := db_ids st'\<rparr>"

subsection \<open>Primary keys and unique indexes\<close>

definition object_key :: "object_row \<Rightarrow> string \<times> string \<times> string" where
  "object_key r = (o_chain r, o_kind r, o_id r)"

definition record_kind :: "string \<Rightarrow> bool" where
  "record_kind kind \<longleftrightarrow> kind = ''record'' \<or> kind = ''snapshot_part''"

definition object_clash :: "object_row \<Rightarrow> object_row \<Rightarrow> bool" where
  "object_clash r r' \<longleftrightarrow> object_key r = object_key r'
     \<or> (record_kind (o_kind r) \<and> record_kind (o_kind r') \<and> o_chain r = o_chain r' \<and> o_id r = o_id r')"

definition registry_key :: "registry_row \<Rightarrow> string \<times> string" where
  "registry_key r = (g_chain r, g_device r)"

definition log_key :: "log_row \<Rightarrow> string \<times> string \<times> nat" where
  "log_key r = (l_chain r, l_log r, l_seq r)"

definition receipt_key :: "receipt_row \<Rightarrow> string \<times> string \<times> string" where
  "receipt_key r = (r_chain r, r_kind r, r_id r)"

definition receipt_clash :: "receipt_row \<Rightarrow> receipt_row \<Rightarrow> bool" where
  "receipt_clash r r' \<longleftrightarrow> receipt_key r = receipt_key r'
     \<or> (r_seq r \<noteq> None \<and> r_chain r = r_chain r' \<and> r_log r = r_log r' \<and> r_seq r = r_seq r')"

definition transparency_key :: "transparency_row \<Rightarrow> string \<times> string \<times> nat" where
  "transparency_key r = (t_chain r, t_id r, t_idx r)"

definition head_key :: "head_row \<Rightarrow> string \<times> string \<times> nat" where
  "head_key r = (hd_chain r, hd_id r, hd_idx r)"

definition nonce_key :: "nonce_row \<Rightarrow> string \<times> string \<times> string \<times> string" where
  "nonce_key r = (n_chain r, n_kind r, n_device r, n_nonce r)"

definition outcome_key :: "outcome_row \<Rightarrow> string \<times> string \<times> string" where
  "outcome_key r = (u_chain r, u_scope r, u_id r)"

definition offer_key :: "offer_row \<Rightarrow> string \<times> string" where
  "offer_key r = (f_chain r, f_id r)"

definition rate_key :: "rate_row \<Rightarrow> string \<times> string" where
  "rate_key r = (q_scope r, q_identity r)"

definition payload_nonce_key :: "payload_nonce_row \<Rightarrow> string \<times> nat \<times> string" where
  "payload_nonce_key r = (pn_chain r, pn_epoch r, pn_nonce r)"

definition handoff_key :: "handoff_row \<Rightarrow> string \<times> nat" where
  "handoff_key r = (hf_chain r, hf_epoch r)"

definition delete_version_key :: "delete_version_row \<Rightarrow> string \<times> string" where
  "delete_version_key r = (v_chain r, v_receipt_hash r)"

text \<open>Two rows with the same primary key.\<close>

definition same :: "('r \<Rightarrow> 'k) \<Rightarrow> 'r \<Rightarrow> 'r \<Rightarrow> bool" where
  "same key r r' \<longleftrightarrow> key r = key r'"


subsection \<open>What the statements do\<close>

lemma wp_select [simp, wp_rules]:
  "wp (select_opt sel p) Q E st = Q (find p (sel st)) st"
  "wp (select_all sel p) Q' E st = Q' (filter p (sel st)) st"
  "wp (count_rows sel p) Q'' E st = Q'' (length (filter p (sel st))) st"
  by (simp_all add: select_opt_def select_all_def count_rows_def)

lemma wp_select_one [simp, wp_rules]:
  "wp (select_one sel p) Q E st = (case find p (sel st) of None \<Rightarrow> E sql_error st | Some r \<Rightarrow> Q r st)"
  by (simp add: select_one_def wp_def split: option.splits)

lemma wp_insert_row [simp, wp_rules]:
  "wp (insert_row sel upd clash r) Q E st =
     (if list_ex (clash r) (sel st) then E sql_error st else Q () (upd (\<lambda>rows. rows @ [r]) st))"
  by (simp add: insert_row_def wp_def)

lemma wp_insert_ignore [simp, wp_rules]:
  "wp (insert_ignore sel upd clash r) Q E st =
     (if list_ex (clash r) (sel st) then Q False st else Q True (upd (\<lambda>rows. rows @ [r]) st))"
  by (simp add: insert_ignore_def wp_def)

lemma wp_upsert_row [simp, wp_rules]:
  "wp (upsert_row sel upd clash r) Q E st =
     (if list_ex (clash r) (sel st) then Q () (upd (map (\<lambda>r'. if clash r r' then r else r')) st)
      else Q () (upd (\<lambda>rows. rows @ [r]) st))"
  by (simp add: upsert_row_def wp_def)

lemma wp_update_delete [simp, wp_rules]:
  "wp (update_rows upd p f) Q E st = Q () (upd (map (\<lambda>r. if p r then f r else r)) st)"
  "wp (delete_rows upd p) Q E st = Q () (upd (filter (\<lambda>r. \<not> p r)) st)"
  by (simp_all add: update_rows_def delete_rows_def)

lemma wp_counters [simp, wp_rules]:
  "wp (now X) Q E st = Q (x_clock X (db_tick st)) (st\<lparr>db_tick := db_tick st + 1\<rparr>)"
  "wp (new_id X) Q' E st = Q' (x_uuid_str X (x_fresh X (db_ids st))) (st\<lparr>db_ids := db_ids st + 1\<rparr>)"
  by (simp_all add: now_def new_id_def wp_def)

lemma read_only_select [intro, simp]:
  "read_only (select_opt sel p)" "read_only (select_all sel p)" "read_only (count_rows sel p)"
  "read_only (select_one sel p)"
  by (auto simp: select_opt_def select_all_def count_rows_def select_one_def read_only_def split: option.splits)

lemma run_select [simp]:
  "select_opt sel p st = (Inr (find p (sel st)), st)"
  "select_all sel p st = (Inr (filter p (sel st)), st)"
  "count_rows sel p st = (Inr (length (filter p (sel st))), st)"
  by (simp_all add: select_opt_def select_all_def count_rows_def)

lemma run_counters [simp]:
  "now X st = (Inr (x_clock X (db_tick st)), st\<lparr>db_tick := db_tick st + 1\<rparr>)"
  "new_id X st = (Inr (x_uuid_str X (x_fresh X (db_ids st))), st\<lparr>db_ids := db_ids st + 1\<rparr>)"
  by (simp_all add: now_def new_id_def)

subsection \<open>The interface of a keyed table\<close>

text \<open>The row under a key, and that no key occurs twice.\<close>

definition row_at :: "('r \<Rightarrow> 'k) \<Rightarrow> 'k \<Rightarrow> 'r list \<Rightarrow> 'r option" where
  "row_at key k rows = find (\<lambda>r. key r = k) rows"

definition keyed :: "('r \<Rightarrow> 'k) \<Rightarrow> 'r list \<Rightarrow> bool" where
  "keyed key rows \<longleftrightarrow> distinct (map key rows)"

lemma row_at_append: "row_at key k (rows @ [r]) =
    (case row_at key k rows of Some x \<Rightarrow> Some x | None \<Rightarrow> if key r = k then Some r else None)"
  by (induction rows) (auto simp: row_at_def)

lemma row_at_None_iff: "row_at key k rows = None \<longleftrightarrow> k \<notin> key ` set rows"
  by (auto simp: row_at_def find_None_iff)

lemma row_at_SomeD: "row_at key k rows = Some r \<Longrightarrow> r \<in> set rows \<and> key r = k"
  by (induction rows) (auto simp: row_at_def split: if_splits)

lemma row_at_map:
  "(\<And>r. key (f r) = key r) \<Longrightarrow> row_at key k (map f rows) = map_option f (row_at key k rows)"
  by (induction rows) (auto simp: row_at_def)

lemma keyed_row_at: "keyed key rows \<Longrightarrow> r \<in> set rows \<Longrightarrow> row_at key (key r) rows = Some r"
  by (induction rows) (auto simp: row_at_def keyed_def image_iff)

lemma row_at_upsert:
  "row_at key (key r) (if list_ex (same key r) rows then map (\<lambda>r'. if same key r r' then r else r') rows
     else rows @ [r]) = Some r"
proof (cases "list_ex (same key r) rows")
  case True
  have "list_ex (same key r) rs \<Longrightarrow> row_at key (key r) (map (\<lambda>r'. if same key r r' then r else r') rs) = Some r" for rs
    by (induction rs) (auto simp: same_def row_at_def)
  with True show ?thesis by simp
next
  case False
  then have "row_at key (key r) rows = None" by (auto simp: row_at_None_iff list_ex_iff same_def)
  with False show ?thesis by (simp add: row_at_append)
qed

text \<open>
  A table offers its rows and an update, and a collision test that covers at least the primary key.
  What follows is what every component relies on when it stores and looks up rows.
\<close>

locale keyed_table =
  fixes sel :: "'s \<Rightarrow> 'r list" and upd :: "('r list \<Rightarrow> 'r list) \<Rightarrow> 's \<Rightarrow> 's"
    and key :: "'r \<Rightarrow> 'k" and clash :: "'r \<Rightarrow> 'r \<Rightarrow> bool"
  assumes sel_upd: "sel (upd f st) = f (sel st)"
    and clash_key: "key r = key r' \<Longrightarrow> clash r r'"
begin

lemma fresh_key: "\<not> list_ex (clash r) rows \<Longrightarrow> row_at key (key r) rows = None"
  using clash_key by (auto simp: row_at_None_iff list_ex_iff)

lemma insert_lookup:
  assumes "insert_row sel upd clash r st = (Inr u, st')"
  shows "row_at key k (sel st') = (if k = key r then Some r else row_at key k (sel st))"
  using assms fresh_key [of r "sel st"]
  by (auto simp: insert_row_def sel_upd row_at_append split: if_splits option.splits)

lemma insert_keeps_rows:
  assumes "insert_row sel upd clash r st = (res, st')" and "row_at key k (sel st) = Some x"
  shows "row_at key k (sel st') = Some x"
  using assms by (auto simp: insert_row_def sel_upd row_at_append split: if_splits)

lemma insert_keyed:
  "keyed key (sel st) \<Longrightarrow> insert_row sel upd clash r st = (res, st') \<Longrightarrow> keyed key (sel st')"
  using fresh_key [of r "sel st"]
  by (auto simp: insert_row_def sel_upd keyed_def row_at_None_iff split: if_splits)

lemma insert_ignore_keyed:
  "keyed key (sel st) \<Longrightarrow> insert_ignore sel upd clash r st = (res, st') \<Longrightarrow> keyed key (sel st')"
  using fresh_key [of r "sel st"]
  by (auto simp: insert_ignore_def sel_upd keyed_def row_at_None_iff split: if_splits)

lemma insert_ignore_keeps_rows:
  assumes "insert_ignore sel upd clash r st = (res, st')" and "row_at key k (sel st) = Some x"
  shows "row_at key k (sel st') = Some x"
  using assms by (auto simp: insert_ignore_def sel_upd row_at_append split: if_splits)

lemma insert_ignore_present:
  assumes "insert_ignore sel upd clash r st = (Inr b, st')"
  shows "b \<longleftrightarrow> \<not> list_ex (clash r) (sel st)" and "\<not> b \<Longrightarrow> st' = st"
    and "b \<Longrightarrow> row_at key (key r) (sel st') = Some r"
  using assms fresh_key [of r "sel st"]
  by (auto simp: insert_ignore_def sel_upd row_at_append split: if_splits)

lemma insert_twice_fails:
  assumes "row_at key (key r) (sel st) \<noteq> None"
  shows "insert_row sel upd clash r st = (Inl sql_error, st)"
proof -
  have "list_ex (clash r) (sel st)" using fresh_key assms by (rule contrapos_np [rotated])
  then show ?thesis by (simp add: insert_row_def)
qed

end

interpretation objects: keyed_table db_objects db_objects_update object_key object_clash
  by unfold_locales (simp_all add: object_clash_def)

interpretation registry: keyed_table db_registry db_registry_update registry_key "same registry_key"
  by unfold_locales (simp_all add: same_def)

interpretation logs: keyed_table db_log db_log_update log_key "same log_key"
  by unfold_locales (simp_all add: same_def)

interpretation receipts: keyed_table db_receipts db_receipts_update receipt_key receipt_clash
  by unfold_locales (simp_all add: receipt_clash_def)

interpretation tlogs: keyed_table db_transparency db_transparency_update transparency_key "same transparency_key"
  by unfold_locales (simp_all add: same_def)

interpretation heads: keyed_table db_heads db_heads_update head_key "same head_key"
  by unfold_locales (simp_all add: same_def)

interpretation nonces: keyed_table db_nonces db_nonces_update nonce_key "same nonce_key"
  by unfold_locales (simp_all add: same_def)

interpretation outcomes: keyed_table db_outcomes db_outcomes_update outcome_key "same outcome_key"
  by unfold_locales (simp_all add: same_def)

interpretation payload_nonces:
  keyed_table db_payload_nonces db_payload_nonces_update payload_nonce_key "same payload_nonce_key"
  by unfold_locales (simp_all add: same_def)

interpretation cursors: keyed_table db_cursors db_cursors_update k_cursor "same k_cursor"
  by unfold_locales (simp_all add: same_def)

end
