(* ===== verification/Relay_Store.thy ===== *)
theory Relay_Store
  imports Relay_Db
begin

text \<open>
  \<^verbatim>\<open>src/api/store.rs\<close>: chains, objects, the data log, the transparency log, receipts, the quota and
  stored outcomes. A function that takes \<^verbatim>\<open>&mut Chain\<close> returns the updated chain.
\<close>

subsection \<open>Chains\<close>

definition CTX_LOG :: bytes where "CTX_LOG = ''PALLASYNC-LOG-v3'' @ [CHR 0x00]"
definition CTX_TLOG :: bytes where "CTX_TLOG = ''PALLASYNC-TRANSPARENCY-v3'' @ [CHR 0x00]"
definition CTX_TLINK :: bytes where "CTX_TLINK = ''PALLASYNC-TRANSPARENCY-LINK-v3'' @ [CHR 0x00]"

definition initial_hash :: "ext \<Rightarrow> bytes \<Rightarrow> string \<Rightarrow> string \<Rightarrow> string option \<Rightarrow> string res" where
  "initial_hash X ctx chain oid key =
     rbind (unwrap (decode X chain (Some 32))) (\<lambda>cb.
     rbind (unwrap (x_uuid_parse X oid)) (\<lambda>ib.
     rbind (case key of None \<Rightarrow> Inr [] | Some k \<Rightarrow> unwrap (decode X k (Some 32))) (\<lambda>kb.
     Inr (hash_bytes X (ctx @ cb @ ib @ kb)))))"

definition link_hash :: "ext \<Rightarrow> string \<Rightarrow> nat \<Rightarrow> json \<Rightarrow> bytes \<Rightarrow> string res" where
  "link_hash X prev index entry ctx =
     rbind (unwrap (decode X prev (Some 32))) (\<lambda>pb.
     rbind (unwrap (decode X (object_hash X entry) (Some 32))) (\<lambda>eb.
     Inr (x_b64enc X (x_sha256 X (ctx @ pb @ be64 index @ eb)))))"

definition chain_new :: "ext \<Rightarrow> config \<Rightarrow> json \<Rightarrow> json \<Rightarrow> string option \<Rightarrow> chain tx" where
  "chain_new X cfg parameters epoch log_id =
     (let chain_id = s_of parameters ''chain_id'' in
      bindM (case log_id of Some l \<Rightarrow> ret l | None \<Rightarrow> new_id X) (\<lambda>log.
      bindM (new_id X) (\<lambda>tid.
      bindM (lift (initial_hash X CTX_LOG chain_id log None)) (\<lambda>head_hash.
      bindM (lift (initial_hash X CTX_TLOG chain_id tid (Some (cfg_key_id cfg)))) (\<lambda>thash.
      bindM (new_id X) (\<lambda>notice.
      ret \<lparr>ch_id = chain_id, ch_parameters = parameters, ch_epoch = epoch, ch_log_id = log, ch_head_seq = 0,
           ch_head_hash = head_hash, ch_min_available_seq = 1, ch_boundary_compaction_id = None,
           ch_transparency_id = tid, ch_transparency_index = 0, ch_transparency_hash = thash,
           ch_writable = True, ch_notice_id = notice\<rparr>))))))"

definition generation :: "chain \<Rightarrow> nat" where
  "generation c = n_of (ch_parameters c) ''generation''"

definition parameters_hash :: "ext \<Rightarrow> chain \<Rightarrow> string" where
  "parameters_hash X c = object_hash X (ch_parameters c)"

definition epoch_hash :: "ext \<Rightarrow> chain \<Rightarrow> string" where
  "epoch_hash X c = object_hash X (ch_epoch c)"

definition chain_head :: "ext \<Rightarrow> chain \<Rightarrow> json" where
  "chain_head X c = jobj [(''log_id'', JStr (ch_log_id c)), (''generation'', JNat (generation c)),
     (''head_seq'', JNat (ch_head_seq c)), (''head_hash'', JStr (ch_head_hash c)),
     (''min_available_seq'', JNat (ch_min_available_seq c)), (''epoch_hash'', JStr (epoch_hash X c)),
     (''parameters_hash'', JStr (parameters_hash X c))]"

definition chain_result :: "ext \<Rightarrow> chain \<Rightarrow> json" where
  "chain_result X c = jobj [(''parameters_hash'', JStr (parameters_hash X c)), (''epoch_hash'', JStr (epoch_hash X c)),
     (''log_id'', JStr (ch_log_id c)), (''head_seq'', JNat (ch_head_seq c)), (''head_hash'', JStr (ch_head_hash c))]"

definition load :: "string \<Rightarrow> chain option tx" where
  "load chain = select_opt db_chains (\<lambda>c. ch_id c = chain)"

subsection \<open>Quota\<close>

definition text_len :: "ext \<Rightarrow> json \<Rightarrow> nat" where
  "text_len X v = length (canonicalize_json X v)"

text \<open>
  SQL's \<^verbatim>\<open>SUM\<close> over one column expression of the rows of a chain: a row whose expression is
  \<^verbatim>\<open>NULL\<close> does not count, and the sum of no rows is made 0 by \<^verbatim>\<open>COALESCE\<close>.
\<close>

definition sql_sum :: "('r \<Rightarrow> bool) \<Rightarrow> ('r \<Rightarrow> nat option) \<Rightarrow> 'r list \<Rightarrow> nat" where
  "sql_sum p f rows = sum_list (map (\<lambda>r. case f r of None \<Rightarrow> 0 | Some n \<Rightarrow> n) (filter p rows))"

definition used :: "ext \<Rightarrow> string \<Rightarrow> db \<Rightarrow> nat" where
  "used X chain st =
     sql_sum (\<lambda>r. o_chain r = chain)
       (\<lambda>r. map_option (\<lambda>b. text_len X b + length (o_id r) + length (o_hash r)) (o_body r)) (db_objects st)
   + sql_sum (\<lambda>r. l_chain r = chain) (\<lambda>r. map_option (\<lambda>e. text_len X e + length (l_hash r)) (l_entry r)) (db_log st)
   + sql_sum (\<lambda>r. r_chain r = chain) (\<lambda>r. Some (text_len X (r_receipt r))) (db_receipts st)
   + sql_sum (\<lambda>r. t_chain r = chain) (\<lambda>r. Some (text_len X (t_entry r) + length (t_hash r))) (db_transparency st)
   + sql_sum (\<lambda>r. hd_chain r = chain) (\<lambda>r. Some (text_len X (hd_head r))) (db_heads st)
   + sql_sum (\<lambda>r. u_chain r = chain) (\<lambda>r. Some (text_len X (u_response r))) (db_outcomes st)
   + sql_sum (\<lambda>r. k_chain r = chain) (\<lambda>r. Some (text_len X (k_state r))) (db_cursors st)
   + sql_sum (\<lambda>r. f_chain r = chain)
       (\<lambda>r. Some (text_len X (f_offer r) + (case f_request r of None \<Rightarrow> 0 | Some q \<Rightarrow> text_len X q))) (db_offers st)"

definition quota :: "ext \<Rightarrow> config \<Rightarrow> string \<Rightarrow> unit tx" where
  "quota X cfg chain =
     bindM (gets (used X chain)) (\<lambda>u.
     if (case cfg_max_bytes cfg of None \<Rightarrow> False | Some m \<Rightarrow> m < u)
     then lift (Inl (Err ''QUOTA_EXCEEDED''
            (Some (jobj [(''used_bytes'', JNat u), (''max_bytes'', jopt JNat (cfg_max_bytes cfg))]))))
     else ret ())"

definition save :: "ext \<Rightarrow> config \<Rightarrow> chain \<Rightarrow> unit tx" where
  "save X cfg c =
     bindM (upsert_row db_chains db_chains_update (same ch_id) c) (\<lambda>_.
     bindM (now X) (\<lambda>t.
     bindM (lift (ok_or ''INTERNAL_ERROR'' (sign_relay X (cfg_key cfg)
        (jobj [(''type'', JStr ''PALLASYNC-TRANSPARENCY-HEAD-v3''), (''version'', JStr ''3.0''),
          (''chain_id'', JStr (ch_id c)), (''log_id'', JStr (ch_log_id c)), (''relay_key_id'', JStr (cfg_key_id cfg)),
          (''transparency_id'', JStr (ch_transparency_id c)), (''entry_index'', JNat (ch_transparency_index c)),
          (''transparency_hash'', JStr (ch_transparency_hash c)), (''head_seq'', JNat (ch_head_seq c)),
          (''head_hash'', JStr (ch_head_hash c)), (''parameters_hash'', JStr (parameters_hash X c)),
          (''epoch_hash'', JStr (epoch_hash X c)), (''min_available_seq'', JNat (ch_min_available_seq c)),
          (''timestamp'', JNat t)]) CTX_HEAD))) (\<lambda>head.
     bindM (insert_ignore db_heads db_heads_update (same head_key)
        \<lparr>hd_chain = ch_id c, hd_id = ch_transparency_id c, hd_idx = ch_transparency_index c, hd_head = head\<rparr>) (\<lambda>_.
     quota X cfg (ch_id c)))))"

subsection \<open>Objects\<close>

definition object :: "string \<Rightarrow> string \<Rightarrow> string \<Rightarrow> json option tx" where
  "object c kind oid =
     bindM (select_opt db_objects (\<lambda>r. object_key r = (c, kind, oid))) (\<lambda>row.
     ret (case row of None \<Rightarrow> None | Some r \<Rightarrow> o_body r))"

definition object_digest :: "string \<Rightarrow> string \<Rightarrow> string \<Rightarrow> string option tx" where
  "object_digest c kind oid =
     bindM (select_opt db_objects (\<lambda>r. object_key r = (c, kind, oid))) (\<lambda>row. ret (map_option o_hash row))"

text \<open>\<open>None\<close> is the \<^verbatim>\<open>unreachable!\<close> arm.\<close>

definition object_id :: "json \<Rightarrow> string \<Rightarrow> string option" where
  "object_id v kind =
     (if kind = ''parameters'' then Some (show_nat (n_of v ''generation''))
      else if kind = ''epoch'' then Some (show_nat (n_of v ''epoch''))
      else if kind = ''device'' then Some (s_of v ''device_id'')
      else if kind = ''envelope'' then Some (s_of v ''envelope_id'')
      else if kind = ''compaction'' then Some (s_of v ''compaction_id'')
      else if kind = ''admin'' then Some (s_of v ''operation_id'')
      else if record_kind kind then Some (s_of v ''record_id'')
      else None)"

definition conflict :: "string \<Rightarrow> failure" where
  "conflict kind = err
     (if record_kind kind then ''RECORD_ID_CONFLICT''
      else if kind = ''device'' then ''DEVICE_ID_CONFLICT''
      else if kind = ''envelope'' then ''ENVELOPE_ID_CONFLICT''
      else if kind = ''admin'' then ''OPERATION_ID_CONFLICT''
      else ''IMPORT_CONFLICT'')"

definition put_object :: "ext \<Rightarrow> string \<Rightarrow> string \<Rightarrow> json \<Rightarrow> (string \<times> nat) option \<Rightarrow> bool tx" where
  "put_object X c kind v place =
     bindM (lift (unwrap (object_id v kind))) (\<lambda>oid.
     let digest = object_hash X v in
     bindM (object_digest c kind oid) (\<lambda>old.
     case old of
       Some d \<Rightarrow> if d \<noteq> digest then lift (Inl (conflict kind)) else ret False
     | None \<Rightarrow>
         bindM (if record_kind kind
                then bindM (object_digest c (if kind = ''record'' then ''snapshot_part'' else ''record'') oid) (\<lambda>other.
                     if other \<noteq> None then lift (Inl (conflict kind)) else ret ())
                else ret ()) (\<lambda>_.
         bindM (insert_row db_objects db_objects_update object_clash
            \<lparr>o_chain = c, o_kind = kind, o_id = oid, o_hash = digest, o_body = Some v,
             o_log = map_option fst place, o_seq = map_option snd place\<rparr>) (\<lambda>_.
         ret True))))"

subsection \<open>The transparency log\<close>

definition transparency ::
    "ext \<Rightarrow> config \<Rightarrow> chain \<Rightarrow> string \<Rightarrow> string \<Rightarrow> nat option \<Rightarrow> string option \<Rightarrow> (chain \<times> json \<times> string) tx" where
  "transparency X cfg c op digest seq code =
     bindM (rejectM (ch_transparency_index c \<ge> MAX_INTEGER) ''STORAGE_UNAVAILABLE'') (\<lambda>_.
     let i = ch_transparency_index c + 1 in
     bindM (now X) (\<lambda>t.
     bindM (lift (ok_or ''INTERNAL_ERROR'' (sign_relay X (cfg_key cfg)
        (jobj [(''type'', JStr ''PALLASYNC-TRANSPARENCY-ENTRY-v3''), (''version'', JStr ''3.0''),
          (''transparency_id'', JStr (ch_transparency_id c)), (''entry_index'', JNat i), (''chain_id'', JStr (ch_id c)),
          (''log_id'', JStr (ch_log_id c)), (''relay_key_id'', JStr (cfg_key_id cfg)), (''operation'', JStr op),
          (''object_hash'', JStr digest), (''relay_seq'', jopt JNat seq), (''resulting_head_hash'', JStr (ch_head_hash c)),
          (''previous_transparency_hash'', JStr (ch_transparency_hash c)), (''timestamp'', JNat t),
          (''code'', jopt JStr code)]) CTX_TRANSPARENCY))) (\<lambda>entry.
     bindM (lift (link_hash X (ch_transparency_hash c) i entry CTX_TLINK)) (\<lambda>hash.
     bindM (insert_row db_transparency db_transparency_update (same transparency_key)
        \<lparr>t_chain = ch_id c, t_id = ch_transparency_id c, t_idx = i, t_entry = entry, t_hash = hash\<rparr>) (\<lambda>_.
     ret (c\<lparr>ch_transparency_index := i, ch_transparency_hash := hash\<rparr>, entry, hash))))))"

definition publish_notice :: "ext \<Rightarrow> config \<Rightarrow> chain \<Rightarrow> chain tx" where
  "publish_notice X cfg c =
     bindM (select_opt db_notices (\<lambda>r. nt_chain r = ch_id c)) (\<lambda>existing.
     if (case existing of
           Some old \<Rightarrow> jget (nt_notice old) ''shutdown_at_ms'' = jopt JNat (cfg_shutdown_at_ms cfg)
                     \<and> jget (nt_notice old) ''migration_origin'' = jopt JStr (cfg_migration_origin cfg)
         | None \<Rightarrow> cfg_shutdown_at_ms cfg = None \<and> cfg_migration_origin cfg = None)
     then ret c
     else
       bindM (new_id X) (\<lambda>nid.
       bindM (now X) (\<lambda>t.
       let notice = jobj [(''shutdown_at_ms'', jopt JNat (cfg_shutdown_at_ms cfg)),
             (''migration_origin'', jopt JStr (cfg_migration_origin cfg)), (''notice_id'', JStr nid),
             (''server_time_ms'', JNat t)] in
       bindM (transparency X cfg c ''migrate'' (object_hash X notice) None None) (\<lambda>(c, _, _).
       bindM (upsert_row db_notices db_notices_update (same nt_chain)
          \<lparr>nt_chain = ch_id c, nt_notice = notice\<rparr>) (\<lambda>_.
       ret c)))))"

subsection \<open>Receipts and the data log\<close>

definition receipt :: "string \<Rightarrow> string \<Rightarrow> string \<Rightarrow> json tx" where
  "receipt c kind oid =
     bindM (select_one db_receipts (\<lambda>r. receipt_key r = (c, kind, oid))) (\<lambda>r. ret (r_receipt r))"

record receipt_link =
  rl_seq :: "nat option"
  rl_entry_hash :: "string option"
  rl_previous :: string
  rl_received :: nat
  rl_hash :: string

definition make_receipt :: "ext \<Rightarrow> config \<Rightarrow> chain \<Rightarrow> json \<Rightarrow> receipt_link \<Rightarrow> json tx" where
  "make_receipt X cfg c v link =
     bindM (new_id X) (\<lambda>rid.
     lift (ok_or ''INTERNAL_ERROR'' (sign_relay X (cfg_key cfg)
        (jobj [(''type'', JStr ''PALLASYNC-UPLOAD-RECEIPT-v3''), (''version'', JStr ''3.0''), (''receipt_id'', JStr rid),
          (''chain_id'', JStr (ch_id c)), (''log_id'', JStr (ch_log_id c)), (''relay_key_id'', JStr (cfg_key_id cfg)),
          (''relay_seq'', jopt JNat (rl_seq link)), (''object_hash'', JStr (object_hash X v)),
          (''entry_hash'', jopt JStr (rl_entry_hash link)), (''previous_head_hash'', JStr (rl_previous link)),
          (''resulting_head_hash'', JStr (ch_head_hash c)), (''received_at_ms'', JNat (rl_received link)),
          (''transparency_id'', JStr (ch_transparency_id c)), (''transparency_index'', JNat (ch_transparency_index c)),
          (''transparency_hash'', JStr (rl_hash link))]) CTX_RECEIPT)))"

definition store_receipt :: "chain \<Rightarrow> string \<Rightarrow> string \<Rightarrow> json \<Rightarrow> unit tx" where
  "store_receipt c kind oid r =
     insert_row db_receipts db_receipts_update receipt_clash
       \<lparr>r_chain = ch_id c, r_kind = kind, r_id = oid, r_log = ch_log_id c,
        r_seq = as_u64 (jget r ''relay_seq''), r_receipt = r\<rparr>"

text \<open>
  \<^verbatim>\<open>append\<close>: a known object with a receipt is answered from the store (\<open>append_known\<close>), everything
  else becomes the next entry of the log (\<open>append_log\<close>), which the transparency log and a receipt
  attest (\<open>append_new\<close>).
\<close>

definition append_known :: "ext \<Rightarrow> chain \<Rightarrow> string \<Rightarrow> string \<Rightarrow> json \<Rightarrow> (json \<times> json) option tx" where
  "append_known X c kind oid v =
     bindM (object_digest (ch_id c) kind oid) (\<lambda>digest.
     case digest of
       None \<Rightarrow> ret None
     | Some d \<Rightarrow>
         if d \<noteq> object_hash X v then lift (Inl (conflict kind))
         else
           bindM (select_opt db_receipts (\<lambda>r. receipt_key r = (ch_id c, kind, oid))) (\<lambda>row.
           case row of
             None \<Rightarrow> ret None
           | Some rr \<Rightarrow>
               (let r = r_receipt rr in
                bindM (select_one db_log (\<lambda>l. log_key l = (ch_id c, s_of r ''log_id'', n_of r ''relay_seq''))) (\<lambda>l.
                ret (Some (case l_entry l of None \<Rightarrow> JNull | Some e \<Rightarrow> e, r))))))"

definition log_entry :: "nat \<Rightarrow> nat \<Rightarrow> string \<Rightarrow> json \<Rightarrow> json" where
  "log_entry seq received kind v =
     (let entry = jobj [(''relay_seq'', JNat seq), (''received_at_ms'', JNat received), (''kind'', JStr kind),
            (''object'', v)] in
      if kind = ''epoch'' then jset ''committed_at_ms'' (JNat received) entry else entry)"

definition append_log :: "ext \<Rightarrow> chain \<Rightarrow> string \<Rightarrow> string \<Rightarrow> json \<Rightarrow> (chain \<times> json \<times> nat) tx" where
  "append_log X c kind oid v =
     bindM (rejectM (ch_head_seq c \<ge> MAX_INTEGER) ''STORAGE_UNAVAILABLE'') (\<lambda>_.
     let seq = ch_head_seq c + 1; previous = ch_head_hash c in
     bindM (now X) (\<lambda>received.
     let entry = log_entry seq received kind v in
     bindM (put_object X (ch_id c) kind v (Some (ch_log_id c, seq))) (\<lambda>_.
     bindM (update_rows db_objects_update
        (\<lambda>r. object_key r = (ch_id c, kind, oid) \<and> o_log r = None)
        (\<lambda>r. r\<lparr>o_log := Some (ch_log_id c), o_seq := Some seq\<rparr>)) (\<lambda>_.
     bindM (lift (link_hash X previous seq entry [])) (\<lambda>head_hash.
     let c = c\<lparr>ch_head_hash := head_hash, ch_head_seq := seq\<rparr> in
     bindM (insert_row db_log db_log_update (same log_key)
        \<lparr>l_chain = ch_id c, l_log = ch_log_id c, l_seq = seq, l_entry = Some entry, l_hash = head_hash\<rparr>) (\<lambda>_.
     ret (c, entry, received)))))))"

definition append_new :: "ext \<Rightarrow> config \<Rightarrow> chain \<Rightarrow> string \<Rightarrow> string \<Rightarrow> json \<Rightarrow> (chain \<times> json \<times> json) tx" where
  "append_new X cfg c kind oid v =
     (let previous = ch_head_hash c in
      bindM (append_log X c kind oid v) (\<lambda>(c, entry, received).
      let seq = ch_head_seq c in
      bindM (transparency X cfg c ''accept'' (object_hash X v) (Some seq) None) (\<lambda>(c, _, hash).
      bindM (make_receipt X cfg c v
         \<lparr>rl_seq = Some seq, rl_entry_hash = Some (object_hash X entry), rl_previous = previous,
          rl_received = received, rl_hash = hash\<rparr>) (\<lambda>r.
      bindM (store_receipt c kind oid r) (\<lambda>_.
      ret (c, entry, r))))))"

definition append_entry :: "ext \<Rightarrow> config \<Rightarrow> chain \<Rightarrow> string \<Rightarrow> json \<Rightarrow> (chain \<times> json \<times> json) tx" where
  "append_entry X cfg c kind v =
     bindM (lift (unwrap (object_id v kind))) (\<lambda>oid.
     bindM (append_known X c kind oid v) (\<lambda>known.
     case known of
       Some (entry, r) \<Rightarrow> ret (c, entry, r)
     | None \<Rightarrow> append_new X cfg c kind oid v))"

definition snapshot_part :: "ext \<Rightarrow> config \<Rightarrow> chain \<Rightarrow> json \<Rightarrow> (chain \<times> json) tx" where
  "snapshot_part X cfg c v =
     bindM (put_object X (ch_id c) ''snapshot_part'' v None) (\<lambda>fresh.
     if \<not> fresh
     then bindM (receipt (ch_id c) ''snapshot_part'' (s_of v ''record_id'')) (\<lambda>r. ret (c, r))
     else
       bindM (transparency X cfg c ''accept'' (object_hash X v) None None) (\<lambda>(c, _, hash).
       bindM (now X) (\<lambda>received.
       bindM (make_receipt X cfg c v
          \<lparr>rl_seq = None, rl_entry_hash = None, rl_previous = ch_head_hash c, rl_received = received, rl_hash = hash\<rparr>) (\<lambda>r.
       bindM (store_receipt c ''snapshot_part'' (s_of v ''record_id'') r) (\<lambda>_.
       ret (c, r))))))"

subsection \<open>Stored outcomes\<close>

definition outcomes :: "ext \<Rightarrow> string \<Rightarrow> string \<Rightarrow> string \<Rightarrow> json \<Rightarrow> json option tx" where
  "outcomes X chain scope oid payload =
     bindM (select_opt db_outcomes (\<lambda>r. outcome_key r = (chain, scope, oid))) (\<lambda>row.
     case row of
       None \<Rightarrow> ret None
     | Some r \<Rightarrow>
         if u_digest r \<noteq> object_hash X payload
         then lift (Inl (err (if scope = ''genesis'' then ''CHAIN_EXISTS'' else ''OPERATION_ID_CONFLICT'')))
         else ret (Some (u_response r)))"

definition outcome :: "ext \<Rightarrow> string \<Rightarrow> string \<Rightarrow> string \<Rightarrow> json \<Rightarrow> json \<Rightarrow> unit tx" where
  "outcome X chain scope oid payload response =
     insert_row db_outcomes db_outcomes_update (same outcome_key)
       \<lparr>u_chain = chain, u_scope = scope, u_id = oid, u_digest = object_hash X payload, u_response = response\<rparr>"

subsection \<open>Bounded result pages\<close>

text \<open>The loop of \<^verbatim>\<open>bounded_rows\<close> over the rows still to come, with the bytes and rows so far.\<close>

fun bounded_loop :: "('r \<Rightarrow> nat) \<Rightarrow> nat \<Rightarrow> 'r list \<Rightarrow> 'r list \<Rightarrow> 'r list res" where
  "bounded_loop bytes_of bytes rows [] = Inr rows"
| "bounded_loop bytes_of bytes rows (r # rs) =
     (if bytes + bytes_of r > 8 * 1024 * 1024
      then (if rows = [] then Inl (err ''PAYLOAD_TOO_LARGE'') else Inr rows)
      else bounded_loop bytes_of (bytes + bytes_of r) (rows @ [r]) rs)"

definition bounded_rows :: "('r \<Rightarrow> nat) \<Rightarrow> 'r list \<Rightarrow> 'r list res" where
  "bounded_rows bytes_of rs = bounded_loop bytes_of 0 [] rs"


subsection \<open>What a successful run did\<close>

lemma ok_or_run: "lift (ok_or code opt) st = (Inr x, st') \<longleftrightarrow> opt = Some x \<and> st' = st"
  by auto

lemma insert_row_run:
  "insert_row sel upd clash r st = (Inr u, st') \<longleftrightarrow>
     \<not> list_ex (clash r) (sel st) \<and> st' = upd (\<lambda>rows. rows @ [r]) st"
  by (auto simp: insert_row_def)

lemma update_rows_run:
  "update_rows upd p f st = (Inr u, st') \<longleftrightarrow> st' = upd (map (\<lambda>r. if p r then f r else r)) st"
  by (auto simp: update_rows_def)

lemma object_digest_run [simp]:
  "object_digest c kind oid st = (Inr (map_option o_hash (row_at object_key (c, kind, oid) (db_objects st))), st)"
  by (simp add: object_digest_def bindM_def row_at_def)

lemma object_run [simp]:
  "object c kind oid st =
     (Inr (case row_at object_key (c, kind, oid) (db_objects st) of None \<Rightarrow> None | Some r \<Rightarrow> o_body r), st)"
  by (simp add: object_def bindM_def row_at_def)

lemma read_only_object [intro, simp]: "read_only (object_digest c kind oid)" "read_only (object c kind oid)"
  by (simp_all add: read_only_def)

lemma transparency_run:
  assumes "transparency X cfg c op digest seq code st = (Inr (c', entry, hash), st')"
  shows "ch_transparency_index c < MAX_INTEGER"
    and "c' = c\<lparr>ch_transparency_index := ch_transparency_index c + 1, ch_transparency_hash := hash\<rparr>"
    and "link_hash X (ch_transparency_hash c) (ch_transparency_index c + 1) entry CTX_TLINK = Inr hash"
    and "st' = st\<lparr>db_tick := db_tick st + 1, db_transparency := db_transparency st @
           [\<lparr>t_chain = ch_id c, t_id = ch_transparency_id c, t_idx = ch_transparency_index c + 1,
             t_entry = entry, t_hash = hash\<rparr>]\<rparr>"
    and "jget entry ''object_hash'' = JStr digest" and "jget entry ''operation'' = JStr op"
    and "jget entry ''resulting_head_hash'' = JStr (ch_head_hash c)"
    and "jget entry ''entry_index'' = JNat (ch_transparency_index c + 1)"
proof -
  from assms obtain e where e: "sign_relay X (cfg_key cfg) e CTX_TRANSPARENCY = Some entry"
    "jget e ''object_hash'' = JStr digest" "jget e ''operation'' = JStr op"
    "jget e ''resulting_head_hash'' = JStr (ch_head_hash c)" "jget e ''entry_index'' = JNat (ch_transparency_index c + 1)"
    by (auto simp: transparency_def bindM_run Let_def insert_row_run jget_jobj)
  show "jget entry ''object_hash'' = JStr digest" "jget entry ''operation'' = JStr op"
    "jget entry ''resulting_head_hash'' = JStr (ch_head_hash c)" "jget entry ''entry_index'' = JNat (ch_transparency_index c + 1)"
    using e sign_relay_jget [OF e(1)] by simp_all
qed (use assms in \<open>auto simp: transparency_def bindM_run Let_def insert_row_run\<close>)

lemma put_object_run:
  assumes "put_object X c kind v place st = (Inr fresh, st')" and "object_id v kind = Some oid"
  shows "fresh \<longleftrightarrow> row_at object_key (c, kind, oid) (db_objects st) = None"
    and "\<not> fresh \<Longrightarrow> st' = st"
    and "\<not> fresh \<Longrightarrow> \<exists>r. row_at object_key (c, kind, oid) (db_objects st) = Some r \<and> o_hash r = object_hash X v"
    and "fresh \<Longrightarrow> st' = st\<lparr>db_objects := db_objects st @ [\<lparr>o_chain = c, o_kind = kind, o_id = oid,
           o_hash = object_hash X v, o_body = Some v, o_log = map_option fst place, o_seq = map_option snd place\<rparr>]\<rparr>"
    and "fresh \<Longrightarrow> record_kind kind \<Longrightarrow>
           row_at object_key (c, if kind = ''record'' then ''snapshot_part'' else ''record'', oid) (db_objects st) = None"
  using assms
  by (auto simp: put_object_def bindM_run Let_def insert_row_run split: option.splits if_splits)

lemma make_receipt_run:
  assumes "make_receipt X cfg c v link st = (Inr r, st')"
  shows "st' = st\<lparr>db_ids := db_ids st + 1\<rparr>"
    and "jget r ''relay_seq'' = jopt JNat (rl_seq link)" and "jget r ''log_id'' = JStr (ch_log_id c)"
    and "jget r ''object_hash'' = JStr (object_hash X v)" and "jget r ''entry_hash'' = jopt JStr (rl_entry_hash link)"
    and "jget r ''previous_head_hash'' = JStr (rl_previous link)"
    and "jget r ''resulting_head_hash'' = JStr (ch_head_hash c)"
    and "jget r ''transparency_index'' = JNat (ch_transparency_index c)"
    and "jget r ''transparency_hash'' = JStr (rl_hash link)"
    and "\<exists>e. sign_relay X (cfg_key cfg) e CTX_RECEIPT = Some r"
proof -
  from assms show "st' = st\<lparr>db_ids := db_ids st + 1\<rparr>" and "\<exists>e. sign_relay X (cfg_key cfg) e CTX_RECEIPT = Some r"
    by (auto simp: make_receipt_def bindM_run)
  from assms obtain e where e: "sign_relay X (cfg_key cfg) e CTX_RECEIPT = Some r"
    "jget e ''relay_seq'' = jopt JNat (rl_seq link)" "jget e ''log_id'' = JStr (ch_log_id c)"
    "jget e ''object_hash'' = JStr (object_hash X v)" "jget e ''entry_hash'' = jopt JStr (rl_entry_hash link)"
    "jget e ''previous_head_hash'' = JStr (rl_previous link)" "jget e ''resulting_head_hash'' = JStr (ch_head_hash c)"
    "jget e ''transparency_index'' = JNat (ch_transparency_index c)" "jget e ''transparency_hash'' = JStr (rl_hash link)"
    by (auto simp: make_receipt_def bindM_run jget_jobj)
  with sign_relay_jget [OF e(1)] show "jget r ''relay_seq'' = jopt JNat (rl_seq link)" "jget r ''log_id'' = JStr (ch_log_id c)"
    "jget r ''object_hash'' = JStr (object_hash X v)" "jget r ''entry_hash'' = jopt JStr (rl_entry_hash link)"
    "jget r ''previous_head_hash'' = JStr (rl_previous link)" "jget r ''resulting_head_hash'' = JStr (ch_head_hash c)"
    "jget r ''transparency_index'' = JNat (ch_transparency_index c)" "jget r ''transparency_hash'' = JStr (rl_hash link)"
    by simp_all
qed

text \<open>A new log entry: the state before and after, in full.\<close>

lemma append_log_run:
  assumes "append_log X c kind oid v st = (Inr (c', entry, received), st')" and "object_id v kind = Some oid"
  defines "seq \<equiv> ch_head_seq c + 1"
  shows "ch_head_seq c < MAX_INTEGER" and "entry = log_entry seq received kind v"
    and "link_hash X (ch_head_hash c) seq entry [] = Inr (ch_head_hash c')"
    and "c' = c\<lparr>ch_head_hash := ch_head_hash c', ch_head_seq := seq\<rparr>"
    and "\<exists>objs. st' = st\<lparr>db_tick := db_tick st + 1, db_objects := objs, db_log := db_log st @
           [\<lparr>l_chain = ch_id c, l_log = ch_log_id c, l_seq = seq, l_entry = Some entry, l_hash = ch_head_hash c'\<rparr>]\<rparr>"
    and "\<exists>r. row_at object_key (ch_id c, kind, oid) (db_objects st') = Some r \<and> o_hash r = object_hash X v"
    and "row_at log_key (ch_id c, ch_log_id c, seq) (db_log st) = None"
proof -
  let ?f = "\<lambda>r. if object_key r = (ch_id c, kind, oid) \<and> o_log r = None
     then r\<lparr>o_log := Some (ch_log_id c), o_seq := Some (Suc (ch_head_seq c))\<rparr> else r"
  from assms(1) obtain fresh st1 where
    put: "put_object X (ch_id c) kind v (Some (ch_log_id c, Suc (ch_head_seq c))) (st\<lparr>db_tick := Suc (db_tick st)\<rparr>)
       = (Inr fresh, st1)" and
    fresh_log: "\<not> list_ex (same log_key \<lparr>l_chain = ch_id c, l_log = ch_log_id c, l_seq = Suc (ch_head_seq c),
        l_entry = Some entry, l_hash = ch_head_hash c'\<rparr>) (db_log st1)" and
    st': "st' = db_log_update (\<lambda>rows. rows @ [\<lparr>l_chain = ch_id c, l_log = ch_log_id c, l_seq = Suc (ch_head_seq c),
        l_entry = Some entry, l_hash = ch_head_hash c'\<rparr>]) (db_objects_update (map ?f) st1)"
    by (auto simp: append_log_def bindM_run Let_def insert_row_run update_rows_run)
  from assms(1) show "ch_head_seq c < MAX_INTEGER" "entry = log_entry seq received kind v"
    "link_hash X (ch_head_hash c) seq entry [] = Inr (ch_head_hash c')"
    "c' = c\<lparr>ch_head_hash := ch_head_hash c', ch_head_seq := seq\<rparr>"
    by (auto simp: append_log_def bindM_run Let_def insert_row_run update_rows_run seq_def)
  note pr = put_object_run [OF put assms(2)]
  have st1: "\<exists>objs. st1 = st\<lparr>db_tick := db_tick st + 1, db_objects := objs\<rparr>"
  proof (cases fresh)
    case False
    with pr(2) have "st1 = st\<lparr>db_tick := db_tick st + 1, db_objects := db_objects st\<rparr>" by simp
    then show ?thesis by blast
  next
    case True
    with pr(4) show ?thesis by auto
  qed
  then obtain objs where objs: "st1 = st\<lparr>db_tick := db_tick st + 1, db_objects := objs\<rparr>" by blast
  have "st' = st\<lparr>db_tick := db_tick st + 1, db_objects := map ?f objs, db_log := db_log st @
           [\<lparr>l_chain = ch_id c, l_log = ch_log_id c, l_seq = seq, l_entry = Some entry, l_hash = ch_head_hash c'\<rparr>]\<rparr>"
    by (cases st) (simp add: st' objs seq_def)
  then show "\<exists>objs. st' = st\<lparr>db_tick := db_tick st + 1, db_objects := objs, db_log := db_log st @
           [\<lparr>l_chain = ch_id c, l_log = ch_log_id c, l_seq = seq, l_entry = Some entry, l_hash = ch_head_hash c'\<rparr>]\<rparr>"
    by blast
  obtain r where r: "row_at object_key (ch_id c, kind, oid) (db_objects st1) = Some r" "o_hash r = object_hash X v"
    using pr by (cases fresh) (auto simp: row_at_append object_key_def)
  have "object_key (?f r) = object_key r" for r by (simp add: object_key_def)
  from row_at_map [of object_key ?f, OF this] r(1)
  have "row_at object_key (ch_id c, kind, oid) (db_objects st') = Some (?f r)" by (simp only: st') simp
  moreover have "o_hash (?f r) = object_hash X v" using r(2) by simp
  ultimately show "\<exists>r. row_at object_key (ch_id c, kind, oid) (db_objects st') = Some r \<and> o_hash r = object_hash X v"
    by blast
  show "row_at log_key (ch_id c, ch_log_id c, seq) (db_log st) = None"
    using logs.fresh_key [OF fresh_log] st1 by (auto simp: log_key_def seq_def)
qed

lemma append_new_run:
  assumes "append_new X cfg c kind oid v st = (Inr (c', entry, r), st')" and "object_id v kind = Some oid"
  obtains c1 received st1 te st2 where
    "append_log X c kind oid v st = (Inr (c1, entry, received), st1)"
    "transparency X cfg c1 ''accept'' (object_hash X v) (Some (ch_head_seq c1)) None st1
       = (Inr (c', te, ch_transparency_hash c'), st2)"
    "make_receipt X cfg c' v \<lparr>rl_seq = Some (ch_head_seq c1), rl_entry_hash = Some (object_hash X entry),
       rl_previous = ch_head_hash c, rl_received = received, rl_hash = ch_transparency_hash c'\<rparr> st2
       = (Inr r, st2\<lparr>db_ids := db_ids st2 + 1\<rparr>)"
    "\<not> list_ex (receipt_clash \<lparr>r_chain = ch_id c', r_kind = kind, r_id = oid, r_log = ch_log_id c',
       r_seq = as_u64 (jget r ''relay_seq''), r_receipt = r\<rparr>) (db_receipts st)"
    "st' = st2\<lparr>db_ids := db_ids st2 + 1, db_receipts := db_receipts st @ [\<lparr>r_chain = ch_id c', r_kind = kind,
       r_id = oid, r_log = ch_log_id c', r_seq = as_u64 (jget r ''relay_seq''), r_receipt = r\<rparr>]\<rparr>"
proof -
  from assms(1) obtain c1 received st1 te th st2 st3 where
    log: "append_log X c kind oid v st = (Inr (c1, entry, received), st1)" and
    tr: "transparency X cfg c1 ''accept'' (object_hash X v) (Some (ch_head_seq c1)) None st1 = (Inr (c', te, th), st2)" and
    mk: "make_receipt X cfg c' v \<lparr>rl_seq = Some (ch_head_seq c1), rl_entry_hash = Some (object_hash X entry),
       rl_previous = ch_head_hash c, rl_received = received, rl_hash = th\<rparr> st2 = (Inr r, st3)" and
    sr: "store_receipt c' kind oid r st3 = (Inr (), st')"
    by (auto simp: append_new_def bindM_run Let_def)
  have th: "th = ch_transparency_hash c'" using transparency_run(2) [OF tr] by simp
  have st3: "st3 = st2\<lparr>db_ids := db_ids st2 + 1\<rparr>" by (rule make_receipt_run(1) [OF mk])
  have keep: "db_receipts st2 = db_receipts st"
    using transparency_run(4) [OF tr] append_log_run(5) [OF log assms(2)] by auto
  from sr st3 keep show ?thesis
    by (intro that [OF log tr [unfolded th] mk [unfolded th st3]])
      (auto simp: store_receipt_def insert_row_run)
qed


subsection \<open>First write wins\<close>

definition other_kind :: "string \<Rightarrow> string" where
  "other_kind kind = (if kind = ''record'' then ''snapshot_part'' else ''record'')"

lemma object_clash_iff:
  assumes "record_kind kind \<Longrightarrow> row_at object_key (c, other_kind kind, oid) rows = None"
    and "o_chain r = c" "o_kind r = kind" "o_id r = oid"
  shows "list_ex (object_clash r) rows \<longleftrightarrow> row_at object_key (c, kind, oid) rows \<noteq> None"
proof -
  have "object_clash r r' \<longleftrightarrow> object_key r' = (c, kind, oid) \<or> (record_kind kind \<and> object_key r' = (c, other_kind kind, oid))" for r'
    using assms(2-4) by (auto simp: object_clash_def object_key_def record_kind_def other_kind_def)
  moreover have "row_at object_key k rows = None \<longleftrightarrow> \<not> (\<exists>r' \<in> set rows. object_key r' = k)" for k
    by (auto simp: row_at_None_iff)
  ultimately show ?thesis using assms(1) unfolding list_ex_iff by metis
qed

text \<open>
  C10: storing an object never fails on a uniqueness constraint. A known object with the same hash is
  left alone, one with another hash (or a record that exists as a snapshot part, or the converse) is a
  conflict that changes nothing, and otherwise exactly one row is added.
\<close>

theorem put_object_first_write:
  assumes "object_id v kind = Some oid"
  shows "put_object X c kind v place st =
    (case row_at object_key (c, kind, oid) (db_objects st) of
       Some r \<Rightarrow> (if o_hash r = object_hash X v then Inr False else Inl (conflict kind), st)
     | None \<Rightarrow>
         if record_kind kind \<and> row_at object_key (c, other_kind kind, oid) (db_objects st) \<noteq> None
         then (Inl (conflict kind), st)
         else (Inr True, st\<lparr>db_objects := db_objects st @ [\<lparr>o_chain = c, o_kind = kind, o_id = oid,
           o_hash = object_hash X v, o_body = Some v, o_log = map_option fst place, o_seq = map_option snd place\<rparr>]\<rparr>))"
proof (cases "row_at object_key (c, kind, oid) (db_objects st)")
  case None
  then show ?thesis
    using assms object_clash_iff [of kind c oid "db_objects st" "\<lparr>o_chain = c, o_kind = kind, o_id = oid,
        o_hash = object_hash X v, o_body = Some v, o_log = map_option fst place, o_seq = map_option snd place\<rparr>"]
    by (auto simp: put_object_def bindM_def Let_def insert_row_def other_kind_def unwrap_def)
next
  case (Some r)
  then show ?thesis using assms by (auto simp: put_object_def bindM_def Let_def)
qed

theorem put_object_first_write_witness:
  "\<exists>st'. put_object demo_ext ''c'' ''device'' (jobj [(''device_id'', JStr ''d1'')]) None empty_db = (Inr True, st')"
  using put_object_first_write [of "jobj [(''device_id'', JStr ''d1'')]" "''device''" "''d1''" demo_ext "''c''" None empty_db]
  by (simp add: object_id_def s_of_def jget_jobj as_str_def row_at_def empty_db_def record_kind_def)

subsection \<open>Appending is idempotent\<close>

lemma append_known_same_chain:
  assumes "ch_id d = ch_id c"
  shows "append_known X d kind oid v = append_known X c kind oid v"
  unfolding append_known_def assms ..

lemma read_only_append_known: "read_only (append_known X c kind oid v)"
  unfolding append_known_def Let_def
  by (intro read_only_bindM read_only_cases read_only_object read_only_select read_only_basic)

lemma append_known_stored:
  assumes "row_at object_key (ch_id c, kind, oid) (db_objects st) = Some obj" "o_hash obj = object_hash X v"
    and "row_at receipt_key (ch_id c, kind, oid) (db_receipts st) = Some rr"
    and "row_at log_key (ch_id c, s_of (r_receipt rr) ''log_id'', n_of (r_receipt rr) ''relay_seq'') (db_log st) = Some l"
  shows "append_known X c kind oid v st = (Inr (Some (case l_entry l of None \<Rightarrow> JNull | Some e \<Rightarrow> e, r_receipt rr)), st)"
  using assms by (simp add: append_known_def bindM_def Let_def select_one_def row_at_def)

lemma append_new_stored:
  assumes "append_new X cfg c kind oid v st = (Inr (c', entry, r), st')" and "object_id v kind = Some oid"
  shows "append_known X c kind oid v st' = (Inr (Some (entry, r)), st')"
proof -
  from append_new_run [OF assms] obtain c1 received st1 te st2 where
    log: "append_log X c kind oid v st = (Inr (c1, entry, received), st1)" and
    tr: "transparency X cfg c1 ''accept'' (object_hash X v) (Some (ch_head_seq c1)) None st1
       = (Inr (c', te, ch_transparency_hash c'), st2)" and
    mk: "make_receipt X cfg c' v \<lparr>rl_seq = Some (ch_head_seq c1), rl_entry_hash = Some (object_hash X entry),
       rl_previous = ch_head_hash c, rl_received = received, rl_hash = ch_transparency_hash c'\<rparr> st2
       = (Inr r, st2\<lparr>db_ids := db_ids st2 + 1\<rparr>)" and
    clash: "\<not> list_ex (receipt_clash \<lparr>r_chain = ch_id c', r_kind = kind, r_id = oid, r_log = ch_log_id c',
       r_seq = as_u64 (jget r ''relay_seq''), r_receipt = r\<rparr>) (db_receipts st)" and
    st': "st' = st2\<lparr>db_ids := db_ids st2 + 1, db_receipts := db_receipts st @ [\<lparr>r_chain = ch_id c', r_kind = kind,
       r_id = oid, r_log = ch_log_id c', r_seq = as_u64 (jget r ''relay_seq''), r_receipt = r\<rparr>]\<rparr>"
    by blast
  note lr = append_log_run [OF log assms(2)] and tr' = transparency_run [OF tr] and mr = make_receipt_run [OF mk]
  have c: "ch_id c' = ch_id c" "ch_log_id c' = ch_log_id c" "ch_head_seq c1 = ch_head_seq c + 1"
    using arg_cong [OF lr(4), of ch_id] arg_cong [OF lr(4), of ch_log_id] arg_cong [OF lr(4), of ch_head_seq]
      arg_cong [OF tr'(2), of ch_id] arg_cong [OF tr'(2), of ch_log_id] by simp_all
  have obj: "db_objects st' = db_objects st1" "db_log st' = db_log st1" using st' tr'(4) by simp_all
  from lr(6) obj obtain o' where o': "row_at object_key (ch_id c, kind, oid) (db_objects st') = Some o'" "o_hash o' = object_hash X v"
    by auto
  let ?rr = "\<lparr>r_chain = ch_id c', r_kind = kind, r_id = oid, r_log = ch_log_id c', r_seq = as_u64 (jget r ''relay_seq''), r_receipt = r\<rparr>"
  have rec: "row_at receipt_key (ch_id c, kind, oid) (db_receipts st') = Some ?rr"
    using receipts.fresh_key [OF clash] by (simp add: st' row_at_append receipt_key_def c)
  have "n_of r ''relay_seq'' = ch_head_seq c + 1"
    using lr(1) mr(2) c(3) by (simp add: n_of_def jopt_def as_u64_def MAX_INTEGER_def)
  moreover have "s_of r ''log_id'' = ch_log_id c" using mr(3) c(2) by (simp add: s_of_def as_str_def)
  moreover have "row_at log_key (ch_id c, ch_log_id c, ch_head_seq c + 1) (db_log st') =
      Some \<lparr>l_chain = ch_id c, l_log = ch_log_id c, l_seq = ch_head_seq c + 1, l_entry = Some entry, l_hash = ch_head_hash c1\<rparr>"
    using lr(5,7) obj by (auto simp: row_at_append log_key_def)
  ultimately show ?thesis
    using append_known_stored [OF o' rec] by simp
qed

text \<open>
  C11: appending the same object again, from any later view of the chain, returns the entry and
  the receipt of the first acceptance and changes nothing.
\<close>

theorem append_entry_idempotent:
  assumes "append_entry X cfg c kind v st = (Inr (c', entry, r), st')" and "ch_id d = ch_id c"
  shows "append_entry X cfg d kind v st' = (Inr (d, entry, r), st')"
proof -
  from assms(1) obtain oid where oid: "object_id v kind = Some oid"
    by (auto simp: append_entry_def bindM_run)
  from assms(1) oid obtain known u where k: "append_known X c kind oid v st = (Inr known, u)"
    and rest: "(case known of Some (e, r) \<Rightarrow> ret (c, e, r) | None \<Rightarrow> append_new X cfg c kind oid v) u = (Inr (c', entry, r), st')"
    by (auto simp: append_entry_def bindM_run)
  have u: "u = st" using read_onlyD [OF read_only_append_known k] .
  have "append_known X c kind oid v st' = (Inr (Some (entry, r)), st')"
  proof (cases known)
    case None
    with rest u show ?thesis using append_new_stored oid by simp
  next
    case (Some p)
    with rest k u show ?thesis by (auto split: prod.splits)
  qed
  then have "append_known X d kind oid v st' = (Inr (Some (entry, r)), st')"
    using append_known_same_chain [OF assms(2)] by simp
  with oid show ?thesis by (simp add: append_entry_def bindM_def unwrap_def)
qed

text \<open>A small configuration and an empty chain on which witnesses run.\<close>

definition demo_cfg :: config where
  "demo_cfg = \<lparr>cfg_key = replicate 32 CHR ''k'', cfg_origin = ''https://r'', cfg_key_id = demo_b32, cfg_privacy = JNull,
     cfg_markdown = [], cfg_max_bytes = None, cfg_shutdown_at_ms = None, cfg_migration_origin = None, cfg_stop_writes = False\<rparr>"

definition demo_chain :: chain where
  "demo_chain = \<lparr>ch_id = demo_b32, ch_parameters = JObj [], ch_epoch = JObj [], ch_log_id = ''141'', ch_head_seq = 0,
     ch_head_hash = demo_b32, ch_min_available_seq = 1, ch_boundary_compaction_id = None, ch_transparency_id = ''142'',
     ch_transparency_index = 0, ch_transparency_hash = demo_b32, ch_writable = True, ch_notice_id = ''143''\<rparr>"

definition demo_device :: json where
  "demo_device = jobj [(''device_id'', JStr ''144'')]"

lemma is_ok_run: "is_ok (fst (m st)) \<Longrightarrow> \<exists>x st'. m st = (Inr x, st')"
  by (cases "m st") (auto simp: is_ok_iff)

lemma demo_append:
  obtains c' e r st' where
    "append_entry demo_fast demo_cfg demo_chain ''device'' demo_device empty_db = (Inr (c', e, r), st')"
    "ch_head_seq c' = 1"
proof -
  have "case append_entry demo_fast demo_cfg demo_chain ''device'' demo_device empty_db of
      (Inr (c', e, r), st') \<Rightarrow> ch_head_seq c' = 1 | _ \<Rightarrow> False"
    by code_simp
  then show ?thesis using that by (auto split: prod.splits sum.splits)
qed

theorem append_entry_idempotent_witness:
  "\<exists>c' e r st'. append_entry demo_fast demo_cfg demo_chain ''device'' demo_device empty_db = (Inr (c', e, r), st')
     \<and> append_entry demo_fast demo_cfg demo_chain ''device'' demo_device st' = (Inr (demo_chain, e, r), st')"
proof -
  obtain c' e r st' where
    "append_entry demo_fast demo_cfg demo_chain ''device'' demo_device empty_db = (Inr (c', e, r), st')"
    by (rule demo_append)
  with append_entry_idempotent [OF this refl] show ?thesis by blast
qed

subsection \<open>The quota and the published heads\<close>

text \<open>
  A successful save leaves the chain within its quota, makes this chain the one a later load
  returns, and changes no head that was published before, not even for the same index.
\<close>

theorem save_publishes:
  assumes "save X cfg c st = (Inr (), st')"
  shows "(\<forall>m. cfg_max_bytes cfg = Some m \<longrightarrow> used X (ch_id c) st' \<le> m)
    \<and> load (ch_id c) st' = (Inr (Some c), st')
    \<and> (\<forall>k h. row_at head_key k (db_heads st) = Some h \<longrightarrow> row_at head_key k (db_heads st') = Some h)
    \<and> (\<exists>h. row_at head_key (ch_id c, ch_transparency_id c, ch_transparency_index c) (db_heads st') = Some h)"
proof -
  let ?key = "(ch_id c, ch_transparency_id c, ch_transparency_index c)"
  from assms obtain head st1 b st2 where
    ups: "upsert_row db_chains db_chains_update (same ch_id) c st = (Inr (), st1)" and
    ins: "insert_ignore db_heads db_heads_update (same head_key)
        \<lparr>hd_chain = ch_id c, hd_id = ch_transparency_id c, hd_idx = ch_transparency_index c, hd_head = head\<rparr>
        (st1\<lparr>db_tick := db_tick st1 + 1\<rparr>) = (Inr b, st2)" and
    q: "quota X cfg (ch_id c) st2 = (Inr (), st')"
    by (auto simp: save_def bindM_run)
  have st': "st' = st2" "\<forall>m. cfg_max_bytes cfg = Some m \<longrightarrow> used X (ch_id c) st2 \<le> m"
    using q by (auto simp: quota_def bindM_run split: if_splits option.splits)
  have chains: "db_chains st2 = db_chains st1" "db_heads st1 = db_heads st"
    using ins ups by (auto simp: insert_ignore_def upsert_row_def split: if_splits)
  have "find (\<lambda>d. ch_id d = ch_id c) (db_chains st1) = Some c"
    using ups row_at_upsert [of ch_id c "db_chains st"] by (auto simp: upsert_row_def row_at_def split: if_splits)
  moreover have "row_at head_key k (db_heads st2) = Some h" if "row_at head_key k (db_heads st) = Some h" for k h
    using heads.insert_ignore_keeps_rows [OF ins, of k h] that chains by simp
  moreover have "\<exists>h. row_at head_key ?key (db_heads st2) = Some h"
  proof (cases b)
    case True
    with heads.insert_ignore_present(3) [OF ins] show ?thesis by (simp add: head_key_def)
  next
    case False
    with heads.insert_ignore_present(1,2) [OF ins] have "?key \<in> head_key ` set (db_heads st2)"
      by (force simp: list_ex_iff same_def head_key_def)
    then show ?thesis by (metis not_None_eq row_at_None_iff)
  qed
  ultimately show ?thesis using st' chains by (auto simp: load_def)
qed

theorem save_publishes_witness:
  "\<exists>st'. save demo_fast (demo_cfg\<lparr>cfg_max_bytes := Some 100000\<rparr>) demo_chain empty_db = (Inr (), st')
     \<and> load (ch_id demo_chain) st' = (Inr (Some demo_chain), st')"
proof -
  have "is_ok (fst (save demo_fast (demo_cfg\<lparr>cfg_max_bytes := Some 100000\<rparr>) demo_chain empty_db))" by code_simp
  then obtain st' where run: "save demo_fast (demo_cfg\<lparr>cfg_max_bytes := Some 100000\<rparr>) demo_chain empty_db = (Inr (), st')"
    using is_ok_run by fastforce
  with save_publishes [OF this] show ?thesis by blast
qed

subsection \<open>Outcomes replay\<close>

text \<open>
  A stored outcome is returned for the same payload hash, refused for another one, and an
  identifier that has an outcome can never be given a second one.
\<close>

theorem outcome_replay:
  assumes "outcome X chain scope oid payload response st = (Inr (), st')"
  shows "outcomes X chain scope oid p st' =
      (if object_hash X p = object_hash X payload then Inr (Some response)
       else Inl (err (if scope = ''genesis'' then ''CHAIN_EXISTS'' else ''OPERATION_ID_CONFLICT'')), st')
    \<and> outcome X chain scope oid p' response' st' = (Inl sql_error, st')"
proof -
  let ?r = "\<lparr>u_chain = chain, u_scope = scope, u_id = oid, u_digest = object_hash X payload, u_response = response\<rparr>"
  from assms have ins: "insert_row db_outcomes db_outcomes_update (same outcome_key) ?r st = (Inr (), st')"
    by (simp add: outcome_def)
  from outcomes.insert_lookup [OF ins, of "(chain, scope, oid)"]
  have row: "row_at outcome_key (chain, scope, oid) (db_outcomes st') = Some ?r"
    by (simp add: outcome_key_def)
  have "outcomes X chain scope oid p st' =
      (if object_hash X p = object_hash X payload then Inr (Some response)
       else Inl (err (if scope = ''genesis'' then ''CHAIN_EXISTS'' else ''OPERATION_ID_CONFLICT'')), st')"
    using row by (auto simp: outcomes_def bindM_def row_at_def)
  moreover have "outcome X chain scope oid p' response' st' = (Inl sql_error, st')"
    unfolding outcome_def by (rule outcomes.insert_twice_fails) (use row in \<open>simp add: outcome_key_def\<close>)
  ultimately show ?thesis by blast
qed

theorem outcome_replay_witness:
  "\<exists>st'. outcome demo_ext ''c'' ''epoch'' ''i'' JNull (JInt 1) empty_db = (Inr (), st')
     \<and> outcomes demo_ext ''c'' ''epoch'' ''i'' JNull st' = (Inr (Some (JInt 1)), st')"
proof -
  obtain st' where run: "outcome demo_ext ''c'' ''epoch'' ''i'' JNull (JInt 1) empty_db = (Inr (), st')"
    by (simp add: outcome_def insert_row_def empty_db_def)
  with outcome_replay [OF this, of JNull] show ?thesis by auto
qed

subsection \<open>Pages are bounded\<close>

lemma bounded_loop_Inr:
  "bounded_loop len bytes rows rs = Inr out \<Longrightarrow> bytes = sum_list (map len rows) \<Longrightarrow> bytes \<le> 8388608 \<Longrightarrow>
   \<exists>page rest. rs = page @ rest \<and> out = rows @ page \<and> sum_list (map len out) \<le> 8388608
     \<and> (rest \<noteq> [] \<longrightarrow> sum_list (map len out) + len (hd rest) > 8388608 \<and> out \<noteq> [])"
proof (induction len bytes rows rs rule: bounded_loop.induct)
  case (2 len bytes rows r rs)
  show ?case
  proof (cases "bytes + len r > 8 * 1024 * 1024")
    case True
    with 2 show ?thesis by (intro exI [of _ "[]"] exI [of _ "r # rs"]) (auto split: if_splits)
  next
    case False
    have "\<exists>page rest. rs = page @ rest \<and> out = (rows @ [r]) @ page \<and> sum_list (map len out) \<le> 8388608
      \<and> (rest \<noteq> [] \<longrightarrow> sum_list (map len out) + len (hd rest) > 8388608 \<and> out \<noteq> [])"
      by (rule "2.IH" [OF False]) (use "2.prems" False in simp_all)
    then obtain page rest where "rs = page @ rest" "out = (rows @ [r]) @ page" "sum_list (map len out) \<le> 8388608"
      "rest \<noteq> [] \<longrightarrow> sum_list (map len out) + len (hd rest) > 8388608 \<and> out \<noteq> []"
      by blast
    then show ?thesis by (intro exI [of _ "r # page"] exI [of _ rest]) simp
  qed
qed auto

lemma bounded_loop_Inl:
  "bounded_loop len bytes rows rs = Inl e \<Longrightarrow> rows = [] \<and> rs \<noteq> [] \<and> bytes + len (hd rs) > 8388608 \<and> e = err ''PAYLOAD_TOO_LARGE''"
  by (induction len bytes rows rs rule: bounded_loop.induct) (auto split: if_splits)

text \<open>
  A page is the longest prefix of the rows whose text fits in eight mebibytes, and the call
  fails exactly when the first row alone does not fit.
\<close>

theorem bounded_rows_page:
  "case bounded_rows len rs of
     Inr out \<Rightarrow> \<exists>rest. rs = out @ rest \<and> sum_list (map len out) \<le> 8388608
        \<and> (rest = [] \<or> sum_list (map len out) + len (hd rest) > 8388608) \<and> (out = [] \<longleftrightarrow> rs = [])
   | Inl e \<Rightarrow> rs \<noteq> [] \<and> len (hd rs) > 8388608 \<and> e = err ''PAYLOAD_TOO_LARGE''"
proof (cases "bounded_rows len rs")
  case (Inl e)
  then show ?thesis using bounded_loop_Inl [of len 0 "[]" rs e] by (simp add: bounded_rows_def)
next
  case (Inr out)
  then obtain page rest where "rs = page @ rest" "out = page" "sum_list (map len out) \<le> 8388608"
    "rest \<noteq> [] \<longrightarrow> sum_list (map len out) + len (hd rest) > 8388608 \<and> out \<noteq> []"
    using bounded_loop_Inr [of len 0 "[]" rs out] by (auto simp: bounded_rows_def)
  with Inr show ?thesis by auto
qed

end
