(* ===== verification/Relay_Log.thy ===== *)
theory Relay_Log
  imports Relay_Store
begin

text \<open>
  The two hash-linked logs of a chain: the data log and the transparency log. What a reader can
  conclude from an equal head (tamper evidence), the invariant of a chain's logs, and that every
  operation of \<^verbatim>\<open>src/api/store.rs\<close> that extends a log keeps it.
\<close>

subsection \<open>Hash-linked sequences\<close>

text \<open>
  A link is a sequence number, the entry (absent once its body was removed) and the stored hash.
  \<open>linked\<close> says that numbers are consecutive and that each present entry hashes, with the hash
  before it, to the stored hash.
\<close>

type_synonym link = "nat \<times> json option \<times> string"

fun linked :: "(string \<Rightarrow> nat \<Rightarrow> json \<Rightarrow> string res) \<Rightarrow> string \<Rightarrow> nat \<Rightarrow> link list \<Rightarrow> bool" where
  "linked lk prev i [] = True"
| "linked lk prev i ((j, e, h) # ls) =
     (j = i \<and> (case e of None \<Rightarrow> True | Some x \<Rightarrow> lk prev i x = Inr h) \<and> linked lk h (i + 1) ls)"

definition head_of :: "string \<Rightarrow> link list \<Rightarrow> string" where
  "head_of prev ls = (if ls = [] then prev else snd (snd (last ls)))"

lemma head_of_simps [simp]:
  "head_of prev [] = prev" "head_of prev ((j, e, h) # ls) = head_of h ls"
  "head_of prev (ls @ [(j, e, h)]) = h"
  by (auto simp: head_of_def)

lemma head_of_append: "head_of prev (xs @ ys) = head_of (head_of prev xs) ys"
  by (auto simp: head_of_def)

lemma linked_append:
  "linked lk prev i (xs @ ys) \<longleftrightarrow> linked lk prev i xs \<and> linked lk (head_of prev xs) (i + length xs) ys"
proof (induction xs arbitrary: prev i)
  case (Cons x xs)
  then show ?case by (cases x) auto
qed simp

lemma linked_numbers: "linked lk prev i ls \<Longrightarrow> map fst ls = [i..<i + length ls]"
proof (induction ls arbitrary: prev i)
  case (Cons l ls)
  obtain j e h where l: "l = (j, e, h)" by (cases l)
  with Cons.prems Cons.IH [of h "i + 1"] show ?case by (simp add: upt_rec)
qed simp

lemma linked_forget:
  assumes "linked lk prev i ls"
  shows "linked lk prev i (map (\<lambda>(j, e, h). (j, if p j e then None else e, h)) ls)"
  using assms
proof (induction ls arbitrary: prev i)
  case (Cons l ls)
  then show ?case by (cases l) (auto split: option.splits)
qed simp

lemma head_of_forget [simp]:
  "head_of prev (map (\<lambda>(j, e, h). (j, if p j e then None else e, h)) ls) = head_of prev ls"
  by (auto simp: head_of_def last_map split: prod.splits)

text \<open>
  The texts a linked sequence hashes: \<open>pre\<close> lists what one link gives to the hash function, and
  \<open>hashed_by\<close> collects it over the entries that are present.
\<close>

fun hashed_by :: "(string \<Rightarrow> nat \<Rightarrow> json \<Rightarrow> string list) \<Rightarrow> string \<Rightarrow> link list \<Rightarrow> string list" where
  "hashed_by pre prev [] = []"
| "hashed_by pre prev ((j, e, h) # ls) = (case e of None \<Rightarrow> [] | Some x \<Rightarrow> pre prev j x) @ hashed_by pre h ls"

lemma hashed_by_append: "hashed_by pre prev (xs @ ys) = hashed_by pre prev xs @ hashed_by pre (head_of prev xs) ys"
proof (induction xs arbitrary: prev)
  case (Cons x xs)
  then show ?case by (cases x) simp
qed simp

text \<open>
  Two lists of texts collide when a text of the one and another text of the other have the same
  digest: the colliding texts are among those the lists name.
\<close>

definition collide :: "ext \<Rightarrow> string list \<Rightarrow> string list \<Rightarrow> bool" where
  "collide X as bs \<longleftrightarrow> (\<exists>a \<in> set as. \<exists>b \<in> set bs. a \<noteq> b \<and> x_sha256 X a = x_sha256 X b)"

lemma collide_mono: "collide X as bs \<Longrightarrow> set as \<subseteq> set as' \<Longrightarrow> set bs \<subseteq> set bs' \<Longrightarrow> collide X as' bs'"
  by (auto simp: collide_def)

text \<open>
  The interface of a link function: from an equal hash one concludes equal predecessors and equal
  serialised entries, or the texts that the two links hash collide.
\<close>

locale hash_link =
  fixes lk :: "ext \<Rightarrow> string \<Rightarrow> nat \<Rightarrow> json \<Rightarrow> string res"
    and pre :: "ext \<Rightarrow> string \<Rightarrow> nat \<Rightarrow> json \<Rightarrow> string list"
  assumes link_binds: "ext_ok X \<Longrightarrow> lk X h i e = Inr k \<Longrightarrow> lk X h' i e' = Inr k \<Longrightarrow>
      (h = h' \<and> x_jcs X e = x_jcs X e') \<or> collide X (pre X h i e) (pre X h' i e')"
begin

lemma same_head_same_entries:
  assumes "ext_ok X" and "linked (lk X) p i xs" "linked (lk X) q i ys" and "length xs = length ys"
    and "head_of p xs = head_of q ys"
    and "\<forall>l \<in> set xs. fst (snd l) \<noteq> None" "\<forall>l \<in> set ys. fst (snd l) \<noteq> None"
  shows "(p = q \<and> list_all2 (\<lambda>l m. x_jcs X (the (fst (snd l))) = x_jcs X (the (fst (snd m)))) xs ys)
    \<or> collide X (hashed_by (pre X) p xs) (hashed_by (pre X) q ys)"
  using assms(4,2,3,5-7)
proof (induction xs ys arbitrary: p q i rule: list_induct2)
  case Nil
  then show ?case by simp
next
  case (Cons x xs y ys)
  obtain j a h where x: "x = (j, Some a, h)" using Cons.prems(4) by (cases x) auto
  obtain j' b h' where y: "y = (j', Some b, h')" using Cons.prems(5) by (cases y) auto
  have tails: "linked (lk X) h (i + 1) xs" "linked (lk X) h' (i + 1) ys" "head_of h xs = head_of h' ys"
    and links: "lk X p i a = Inr h" "lk X q i b = Inr h'" and j: "j = i" "j' = i"
    using Cons.prems x y by auto
  have "(\<forall>l \<in> set xs. fst (snd l) \<noteq> None) \<and> (\<forall>l \<in> set ys. fst (snd l) \<noteq> None)"
    using Cons.prems(4,5) by simp
  with Cons.IH [OF tails] consider "h = h' \<and> list_all2 (\<lambda>l m. x_jcs X (the (fst (snd l))) = x_jcs X (the (fst (snd m)))) xs ys"
    | "collide X (hashed_by (pre X) h xs) (hashed_by (pre X) h' ys)" by blast
  then show ?case
  proof cases
    assume tl: "h = h' \<and> list_all2 (\<lambda>l m. x_jcs X (the (fst (snd l))) = x_jcs X (the (fst (snd m)))) xs ys"
    then consider "p = q \<and> x_jcs X a = x_jcs X b" | "collide X (pre X p i a) (pre X q i b)"
      using link_binds [OF assms(1) links(1)] links(2) by blast
    then show ?case
    proof cases
      assume "collide X (pre X p i a) (pre X q i b)"
      then have "collide X (hashed_by (pre X) p (x # xs)) (hashed_by (pre X) q (y # ys))"
        by (rule collide_mono) (simp_all add: x y j)
      then show ?thesis ..
    qed (use tl x y in simp)
  next
    assume "collide X (hashed_by (pre X) h xs) (hashed_by (pre X) h' ys)"
    then have "collide X (hashed_by (pre X) p (x # xs)) (hashed_by (pre X) q (y # ys))"
      by (rule collide_mono) (simp_all add: x y)
    then show ?case ..
  qed
qed

end

text \<open>What \<^verbatim>\<open>link_hash\<close> hashes: the serialised entry, and the text that binds its digest to the hash before.\<close>

definition link_texts :: "string \<Rightarrow> ext \<Rightarrow> string \<Rightarrow> nat \<Rightarrow> json \<Rightarrow> string list" where
  "link_texts ctx X h i e =
     [x_jcs X e, ctx @ (case decode X h (Some 32) of None \<Rightarrow> [] | Some b \<Rightarrow> b) @ be64 i @ x_sha256 X (x_jcs X e)]"

lemma link_hash_run:
  assumes "ext_ok X" and "link_hash X h i e ctx = Inr k"
  obtains pb where "decode X h (Some 32) = Some pb" "length pb = 32"
    "k = hash_bytes X (ctx @ pb @ be64 i @ x_sha256 X (x_jcs X e))"
  using assms by (auto simp: link_hash_def hash_bytes_def decode_Some_iff)

lemma link_hash_ok:
  assumes "ext_ok X" and "decode X h (Some 32) \<noteq> None"
  shows "\<exists>k. link_hash X h i e ctx = Inr k \<and> decode X k (Some 32) \<noteq> None"
  using assms ext_okD(3) [OF assms(1)] by (auto simp: link_hash_def)

lemma link_hash_binds:
  assumes ok: "ext_ok X" and "link_hash X h i e ctx = Inr k" "link_hash X h' i e' ctx = Inr k"
  shows "(h = h' \<and> x_jcs X e = x_jcs X e') \<or> collide X (link_texts ctx X h i e) (link_texts ctx X h' i e')"
proof -
  from link_hash_run [OF ok assms(2)] obtain pb where
    pb: "decode X h (Some 32) = Some pb" "length pb = 32" "k = hash_bytes X (ctx @ pb @ be64 i @ x_sha256 X (x_jcs X e))" .
  from link_hash_run [OF ok assms(3)] obtain qb where
    qb: "decode X h' (Some 32) = Some qb" "length qb = 32" "k = hash_bytes X (ctx @ qb @ be64 i @ x_sha256 X (x_jcs X e'))" .
  from pb(3) qb(3) have eq: "x_sha256 X (ctx @ pb @ be64 i @ x_sha256 X (x_jcs X e)) = x_sha256 X (ctx @ qb @ be64 i @ x_sha256 X (x_jcs X e'))"
    using hash_bytes_inject [OF ok] by simp
  show ?thesis
  proof (cases "ctx @ pb @ be64 i @ x_sha256 X (x_jcs X e) = ctx @ qb @ be64 i @ x_sha256 X (x_jcs X e')")
    case True
    with pb(2) qb(2) have "pb = qb" and digest: "x_sha256 X (x_jcs X e) = x_sha256 X (x_jcs X e')" by auto
    with pb(1) qb(1) have "h = h'" by (metis decode_Some_iff)
    with digest show ?thesis by (auto simp: collide_def link_texts_def)
  next
    case False
    with eq pb(1) qb(1) show ?thesis by (simp add: collide_def link_texts_def)
  qed
qed

interpretation data_log: hash_link "\<lambda>X h i e. link_hash X h i e []" "link_texts []"
  by unfold_locales (rule link_hash_binds)

interpretation audit_log: hash_link "\<lambda>X h i e. link_hash X h i e CTX_TLINK" "link_texts CTX_TLINK"
  by unfold_locales (rule link_hash_binds)

subsection \<open>The logs of a chain\<close>

definition log_rows :: "chain \<Rightarrow> db \<Rightarrow> log_row list" where
  "log_rows c st = filter (\<lambda>r. l_chain r = ch_id c \<and> l_log r = ch_log_id c) (db_log st)"

definition log_link :: "log_row \<Rightarrow> link" where
  "log_link r = (l_seq r, l_entry r, l_hash r)"

definition audit_rows :: "chain \<Rightarrow> db \<Rightarrow> transparency_row list" where
  "audit_rows c st = filter (\<lambda>r. t_chain r = ch_id c \<and> t_id r = ch_transparency_id c) (db_transparency st)"

definition audit_link :: "transparency_row \<Rightarrow> link" where
  "audit_link r = (t_idx r, Some (t_entry r), t_hash r)"

text \<open>The texts that were hashed into the stored data log of a chain.\<close>

definition log_texts :: "ext \<Rightarrow> chain \<Rightarrow> db \<Rightarrow> string list" where
  "log_texts X c st = (case initial_hash X CTX_LOG (ch_id c) (ch_log_id c) None of Inl e \<Rightarrow> []
     | Inr h0 \<Rightarrow> hashed_by (link_texts [] X) h0 (map log_link (log_rows c st)))"

text \<open>
  The data log of a chain: one row per number from 1 to the head, linked from the initial hash to
  the chain's head hash, and with its entry present from \<^verbatim>\<open>min_available_seq\<close> on.
\<close>

definition log_ok :: "ext \<Rightarrow> chain \<Rightarrow> db \<Rightarrow> bool" where
  "log_ok X c st \<longleftrightarrow>
     (\<exists>h0. initial_hash X CTX_LOG (ch_id c) (ch_log_id c) None = Inr h0
        \<and> linked (\<lambda>h i e. link_hash X h i e []) h0 1 (map log_link (log_rows c st))
        \<and> ch_head_hash c = head_of h0 (map log_link (log_rows c st)))
     \<and> length (log_rows c st) = ch_head_seq c
     \<and> ch_head_seq c \<le> MAX_INTEGER
     \<and> 1 \<le> ch_min_available_seq c \<and> ch_min_available_seq c \<le> ch_head_seq c + 1
     \<and> (\<forall>r \<in> set (log_rows c st). ch_min_available_seq c \<le> l_seq r \<longrightarrow> l_entry r \<noteq> None)"

definition audit_ok :: "ext \<Rightarrow> config \<Rightarrow> chain \<Rightarrow> db \<Rightarrow> bool" where
  "audit_ok X cfg c st \<longleftrightarrow>
     (\<exists>h0. initial_hash X CTX_TLOG (ch_id c) (ch_transparency_id c) (Some (cfg_key_id cfg)) = Inr h0
        \<and> linked (\<lambda>h i e. link_hash X h i e CTX_TLINK) h0 1 (map audit_link (audit_rows c st))
        \<and> ch_transparency_hash c = head_of h0 (map audit_link (audit_rows c st)))
     \<and> length (audit_rows c st) = ch_transparency_index c
     \<and> ch_transparency_index c \<le> MAX_INTEGER
     \<and> (\<forall>r \<in> set (audit_rows c st). n_of (t_entry r) ''entry_index'' = t_idx r)"

definition chain_ok :: "ext \<Rightarrow> config \<Rightarrow> chain \<Rightarrow> db \<Rightarrow> bool" where
  "chain_ok X cfg c st \<longleftrightarrow> log_ok X c st \<and> audit_ok X cfg c st"

lemma log_ok_cong:
  "log_rows c st = log_rows d st' \<Longrightarrow> ch_id c = ch_id d \<Longrightarrow> ch_log_id c = ch_log_id d \<Longrightarrow> ch_head_hash c = ch_head_hash d \<Longrightarrow>
   ch_head_seq c = ch_head_seq d \<Longrightarrow> ch_min_available_seq c = ch_min_available_seq d \<Longrightarrow> log_ok X c st \<longleftrightarrow> log_ok X d st'"
  by (simp add: log_ok_def)

lemma audit_ok_cong:
  "audit_rows c st = audit_rows d st' \<Longrightarrow> ch_id c = ch_id d \<Longrightarrow> ch_transparency_id c = ch_transparency_id d \<Longrightarrow>
   ch_transparency_hash c = ch_transparency_hash d \<Longrightarrow> ch_transparency_index c = ch_transparency_index d \<Longrightarrow>
   audit_ok X cfg c st \<longleftrightarrow> audit_ok X cfg d st'"
  by (simp add: audit_ok_def)

subsection \<open>Every operation keeps the logs\<close>

lemma transparency_fields:
  assumes "transparency X cfg c op digest seq code st = (Inr (c', entry, hash), st')"
  shows "ch_id c' = ch_id c" "ch_log_id c' = ch_log_id c" "ch_head_seq c' = ch_head_seq c"
    "ch_head_hash c' = ch_head_hash c" "ch_min_available_seq c' = ch_min_available_seq c"
    "ch_transparency_id c' = ch_transparency_id c" "ch_parameters c' = ch_parameters c" "ch_epoch c' = ch_epoch c"
    "ch_transparency_index c' = ch_transparency_index c + 1"
  by (simp_all add: transparency_run(2) [OF assms])

lemma append_log_fields:
  assumes "append_log X c kind oid v st = (Inr (c', entry, received), st')" and "object_id v kind = Some oid"
  shows "ch_id c' = ch_id c" "ch_log_id c' = ch_log_id c" "ch_head_seq c' = ch_head_seq c + 1"
    "ch_min_available_seq c' = ch_min_available_seq c" "ch_transparency_id c' = ch_transparency_id c"
    "ch_parameters c' = ch_parameters c" "ch_epoch c' = ch_epoch c"
    "ch_transparency_index c' = ch_transparency_index c"
proof -
  obtain hh where "c' = c\<lparr>ch_head_hash := hh, ch_head_seq := ch_head_seq c + 1\<rparr>"
    using append_log_run(4) [OF assms] by blast
  then show "ch_id c' = ch_id c" "ch_log_id c' = ch_log_id c" "ch_head_seq c' = ch_head_seq c + 1"
    "ch_min_available_seq c' = ch_min_available_seq c" "ch_transparency_id c' = ch_transparency_id c"
    "ch_parameters c' = ch_parameters c" "ch_epoch c' = ch_epoch c"
    "ch_transparency_index c' = ch_transparency_index c"
    by simp_all
qed

lemma transparency_audit_ok:
  assumes "transparency X cfg c op digest seq code st = (Inr (c', entry, hash), st')" and "audit_ok X cfg c st"
  shows "audit_ok X cfg c' st'"
proof -
  note tr = transparency_run [OF assms(1)]
  let ?row = "\<lparr>t_chain = ch_id c, t_id = ch_transparency_id c, t_idx = ch_transparency_index c + 1, t_entry = entry, t_hash = hash\<rparr>"
  have rows: "audit_rows c' st' = audit_rows c st @ [?row]" by (simp add: audit_rows_def tr(2,4))
  from assms(2) obtain h0 where
    h0: "initial_hash X CTX_TLOG (ch_id c) (ch_transparency_id c) (Some (cfg_key_id cfg)) = Inr h0"
    "linked (\<lambda>h i e. link_hash X h i e CTX_TLINK) h0 1 (map audit_link (audit_rows c st))"
    "ch_transparency_hash c = head_of h0 (map audit_link (audit_rows c st))"
    "length (audit_rows c st) = ch_transparency_index c"
    by (auto simp: audit_ok_def)
  then have "linked (\<lambda>h i e. link_hash X h i e CTX_TLINK) h0 1 (map audit_link (audit_rows c' st'))"
    using tr(3) by (simp add: rows linked_append audit_link_def)
  moreover have c': "ch_transparency_index c' = ch_transparency_index c + 1" "ch_transparency_hash c' = hash"
    "ch_id c' = ch_id c" "ch_transparency_id c' = ch_transparency_id c"
    by (simp_all add: tr(2))
  moreover have "n_of entry ''entry_index'' = ch_transparency_index c + 1"
    using tr(1,8) by (simp add: n_of_def as_u64_def MAX_INTEGER_def)
  ultimately show ?thesis using h0 tr(1) assms(2) unfolding audit_ok_def rows c' by (auto simp: audit_link_def)
qed

lemma transparency_log_ok:
  assumes "transparency X cfg c op digest seq code st = (Inr (c', entry, hash), st')"
  shows "log_ok X c' st' \<longleftrightarrow> log_ok X c st"
  by (rule log_ok_cong) (simp_all add: transparency_run(2,4) [OF assms] log_rows_def)

lemma transparency_chain_ok:
  assumes "transparency X cfg c op digest seq code st = (Inr (c', entry, hash), st')" and "chain_ok X cfg c st"
  shows "chain_ok X cfg c' st'"
  using transparency_audit_ok [OF assms(1)] transparency_log_ok [OF assms(1)] assms(2) by (simp add: chain_ok_def)

lemma append_log_chain_ok:
  assumes "append_log X c kind oid v st = (Inr (c', entry, received), st')" and "object_id v kind = Some oid"
    and "chain_ok X cfg c st"
  shows "chain_ok X cfg c' st'"
proof -
  note lr = append_log_run [OF assms(1,2)]
  let ?row = "\<lparr>l_chain = ch_id c, l_log = ch_log_id c, l_seq = ch_head_seq c + 1, l_entry = Some entry, l_hash = ch_head_hash c'\<rparr>"
  obtain hh where c': "c' = c\<lparr>ch_head_hash := hh, ch_head_seq := ch_head_seq c + 1\<rparr>" using lr(4) by blast
  have rows: "log_rows c' st' = log_rows c st @ [?row]" using lr(5) by (auto simp: log_rows_def c')
  have audit: "audit_rows c' st' = audit_rows c st" using lr(5) by (auto simp: audit_rows_def c')
  from assms(3) obtain h0 where
    h0: "initial_hash X CTX_LOG (ch_id c) (ch_log_id c) None = Inr h0"
    "linked (\<lambda>h i e. link_hash X h i e []) h0 1 (map log_link (log_rows c st))"
    "ch_head_hash c = head_of h0 (map log_link (log_rows c st))"
    "length (log_rows c st) = ch_head_seq c"
    by (auto simp: chain_ok_def log_ok_def)
  then have "linked (\<lambda>h i e. link_hash X h i e []) h0 1 (map log_link (log_rows c' st'))"
    using lr(3) by (simp add: rows linked_append log_link_def)
  moreover have "ch_head_hash c' = head_of h0 (map log_link (log_rows c' st'))" by (simp add: rows log_link_def)
  ultimately have "log_ok X c' st'"
    using h0 lr(1) assms(3) rows by (auto simp: chain_ok_def log_ok_def c')
  moreover have "audit_ok X cfg c' st' \<longleftrightarrow> audit_ok X cfg c st"
    by (rule audit_ok_cong) (use audit in \<open>simp_all add: c'\<close>)
  ultimately show ?thesis using assms(3) by (simp add: chain_ok_def)
qed

lemma chain_ok_tables:
  assumes "db_log st' = db_log st" "db_transparency st' = db_transparency st"
  shows "chain_ok X cfg c st' \<longleftrightarrow> chain_ok X cfg c st"
proof -
  have "log_rows c st' = log_rows c st" "audit_rows c st' = audit_rows c st"
    using assms by (simp_all add: log_rows_def audit_rows_def)
  then show ?thesis by (simp add: chain_ok_def log_ok_def audit_ok_def)
qed

lemma append_new_chain_ok:
  assumes "append_new X cfg c kind oid v st = (Inr (c', entry, r), st')" and "object_id v kind = Some oid"
    and "chain_ok X cfg c st"
  shows "chain_ok X cfg c' st'"
proof (rule append_new_run [OF assms(1,2)])
  fix c1 received st1 te st2
  assume log: "append_log X c kind oid v st = (Inr (c1, entry, received), st1)"
    and tr: "transparency X cfg c1 ''accept'' (object_hash X v) (Some (ch_head_seq c1)) None st1
       = (Inr (c', te, ch_transparency_hash c'), st2)"
    and st': "st' = st2\<lparr>db_ids := db_ids st2 + 1, db_receipts := db_receipts st @ [\<lparr>r_chain = ch_id c', r_kind = kind,
       r_id = oid, r_log = ch_log_id c', r_seq = as_u64 (jget r ''relay_seq''), r_receipt = r\<rparr>]\<rparr>"
  have "chain_ok X cfg c' st2"
    by (rule transparency_chain_ok [OF tr append_log_chain_ok [OF log assms(2,3)]])
  then show "chain_ok X cfg c' st'" using chain_ok_tables [of st' st2] by (simp add: st')
qed

lemma append_entry_cases:
  assumes "append_entry X cfg c kind v st = (Inr (c', entry, r), st')"
  obtains (known) oid where "object_id v kind = Some oid" "c' = c" "st' = st"
      "append_known X c kind oid v st = (Inr (Some (entry, r)), st)"
    | (fresh) oid where "object_id v kind = Some oid" "append_known X c kind oid v st = (Inr None, st)"
      "append_new X cfg c kind oid v st = (Inr (c', entry, r), st')"
proof -
  from assms obtain oid known u where oid: "object_id v kind = Some oid"
    and k: "append_known X c kind oid v st = (Inr known, u)"
    and rest: "(case known of Some (e, r) \<Rightarrow> ret (c, e, r) | None \<Rightarrow> append_new X cfg c kind oid v) u = (Inr (c', entry, r), st')"
    by (auto simp: append_entry_def bindM_run)
  have "u = st" using read_onlyD [OF read_only_append_known k] .
  with k rest show ?thesis using that oid by (cases known) (auto split: prod.splits)
qed


lemma append_entry_chain_ok:
  assumes "append_entry X cfg c kind v st = (Inr (c', entry, r), st')" and "chain_ok X cfg c st"
  shows "chain_ok X cfg c' st'"
  using assms(1)
proof (cases rule: append_entry_cases)
  case (fresh oid)
  then show ?thesis using append_new_chain_ok assms(2) by blast
qed (use assms(2) in simp)

lemma jget_log_entry:
  "jget (log_entry seq received kind v) ''relay_seq'' = JNat seq"
  "jget (log_entry seq received kind v) ''object'' = v"
  "jget (log_entry seq received kind v) ''kind'' = JStr kind"
  by (simp_all add: log_entry_def jget_jobj Let_def)

text \<open>
  C7: accepting an object keeps both logs of the chain complete and linked up to their heads, and
  either answers from the store without any change or adds exactly the next entry, which carries the
  object and its number; the number never passes the largest exact JSON integer.
\<close>

theorem append_entry_extends_logs:
  assumes "append_entry X cfg c kind v st = (Inr (c', entry, r), st')" and "chain_ok X cfg c st"
  shows "chain_ok X cfg c' st' \<and> ch_head_seq c' \<le> MAX_INTEGER
    \<and> ((c' = c \<and> st' = st) \<or>
       (ch_head_seq c' = ch_head_seq c + 1 \<and> jget entry ''relay_seq'' = JNat (ch_head_seq c')
        \<and> jget entry ''object'' = v
        \<and> (\<exists>row. log_rows c' st' = log_rows c st @ [row] \<and> l_entry row = Some entry)))"
proof -
  have ok: "chain_ok X cfg c' st'" by (rule append_entry_chain_ok [OF assms])
  moreover have "(c' = c \<and> st' = st) \<or>
       (ch_head_seq c' = ch_head_seq c + 1 \<and> jget entry ''relay_seq'' = JNat (ch_head_seq c')
        \<and> jget entry ''object'' = v \<and> (\<exists>row. log_rows c' st' = log_rows c st @ [row] \<and> l_entry row = Some entry))"
    using assms(1)
  proof (cases rule: append_entry_cases)
    case (fresh oid)
    show ?thesis
    proof (rule append_new_run [OF fresh(3,1)])
      fix c1 received st1 te st2
      assume log: "append_log X c kind oid v st = (Inr (c1, entry, received), st1)"
        and tr: "transparency X cfg c1 ''accept'' (object_hash X v) (Some (ch_head_seq c1)) None st1
           = (Inr (c', te, ch_transparency_hash c'), st2)"
        and st': "st' = st2\<lparr>db_ids := db_ids st2 + 1, db_receipts := db_receipts st @ [\<lparr>r_chain = ch_id c', r_kind = kind,
           r_id = oid, r_log = ch_log_id c', r_seq = as_u64 (jget r ''relay_seq''), r_receipt = r\<rparr>]\<rparr>"
      note lr = append_log_run [OF log fresh(1)] and t = transparency_run [OF tr]
      note f = transparency_fields [OF tr] append_log_fields [OF log fresh(1)]
      have "\<exists>row. log_rows c' st' = log_rows c st @ [row] \<and> l_entry row = Some entry"
        using lr(5) t(4) st' by (auto simp: log_rows_def f)
      moreover have "ch_head_seq c' = ch_head_seq c + 1" using f by simp
      ultimately show ?thesis using lr(2) by (simp add: jget_log_entry)
    qed
  qed simp
  moreover from ok have "ch_head_seq c' \<le> MAX_INTEGER" by (simp add: chain_ok_def log_ok_def)
  ultimately show ?thesis by blast
qed

lemma demo_chain_ok: "chain_ok demo_fast demo_cfg demo_chain empty_db"
proof -
  have "initial_hash demo_fast CTX_LOG (ch_id demo_chain) (ch_log_id demo_chain) None = Inr demo_b32"
    "initial_hash demo_fast CTX_TLOG (ch_id demo_chain) (ch_transparency_id demo_chain) (Some (cfg_key_id demo_cfg)) = Inr demo_b32"
    by code_simp+
  then show ?thesis
    by (simp add: chain_ok_def log_ok_def audit_ok_def log_rows_def audit_rows_def empty_db_def demo_chain_def)
qed

theorem append_entry_extends_logs_witness:
  "\<exists>c' e r st'. append_entry demo_fast demo_cfg demo_chain ''device'' demo_device empty_db = (Inr (c', e, r), st')
     \<and> chain_ok demo_fast demo_cfg c' st' \<and> ch_head_seq c' = 1"
proof -
  obtain c' e r st' where
    run: "append_entry demo_fast demo_cfg demo_chain ''device'' demo_device empty_db = (Inr (c', e, r), st')"
    and seq: "ch_head_seq c' = 1"
    by (rule demo_append)
  from append_entry_extends_logs [OF run demo_chain_ok] run seq show ?thesis by blast
qed

text \<open>
  C12: the receipt of a newly accepted object is signed by the relay, names the object's hash and
  the entry's hash, and lets its holder recompute the new head from the previous one.
\<close>

theorem append_entry_receipt:
  assumes "append_entry X cfg c kind v st = (Inr (c', entry, r), st')" and "ch_head_seq c' \<noteq> ch_head_seq c"
  shows "jget r ''object_hash'' = JStr (object_hash X v) \<and> jget r ''entry_hash'' = JStr (object_hash X entry)
    \<and> jget r ''relay_seq'' = JNat (ch_head_seq c')
    \<and> jget r ''previous_head_hash'' = JStr (ch_head_hash c) \<and> jget r ''resulting_head_hash'' = JStr (ch_head_hash c')
    \<and> link_hash X (ch_head_hash c) (ch_head_seq c') entry [] = Inr (ch_head_hash c')
    \<and> (\<exists>sig m. jget r ''relay_signature'' = JStr sig \<and> signing_bytes X r CTX_RECEIPT ''relay_signature'' = Some m
        \<and> verify_signature X (x_b64enc X (x_public_key X (cfg_key cfg))) sig m = Some True)"
  using assms(1)
proof (cases rule: append_entry_cases)
  case (fresh oid)
  show ?thesis
  proof (rule append_new_run [OF fresh(3,1)])
    fix c1 received st1 te st2
    assume log: "append_log X c kind oid v st = (Inr (c1, entry, received), st1)"
      and tr: "transparency X cfg c1 ''accept'' (object_hash X v) (Some (ch_head_seq c1)) None st1
         = (Inr (c', te, ch_transparency_hash c'), st2)"
      and mk: "make_receipt X cfg c' v \<lparr>rl_seq = Some (ch_head_seq c1), rl_entry_hash = Some (object_hash X entry),
         rl_previous = ch_head_hash c, rl_received = received, rl_hash = ch_transparency_hash c'\<rparr> st2
         = (Inr r, st2\<lparr>db_ids := db_ids st2 + 1\<rparr>)"
    note lr = append_log_run [OF log fresh(1)] and t = transparency_run [OF tr] and mr = make_receipt_run [OF mk]
    have c': "ch_head_seq c' = ch_head_seq c1" "ch_head_hash c' = ch_head_hash c1" "ch_head_seq c1 = ch_head_seq c + 1"
      using transparency_fields [OF tr] append_log_fields [OF log fresh(1)] by simp_all
    from mr(10) obtain e where e: "sign_relay X (cfg_key cfg) e CTX_RECEIPT = Some r" by blast
    then have "\<exists>sig m. jget r ''relay_signature'' = JStr sig \<and> signing_bytes X r CTX_RECEIPT ''relay_signature'' = Some m
        \<and> verify_signature X (x_b64enc X (x_public_key X (cfg_key cfg))) sig m = Some True"
      using sign_relay_sound [OF e] by blast
    with mr c' lr(3) show ?thesis by (simp add: jopt_def)
  qed
qed (use assms(2) in simp)

theorem append_entry_receipt_witness:
  "\<exists>c' e r st'. append_entry demo_fast demo_cfg demo_chain ''device'' demo_device empty_db = (Inr (c', e, r), st')
     \<and> jget r ''resulting_head_hash'' = JStr (ch_head_hash c')"
proof -
  obtain c' e r st' where
    run: "append_entry demo_fast demo_cfg demo_chain ''device'' demo_device empty_db = (Inr (c', e, r), st')"
    and seq: "ch_head_seq c' = 1"
    by (rule demo_append)
  have "ch_head_seq c' \<noteq> ch_head_seq demo_chain" using seq by (simp add: demo_chain_def)
  from append_entry_receipt [OF run this] run show ?thesis by blast
qed

subsection \<open>Tamper evidence\<close>

lemma log_suffix:
  assumes ok: "log_ok X c st" and m: "ch_min_available_seq c \<le> m" "m \<le> ch_head_seq c"
  shows "\<exists>p. linked (\<lambda>h i e. link_hash X h i e []) p m (map log_link (drop (m - 1) (log_rows c st)))
    \<and> head_of p (map log_link (drop (m - 1) (log_rows c st))) = ch_head_hash c
    \<and> (\<forall>l \<in> set (map log_link (drop (m - 1) (log_rows c st))). fst (snd l) \<noteq> None)
    \<and> set (hashed_by (link_texts [] X) p (map log_link (drop (m - 1) (log_rows c st)))) \<subseteq> set (log_texts X c st)"
proof -
  let ?rows = "log_rows c st" and ?lk = "\<lambda>h i e. link_hash X h i e []"
  from ok obtain h0 where h0: "linked ?lk h0 1 (map log_link ?rows)" "ch_head_hash c = head_of h0 (map log_link ?rows)"
    and init: "initial_hash X CTX_LOG (ch_id c) (ch_log_id c) None = Inr h0"
    and len: "length ?rows = ch_head_seq c" "1 \<le> ch_min_available_seq c"
    and present: "\<forall>r \<in> set ?rows. ch_min_available_seq c \<le> l_seq r \<longrightarrow> l_entry r \<noteq> None"
    by (auto simp: log_ok_def)
  let ?xs = "map log_link (take (m - 1) ?rows)" and ?ys = "map log_link (drop (m - 1) ?rows)"
  have rows: "map log_link ?rows = ?xs @ ?ys" by (metis append_take_drop_id map_append)
  have "1 + length ?xs = m" using m len by simp
  then have ys: "linked ?lk (head_of h0 ?xs) m ?ys" using h0(1) unfolding rows linked_append by metis
  have "map l_seq (drop (m - 1) ?rows) = [m..<m + length ?ys]"
    using linked_numbers [OF ys] by (simp add: log_link_def comp_def)
  then have "\<forall>r \<in> set (drop (m - 1) ?rows). m \<le> l_seq r"
    by (metis atLeastLessThan_iff image_eqI list.set_map set_upt)
  then have "\<forall>r \<in> set (drop (m - 1) ?rows). l_entry r \<noteq> None"
    using present m(1) by (meson in_set_dropD order_trans)
  moreover have "head_of (head_of h0 ?xs) ?ys = ch_head_hash c" using h0(2) unfolding rows head_of_append by simp
  moreover have "log_texts X c st = hashed_by (link_texts [] X) h0 ?xs @ hashed_by (link_texts [] X) (head_of h0 ?xs) ?ys"
    by (simp only: log_texts_def init sum.case rows hashed_by_append)
  ultimately show ?thesis using ys by (auto simp: log_link_def)
qed

text \<open>
  C8: two stores whose data logs of a chain end in the same number and the same head hash hold
  the same serialised entries from the first number that both still keep, or the difference is a
  SHA-256 collision between the logs themselves: a text hashed into the one log and a different
  text hashed into the other (a serialised entry, or a link with its decoded predecessor, number and
  entry digest) have the same digest.
\<close>

theorem data_log_tamper_evident:
  assumes "ext_ok X" and "log_ok X c st" "log_ok X d st'"
    and "ch_head_seq c = ch_head_seq d" "ch_head_hash c = ch_head_hash d"
    and "ch_min_available_seq c \<le> m" "ch_min_available_seq d \<le> m"
  shows "list_all2 (\<lambda>r r'. x_jcs X (the (l_entry r)) = x_jcs X (the (l_entry r')))
      (drop (m - 1) (log_rows c st)) (drop (m - 1) (log_rows d st'))
    \<or> (\<exists>a \<in> set (log_texts X c st). \<exists>b \<in> set (log_texts X d st'). a \<noteq> b \<and> x_sha256 X a = x_sha256 X b)"
proof (cases "m \<le> ch_head_seq c")
  case True
  obtain p where p: "linked (\<lambda>h i e. link_hash X h i e []) p m (map log_link (drop (m - 1) (log_rows c st)))"
    "head_of p (map log_link (drop (m - 1) (log_rows c st))) = ch_head_hash c"
    "\<forall>l \<in> set (map log_link (drop (m - 1) (log_rows c st))). fst (snd l) \<noteq> None"
    "set (hashed_by (link_texts [] X) p (map log_link (drop (m - 1) (log_rows c st)))) \<subseteq> set (log_texts X c st)"
    using log_suffix [OF assms(2,6) True] by blast
  obtain q where q: "linked (\<lambda>h i e. link_hash X h i e []) q m (map log_link (drop (m - 1) (log_rows d st')))"
    "head_of q (map log_link (drop (m - 1) (log_rows d st'))) = ch_head_hash d"
    "\<forall>l \<in> set (map log_link (drop (m - 1) (log_rows d st'))). fst (snd l) \<noteq> None"
    "set (hashed_by (link_texts [] X) q (map log_link (drop (m - 1) (log_rows d st')))) \<subseteq> set (log_texts X d st')"
    using log_suffix [OF assms(3,7)] True assms(4) by auto
  have len: "length (map log_link (drop (m - 1) (log_rows c st))) = length (map log_link (drop (m - 1) (log_rows d st')))"
    using assms(2,3,4) by (simp add: log_ok_def)
  have "head_of p (map log_link (drop (m - 1) (log_rows c st))) = head_of q (map log_link (drop (m - 1) (log_rows d st')))"
    using p(2) q(2) assms(5) by simp
  from data_log.same_head_same_entries [OF assms(1) p(1) q(1) len this p(3) q(3)]
  have "list_all2 (\<lambda>r r'. x_jcs X (the (l_entry r)) = x_jcs X (the (l_entry r')))
      (drop (m - 1) (log_rows c st)) (drop (m - 1) (log_rows d st')) \<or> collide X (log_texts X c st) (log_texts X d st')"
    using collide_mono [OF _ p(4) q(4)] by (auto simp: list_all2_map1 list_all2_map2 log_link_def)
  then show ?thesis unfolding collide_def .
next
  case False
  with assms(2,3,4) show ?thesis by (simp add: log_ok_def)
qed

theorem data_log_tamper_evident_witness:
  "\<exists>c st. length (log_rows c st) = 1 \<and> log_ok demo_ext c st
     \<and> (list_all2 (\<lambda>r r'. x_jcs demo_ext (the (l_entry r)) = x_jcs demo_ext (the (l_entry r')))
          (drop (1 - 1) (log_rows c st)) (drop (1 - 1) (log_rows c st))
        \<or> (\<exists>a \<in> set (log_texts demo_ext c st). \<exists>b \<in> set (log_texts demo_ext c st).
             a \<noteq> b \<and> x_sha256 demo_ext a = x_sha256 demo_ext b))"
proof -
  let ?id = "x_b64enc demo_ext (replicate 32 CHR ''a'')" and ?log = "oct_enc (demo_fresh 0)"
  have "x_uuid_parse demo_ext ?log = Some (demo_fresh 0)" by (simp add: demo_ext_def)
  then have "\<exists>h0. initial_hash demo_ext CTX_LOG ?id ?log None = Inr h0 \<and> decode demo_ext h0 (Some 32) \<noteq> None"
    by (simp add: initial_hash_def demo_ext_ok)
  then obtain h0 where h0: "initial_hash demo_ext CTX_LOG ?id ?log None = Inr h0" "decode demo_ext h0 (Some 32) \<noteq> None"
    by blast
  from link_hash_ok [OF demo_ext_ok h0(2)] obtain h1 where h1: "link_hash demo_ext h0 1 JNull [] = Inr h1" by blast
  let ?c = "demo_chain\<lparr>ch_id := ?id, ch_log_id := ?log, ch_head_seq := 1, ch_head_hash := h1\<rparr>"
  let ?st = "empty_db\<lparr>db_log := [\<lparr>l_chain = ?id, l_log = ?log, l_seq = 1, l_entry = Some JNull, l_hash = h1\<rparr>]\<rparr>"
  have ok: "log_ok demo_ext ?c ?st" and len: "length (log_rows ?c ?st) = 1"
    using h0(1) h1 by (auto simp: log_ok_def log_rows_def log_link_def demo_chain_def MAX_INTEGER_def)
  have min: "ch_min_available_seq ?c \<le> 1" by (simp add: demo_chain_def)
  from data_log_tamper_evident [OF demo_ext_ok ok ok refl refl min min] ok len show ?thesis by blast
qed

subsection \<open>Rules for handlers\<close>

text \<open>What holds after every successful run; a failed run is rolled back by the caller.\<close>

abbreviation wps :: "('s, 'a) M \<Rightarrow> ('a \<Rightarrow> 's \<Rightarrow> bool) \<Rightarrow> 's \<Rightarrow> bool" where
  "wps m Q st \<equiv> wp m Q (\<lambda>_ _. True) st"

lemma wps_run: "(\<And>x st'. m st = (Inr x, st') \<Longrightarrow> Q x st') \<Longrightarrow> wps m Q st"
  by (rule wpI) auto

lemma wps_read_only: "read_only m \<Longrightarrow> (\<And>x. m st = (Inr x, st) \<Longrightarrow> Q x st) \<Longrightarrow> wps m Q st"
  by (rule wps_run) (metis read_onlyD)

text \<open>
  Introduction rules that step through a handler: the first applicable one is taken, a computation
  that only reads is skipped with an arbitrary result.
\<close>

lemma wp_bindI: "wp m (\<lambda>x. wp (f x) Q E) E st \<Longrightarrow> wp (bindM m f) Q E st"
  by simp

lemma wp_retI: "Q x st \<Longrightarrow> wp (ret x) Q E st"
  by simp

lemma wp_nowI: "Q (x_clock X (db_tick st)) (st\<lparr>db_tick := db_tick st + 1\<rparr>) \<Longrightarrow> wp (now X) Q E st"
  by simp

lemma wp_new_idI: "Q (x_uuid_str X (x_fresh X (db_ids st))) (st\<lparr>db_ids := db_ids st + 1\<rparr>) \<Longrightarrow> wp (new_id X) Q E st"
  by simp

lemma wp_caseI:
  "(\<And>y z. p = (y, z) \<Longrightarrow> wp (f y z) Q E st) \<Longrightarrow> wp (case p of (y, z) \<Rightarrow> f y z) Q E st"
  by (cases p) simp

lemma wp_optionI:
  "(opt = None \<Longrightarrow> wp a Q E st) \<Longrightarrow> (\<And>y. opt = Some y \<Longrightarrow> wp (f y) Q E st) \<Longrightarrow>
   wp (case opt of None \<Rightarrow> a | Some y \<Rightarrow> f y) Q E st"
  by (cases opt) simp_all

lemma wp_ifI: "(b \<Longrightarrow> wp m Q E st) \<Longrightarrow> (\<not> b \<Longrightarrow> wp m' Q E st) \<Longrightarrow> wp (if b then m else m') Q E st"
  by simp

lemmas wp_intros = wp_bindI wp_retI wp_nowI wp_new_idI wp_caseI wp_optionI wp_ifI

lemma wp_read_only_both:
  "read_only m \<Longrightarrow> P st \<Longrightarrow> (\<And>x. m st = (Inr x, st) \<Longrightarrow> Q x st) \<Longrightarrow> wp m Q (\<lambda>_. P) st"
  by (rule wpI) (metis read_onlyD)+

lemma wps_transparency:
  assumes "chain_ok X cfg c st"
    and "\<And>c' e h st'. transparency X cfg c op digest seq code st = (Inr (c', e, h), st') \<Longrightarrow> chain_ok X cfg c' st' \<Longrightarrow> Q (c', e, h) st'"
  shows "wps (transparency X cfg c op digest seq code) Q st"
proof (rule wps_run)
  fix x st' assume run: "transparency X cfg c op digest seq code st = (Inr x, st')"
  obtain c' e h where x: "x = (c', e, h)" by (cases x)
  from run show "Q x st'" using assms transparency_chain_ok unfolding x by blast
qed

lemma wps_append:
  assumes "chain_ok X cfg c st"
    and "\<And>c' e r st'. append_entry X cfg c kind v st = (Inr (c', e, r), st') \<Longrightarrow> chain_ok X cfg c' st' \<Longrightarrow> Q (c', e, r) st'"
  shows "wps (append_entry X cfg c kind v) Q st"
proof (rule wps_run)
  fix x st' assume run: "append_entry X cfg c kind v st = (Inr x, st')"
  obtain c' e r where x: "x = (c', e, r)" by (cases x)
  from run show "Q x st'" using assms append_entry_chain_ok unfolding x by blast
qed

subsection \<open>A new chain\<close>

lemma initial_hash_decodes:
  "ext_ok X \<Longrightarrow> initial_hash X ctx chain i key = Inr h \<Longrightarrow> decode X h (Some 32) \<noteq> None"
  by (auto simp: initial_hash_def)

lemma chain_new_run:
  assumes "chain_new X cfg p e lid st = (Inr c, st')"
  shows "ch_id c = s_of p ''chain_id''" "ch_parameters c = p" "ch_epoch c = e" "ch_head_seq c = 0"
    "ch_transparency_index c = 0" "ch_min_available_seq c = 1" "db_log st' = db_log st"
    "db_transparency st' = db_transparency st"
    "initial_hash X CTX_LOG (ch_id c) (ch_log_id c) None = Inr (ch_head_hash c)"
    "initial_hash X CTX_TLOG (ch_id c) (ch_transparency_id c) (Some (cfg_key_id cfg)) = Inr (ch_transparency_hash c)"
  using assms by (auto simp: chain_new_def bindM_run Let_def split: option.splits)

lemma chain_new_ok:
  assumes "chain_new X cfg p e lid st = (Inr c, st')"
    and "log_rows c st = []" "audit_rows c st = []"
  shows "chain_ok X cfg c st'"
proof -
  note f = chain_new_run [OF assms(1)]
  have "log_rows c st' = []" "audit_rows c st' = []"
    using assms(2,3) f(7,8) by (simp_all add: log_rows_def audit_rows_def)
  then show ?thesis using f by (auto simp: chain_ok_def log_ok_def audit_ok_def)
qed

lemma snapshot_part_chain_ok:
  assumes "snapshot_part X cfg c v st = (Inr (c', r), st')" and "chain_ok X cfg c st"
  shows "chain_ok X cfg c' st'"
proof -
  from assms(1) obtain fresh st1 where put: "put_object X (ch_id c) ''snapshot_part'' v None st = (Inr fresh, st1)"
    by (auto simp: snapshot_part_def bindM_run)
  have st1: "db_log st1 = db_log st" "db_transparency st1 = db_transparency st"
    using put_object_run(2,4) [OF put] by (cases fresh; auto simp: object_id_def record_kind_def)+
  with assms(2) have ok1: "chain_ok X cfg c st1" using chain_ok_tables by blast
  show ?thesis
  proof (cases fresh)
    case False
    with assms(1) put have "c' = c" "st' = st1"
      by (auto simp: snapshot_part_def bindM_run receipt_def select_one_def split: option.splits)
    with ok1 show ?thesis by simp
  next
    case True
    with assms(1) put obtain te th st2 st3 st4 received where
      tr: "transparency X cfg c ''accept'' (object_hash X v) None None st1 = (Inr (c', te, th), st2)" and
      mk: "make_receipt X cfg c' v \<lparr>rl_seq = None, rl_entry_hash = None, rl_previous = ch_head_hash c',
          rl_received = received, rl_hash = th\<rparr> st3 = (Inr r, st4)" and
      st3: "st3 = st2\<lparr>db_tick := db_tick st2 + 1\<rparr>" and
      st': "store_receipt c' ''snapshot_part'' (s_of v ''record_id'') r st4 = (Inr (), st')"
      by (auto simp: snapshot_part_def bindM_run)
    have "db_log st' = db_log st2" "db_transparency st' = db_transparency st2"
      using st' make_receipt_run(1) [OF mk] st3 by (auto simp: store_receipt_def insert_row_run)
    then show ?thesis using transparency_chain_ok [OF tr ok1] chain_ok_tables by blast
  qed
qed

lemma publish_notice_chain_ok:
  assumes "chain_ok X cfg c st"
  shows "wps (publish_notice X cfg c) (chain_ok X cfg) st"
proof -
  have st1: "chain_ok X cfg c (st\<lparr>db_ids := i, db_tick := t\<rparr>)" for i t
    using assms chain_ok_tables [of "st\<lparr>db_ids := i, db_tick := t\<rparr>" st] by simp
  have upd: "chain_ok X cfg c' (db_notices_update f st')" if "chain_ok X cfg c' st'" for c' st' f
    using that chain_ok_tables [of "db_notices_update f st'" st'] by simp
  show ?thesis
    unfolding publish_notice_def Let_def
    by (auto simp: assms intro!: wps_transparency [OF st1] upd)
qed

lemma save_keeps_logs:
  "wps (save X cfg c) (\<lambda>_ st'. db_log st' = db_log st \<and> db_transparency st' = db_transparency st) st"
proof -
  let ?Q = "\<lambda>st'. db_log st' = db_log st \<and> db_transparency st' = db_transparency st"
  have ign: "wps (insert_ignore db_heads db_heads_update clash r) Q u" if "\<And>b u'. ?Q u' \<Longrightarrow> Q b u'" "?Q u" for clash r Q u
    using that by simp
  have ups: "wps (upsert_row db_chains db_chains_update clash r) Q u" if "\<And>b u'. ?Q u' \<Longrightarrow> Q b u'" "?Q u" for clash r Q u
    using that by simp
  have q: "wps (quota X cfg ci) (\<lambda>_. ?Q) u" if "?Q u" for ci u
    using that by (simp add: quota_def wp_lift)
  show ?thesis
    unfolding save_def
    by (intro wp_intros ign ups q wps_read_only read_only_basic; simp)
qed

end
