(* ===== verification/Relay_Auth.thy ===== *)
theory Relay_Auth
  imports Relay_Log
begin

text \<open>
  \<^verbatim>\<open>src/api/auth.rs\<close>: capability tokens, replay protection, rate limiting and the lifecycle state of a
  signing device.
\<close>

record auth =
  a_token :: json
  a_device :: "string option"

definition admin :: "auth \<Rightarrow> bool" where
  "admin a \<longleftrightarrow> a_device a = None"

definition require_admin :: "auth \<Rightarrow> unit res" where
  "require_admin a = reject (\<not> admin a) ''ADMIN_REQUIRED''"

definition owns :: "auth \<Rightarrow> string \<Rightarrow> bool" where
  "owns a oid \<longleftrightarrow> admin a \<or> a_device a = Some oid"

subsection \<open>Rate limiting\<close>

text \<open>
  The token bucket computes in \<^verbatim>\<open>f64\<close>: every operation is the exact one followed by the rounding
  \<open>x_round\<close>. \<open>f64_as_u64\<close> is \<^verbatim>\<open>as u64\<close> on an integral value: it saturates.
\<close>

definition f64_as_u64 :: "int \<Rightarrow> nat" where
  "f64_as_u64 i = min (nat i) (2 ^ 64 - 1)"

definition burst_of :: "ext \<Rightarrow> json \<Rightarrow> rat" where
  "burst_of X policy = x_round X (of_nat (n_of policy ''burst''))"

definition refill_of :: "ext \<Rightarrow> json \<Rightarrow> rat" where
  "refill_of X policy = x_round X (x_round X (of_nat (n_of policy ''requests_per_minute'')) / 60000)"

definition refilled :: "ext \<Rightarrow> rat \<Rightarrow> rat \<Rightarrow> rat \<Rightarrow> nat \<Rightarrow> nat \<Rightarrow> rat" where
  "refilled X burst refill old time t =
     min (x_round X (old + x_round X (x_round X (of_nat (t - time)) * refill))) burst"

definition retry_ms :: "ext \<Rightarrow> rat \<Rightarrow> rat \<Rightarrow> nat" where
  "retry_ms X tokens refill =
     (if refill = 0 then 2 ^ 64 - 1
      else f64_as_u64 \<lceil>x_round X (x_round X (1 - tokens) / refill)\<rceil>)"

definition rate :: "ext \<Rightarrow> config \<Rightarrow> string \<Rightarrow> string \<Rightarrow> unit tx" where
  "rate X cfg scope identity =
     (let policy = jget (jget (cfg_privacy cfg) ''rate_limits'') scope;
          burst = burst_of X policy; refill = refill_of X policy in
      bindM (now X) (\<lambda>t.
      bindM (select_opt db_rates (\<lambda>r. rate_key r = (scope, identity))) (\<lambda>row.
      let tokens = (case row of None \<Rightarrow> burst | Some r \<Rightarrow> refilled X burst refill (q_tokens r) (q_updated r) t) in
      if tokens < 1
      then lift (Inl (Err ''RATE_LIMITED'' (Some (jobj [(''retry_after_ms'', JNat (retry_ms X tokens refill)),
             (''scope'', JStr scope)]))))
      else upsert_row db_rates db_rates_update (same rate_key)
             \<lparr>q_scope = scope, q_identity = identity, q_tokens = x_round X (tokens - 1), q_updated = t\<rparr>)))"

subsection \<open>Capability tokens\<close>

text \<open>
  The request as the HTTP layer hands it over. The authorization header is absent, present but not
  text, or a string.
\<close>

record auth_request =
  rq_authorization :: "string option option"
  rq_method :: string
  rq_path :: string
  rq_query :: "string option"
  rq_body :: bytes
  rq_chain :: string
  rq_proposed_key :: "string option"
  rq_route :: string

definition token_fields :: "(string \<times> string) list" where
  "token_fields =
     [(''v'', ''int''), (''aud'', ''string''), (''chain_id'', ''b32''), (''signer_kind'', ''device|admin''),
      (''device_id'', ''uuid?''), (''method'', ''string''), (''path'', ''string''), (''query'', ''string''),
      (''body_sha256'', ''b32''), (''issued_at_ms'', ''int''), (''expires_at_ms'', ''int''), (''nonce'', ''b16'')]"

text \<open>The first part of \<^verbatim>\<open>authenticate\<close>: the header is the canonical text of a well-formed token.\<close>

definition read_token :: "ext \<Rightarrow> auth_request \<Rightarrow> json res" where
  "read_token X rq =
     rbind (ok_or ''TOKEN_REQUIRED'' (rq_authorization rq)) (\<lambda>hdr.
     rbind (ok_or ''TOKEN_SIGNATURE_INVALID'' hdr) (\<lambda>h.
     rbind (ok_or ''TOKEN_REQUIRED'' (strip_prefix ''PallaSync '' h)) (\<lambda>raw.
     rbind (ok_or ''TOKEN_SIGNATURE_INVALID'' (decode X raw None)) (\<lambda>bytes.
     rbind (case parse X bytes of Inl e \<Rightarrow> Inl (err ''TOKEN_SIGNATURE_INVALID'') | Inr v \<Rightarrow> Inr v) (\<lambda>token.
     rbind (map_err ''TOKEN_SIGNATURE_INVALID'' (signed X token token_fields)) (\<lambda>_.
     rbind (reject (bytes \<noteq> canonicalize_json X token \<or> n_of token ''v'' \<noteq> 3
        \<or> (s_of token ''signer_kind'' = ''admin'') \<noteq> (jget token ''device_id'' = JNull)) ''TOKEN_SIGNATURE_INVALID'') (\<lambda>_.
     Inr token)))))))"

definition check_binding :: "ext \<Rightarrow> config \<Rightarrow> auth_request \<Rightarrow> json \<Rightarrow> unit res" where
  "check_binding X cfg rq token =
     rbind (canonical_query (case rq_query rq of None \<Rightarrow> [] | Some q \<Rightarrow> q)) (\<lambda>q.
     reject (s_of token ''aud'' \<noteq> cfg_origin cfg \<or> s_of token ''chain_id'' \<noteq> rq_chain rq
        \<or> s_of token ''method'' \<noteq> rq_method rq \<or> s_of token ''path'' \<noteq> rq_path rq
        \<or> s_of token ''query'' \<noteq> query_string q \<or> s_of token ''body_sha256'' \<noteq> hash_bytes X (rq_body rq))
       ''TOKEN_BINDING_MISMATCH'')"

definition check_times :: "nat \<Rightarrow> json \<Rightarrow> unit res" where
  "check_times t token =
     (let issued = n_of token ''issued_at_ms''; expires = n_of token ''expires_at_ms'' in
      rbind (reject (issued \<ge> expires) ''TOKEN_SIGNATURE_INVALID'') (\<lambda>_.
      rbind (reject (expires - issued > 300000) ''TOKEN_TTL_TOO_LONG'') (\<lambda>_.
      if issued > t + 60000
      then Inl (Err ''TOKEN_NOT_YET_VALID'' (Some (jobj [(''retry_after_ms'', JNat (issued - t - 60000))])))
      else reject (t > expires + 60000) ''TOKEN_EXPIRED'')))"

text \<open>
  The key the token must be signed with, and the device record with its registry status when the
  signer is a device of a live chain.
\<close>

definition token_key ::
    "string \<Rightarrow> string option \<Rightarrow> string option \<Rightarrow> chain option \<Rightarrow> (string \<times> (json \<times> string) option) tx" where
  "token_key chain_id device proposed c =
     bindM (select_opt db_deletions (\<lambda>r. d_chain r = chain_id)) (\<lambda>deletion.
     case deletion of
       Some d \<Rightarrow>
         (case device of
            Some oid \<Rightarrow>
              bindM (rejectM (d_device d \<noteq> Some oid) ''TOKEN_SIGNATURE_INVALID'') (\<lambda>_.
              bindM (lift (ok_or ''DEVICE_UNKNOWN'' (d_device_key d))) (\<lambda>k. ret (k, None)))
          | None \<Rightarrow> ret (d_admin_key d, None))
     | None \<Rightarrow>
         (case c of
            Some c \<Rightarrow>
              (case device of
                 Some oid \<Rightarrow>
                   bindM (object chain_id ''device'' oid) (\<lambda>body.
                   bindM (lift (ok_or ''TOKEN_SIGNATURE_INVALID'' body)) (\<lambda>d.
                   bindM (select_opt db_registry (\<lambda>r. registry_key r = (chain_id, oid))) (\<lambda>row.
                   ret (s_of d ''device_public_key'',
                        Some (d, case row of None \<Rightarrow> ''unknown'' | Some r \<Rightarrow> g_status r)))))
               | None \<Rightarrow> ret (s_of (ch_parameters c) ''admin_public_key'', None))
          | None \<Rightarrow>
              (case proposed of
                 Some key \<Rightarrow> ret (key, None)
               | None \<Rightarrow> lift (Inl (err ''TOKEN_SIGNATURE_INVALID'')))))"

definition check_barrier :: "config \<Rightarrow> nat \<Rightarrow> unit tx" where
  "check_barrier cfg issued =
     (if jget (jget (cfg_privacy cfg) ''replay_protection'') ''mode'' = JStr ''restart_barrier''
      then bindM (gets db_barrier) (\<lambda>row.
           case row of
             None \<Rightarrow> lift (Inl sql_error)
           | Some barrier \<Rightarrow>
               if issued < barrier
               then lift (Inl (Err ''TOKEN_NOT_YET_VALID'' (Some (jobj [(''retry_after_ms'', JNat (barrier - issued))]))))
               else ret ())
      else ret ())"

definition nonce_row_of :: "string \<Rightarrow> json \<Rightarrow> string option \<Rightarrow> nonce_row" where
  "nonce_row_of chain_id token device =
     \<lparr>n_chain = chain_id, n_kind = s_of token ''signer_kind'', n_device = (case device of None \<Rightarrow> [] | Some d \<Rightarrow> d),
      n_nonce = s_of token ''nonce'', n_expires = n_of token ''expires_at_ms'' + 60000\<rparr>"

definition reserve_nonce :: "string \<Rightarrow> json \<Rightarrow> string option \<Rightarrow> nat \<Rightarrow> unit tx" where
  "reserve_nonce chain_id token device t =
     bindM (delete_rows db_nonces_update (\<lambda>r. n_expires r < t)) (\<lambda>_.
     bindM (insert_ignore db_nonces db_nonces_update (same nonce_key) (nonce_row_of chain_id token device)) (\<lambda>added.
     rejectM (\<not> added) ''TOKEN_REPLAYED''))"

definition pending_routes :: "string list" where
  "pending_routes = [''parameters_get'', ''epochs_get'', ''epoch_get'', ''own_envelopes'', ''ack'']"

definition check_lifecycle :: "string \<Rightarrow> chain option \<Rightarrow> (json \<times> string) option \<Rightarrow> unit res" where
  "check_lifecycle route c device_state =
     (case device_state of
        None \<Rightarrow> Inr ()
      | Some (d, state) \<Rightarrow>
          rbind (unwrap c) (\<lambda>c.
          rbind (reject (n_of d ''generation'' \<noteq> generation c) ''GENERATION_MISMATCH'') (\<lambda>_.
          rbind (reject (state = ''revoked'') ''DEVICE_REVOKED'') (\<lambda>_.
          rbind (reject (state = ''unknown'') ''DEVICE_UNKNOWN'') (\<lambda>_.
          reject (state = ''pending_keys'' \<and> route \<notin> set pending_routes) ''DEVICE_PENDING_KEYS'')))))"

definition authenticate :: "ext \<Rightarrow> config \<Rightarrow> auth_request \<Rightarrow> auth tx" where
  "authenticate X cfg rq =
     bindM (lift (read_token X rq)) (\<lambda>token.
     bindM (lift (check_binding X cfg rq token)) (\<lambda>_.
     bindM (now X) (\<lambda>t.
     bindM (lift (check_times t token)) (\<lambda>_.
     let device = as_str (jget token ''device_id'') in
     bindM (rejectM (rq_proposed_key rq \<noteq> None \<and> device \<noteq> None) ''ADMIN_REQUIRED'') (\<lambda>_.
     bindM (load (rq_chain rq)) (\<lambda>c.
     bindM (token_key (rq_chain rq) device (rq_proposed_key rq) c) (\<lambda>(key, device_state).
     bindM (rejectM (verify_signed_json X key (s_of token ''signature'') token CTX_CAPABILITY \<noteq> Some True)
        ''TOKEN_SIGNATURE_INVALID'') (\<lambda>_.
     bindM (check_barrier cfg (n_of token ''issued_at_ms'')) (\<lambda>_.
     bindM (reserve_nonce (rq_chain rq) token device t) (\<lambda>_.
     bindM (lift (check_lifecycle (rq_route rq) c device_state)) (\<lambda>_.
     bindM (rate X cfg ''authorized_signer''
        (rq_chain rq @ '':'' @ s_of token ''signer_kind'' @ '':'' @ (case device of None \<Rightarrow> [] | Some d \<Rightarrow> d))) (\<lambda>_.
     ret \<lparr>a_token = token, a_device = device\<rparr>))))))))))))"

subsection \<open>Devices that may sign\<close>

definition active_device :: "chain \<Rightarrow> string \<Rightarrow> string tx" where
  "active_device c oid =
     bindM (object (ch_id c) ''device'' oid) (\<lambda>body.
     bindM (lift (ok_or ''DEVICE_UNKNOWN'' body)) (\<lambda>d.
     bindM (rejectM (n_of d ''generation'' \<noteq> generation c) ''GENERATION_MISMATCH'') (\<lambda>_.
     bindM (select_one db_registry (\<lambda>r. registry_key r = (ch_id c, oid))) (\<lambda>row.
     bindM (rejectM (g_status row \<noteq> ''active'')
        (if g_status row = ''revoked'' then ''DEVICE_REVOKED'' else ''DEVICE_PENDING_KEYS'')) (\<lambda>_.
     ret (s_of d ''device_public_key''))))))"

definition signing_key :: "chain \<Rightarrow> json \<Rightarrow> string tx" where
  "signing_key c v =
     (if s_of v ''signer_kind'' = ''admin'' then ret (s_of (ch_parameters c) ''admin_public_key'')
      else active_device c (s_of v ''signer_device_id''))"

definition check_state :: "chain \<Rightarrow> auth \<Rightarrow> string \<Rightarrow> unit tx" where
  "check_state c a route =
     (case a_device a of
        None \<Rightarrow> ret ()
      | Some oid \<Rightarrow>
          bindM (object (ch_id c) ''device'' oid) (\<lambda>body.
          bindM (lift (ok_or ''DEVICE_UNKNOWN'' body)) (\<lambda>d.
          bindM (rejectM (n_of d ''generation'' \<noteq> generation c) ''GENERATION_MISMATCH'') (\<lambda>_.
          bindM (select_opt db_registry (\<lambda>r. registry_key r = (ch_id c, oid))) (\<lambda>row.
          case row of
            None \<Rightarrow> lift (Inl (err ''DEVICE_UNKNOWN''))
          | Some r \<Rightarrow>
              if g_status r = ''revoked'' then lift (Inl (err ''DEVICE_REVOKED''))
              else if g_status r = ''pending_keys'' \<and> route \<notin> set pending_routes
              then lift (Inl (err ''DEVICE_PENDING_KEYS''))
              else ret ())))))"


subsection \<open>A device that may sign is active\<close>

lemma read_only_auth [intro, simp]:
  "read_only (active_device c oid)" "read_only (signing_key c v)" "read_only (token_key ci dev prop ch)"
  "read_only (check_barrier cfg issued)" "read_only (check_state c a route)" "read_only (load ci)"
  unfolding active_device_def signing_key_def token_key_def check_barrier_def check_state_def load_def
  by (auto intro!: read_only_bindM read_only_cases split: option.splits)

text \<open>
  A device key is handed out exactly for a device whose record is stored with the chain's
  generation and whose registry status is active; every other device is refused with its reason.
\<close>

theorem active_device_iff:
  "active_device c oid st = (Inr key, st') \<longleftrightarrow>
     st' = st \<and> (\<exists>r d g. row_at object_key (ch_id c, ''device'', oid) (db_objects st) = Some r \<and> o_body r = Some d
       \<and> n_of d ''generation'' = generation c
       \<and> row_at registry_key (ch_id c, oid) (db_registry st) = Some g \<and> g_status g = ''active''
       \<and> key = s_of d ''device_public_key'')"
  by (auto simp: active_device_def bindM_run select_one_def row_at_def split: option.splits)

subsection \<open>A token authenticates once\<close>

lemma wp_final: "wp m (\<lambda>_. P) (\<lambda>_. P) st \<longleftrightarrow> P (snd (m st))"
  by (auto simp: wp_def split: prod.splits sum.splits)

lemma wp_final_read_only: "read_only m \<Longrightarrow> P st \<Longrightarrow> wp m (\<lambda>_. P) (\<lambda>_. P) st"
  by (simp add: wp_final read_only_def)

lemma check_times_Inr:
  "check_times t token = Inr () \<longleftrightarrow>
     n_of token ''issued_at_ms'' < n_of token ''expires_at_ms''
     \<and> n_of token ''expires_at_ms'' \<le> n_of token ''issued_at_ms'' + 300000
     \<and> n_of token ''issued_at_ms'' \<le> t + 60000 \<and> t \<le> n_of token ''expires_at_ms'' + 60000"
  by (auto simp: check_times_def Let_def split: if_splits)

lemma reserve_nonce_Inr:
  "reserve_nonce ci token dev t st = (Inr (), st') \<longleftrightarrow>
     \<not> list_ex (same nonce_key (nonce_row_of ci token dev)) (filter (\<lambda>r. \<not> n_expires r < t) (db_nonces st))
     \<and> st' = st\<lparr>db_nonces := filter (\<lambda>r. \<not> n_expires r < t) (db_nonces st) @ [nonce_row_of ci token dev]\<rparr>"
  by (cases st) (auto simp: reserve_nonce_def bindM_run delete_rows_def insert_ignore_def split: if_splits)

lemma rate_keeps_nonces:
  "db_nonces (snd (rate X cfg scope identity st)) = db_nonces st"
  "db_tick (snd (rate X cfg scope identity st)) = db_tick st + 1"
  by (auto simp: rate_def bindM_def Let_def upsert_row_def split: option.splits)

lemma authenticate_run:
  assumes "authenticate X cfg rq st = (Inr a, st')"
  obtains token c key dst where
    "read_token X rq = Inr token" "check_binding X cfg rq token = Inr ()"
    "check_times (x_clock X (db_tick st)) token = Inr ()"
    "a = \<lparr>a_token = token, a_device = as_str (jget token ''device_id'')\<rparr>"
    "\<not> (rq_proposed_key rq \<noteq> None \<and> a_device a \<noteq> None)"
    "find (\<lambda>c. ch_id c = rq_chain rq) (db_chains st) = c"
    "token_key (rq_chain rq) (a_device a) (rq_proposed_key rq) c (st\<lparr>db_tick := db_tick st + 1\<rparr>)
       = (Inr (key, dst), st\<lparr>db_tick := db_tick st + 1\<rparr>)"
    "verify_signed_json X key (s_of token ''signature'') token CTX_CAPABILITY = Some True"
    "check_lifecycle (rq_route rq) c dst = Inr ()"
    "\<not> list_ex (same nonce_key (nonce_row_of (rq_chain rq) token (a_device a)))
        (filter (\<lambda>r. \<not> n_expires r < x_clock X (db_tick st)) (db_nonces st))"
    "db_nonces st' = filter (\<lambda>r. \<not> n_expires r < x_clock X (db_tick st)) (db_nonces st)
        @ [nonce_row_of (rq_chain rq) token (a_device a)]"
    "db_tick st < db_tick st'"
proof -
  let ?st1 = "st\<lparr>db_tick := db_tick st + 1\<rparr>" and ?t = "x_clock X (db_tick st)"
  let ?c = "find (\<lambda>c. ch_id c = rq_chain rq) (db_chains st)"
  from assms obtain token key dst u2 u3 u4 where
    tok: "read_token X rq = Inr token" "check_binding X cfg rq token = Inr ()" "check_times ?t token = Inr ()" and
    adm: "\<not> (rq_proposed_key rq \<noteq> None \<and> as_str (jget token ''device_id'') \<noteq> None)" and
    key: "token_key (rq_chain rq) (as_str (jget token ''device_id'')) (rq_proposed_key rq) ?c ?st1 = (Inr (key, dst), u2)" and
    sig: "verify_signed_json X key (s_of token ''signature'') token CTX_CAPABILITY = Some True" and
    bar: "check_barrier cfg (n_of token ''issued_at_ms'') u2 = (Inr (), u3)" and
    res: "reserve_nonce (rq_chain rq) token (as_str (jget token ''device_id'')) ?t u3 = (Inr (), u4)" and
    life: "check_lifecycle (rq_route rq) ?c dst = Inr ()" and
    rt: "rate X cfg ''authorized_signer''
        (rq_chain rq @ '':'' @ s_of token ''signer_kind'' @ '':'' @ (case as_str (jget token ''device_id'') of None \<Rightarrow> [] | Some d \<Rightarrow> d)) u4 = (Inr (), st')" and
    a: "a = \<lparr>a_token = token, a_device = as_str (jget token ''device_id'')\<rparr>"
    by (auto simp: authenticate_def bindM_run Let_def load_def)
  have "u2 = ?st1" by (rule read_onlyD [OF read_only_auth(3) key])
  moreover have "u3 = u2" by (rule read_onlyD [OF read_only_auth(4) bar])
  ultimately have u: "u2 = ?st1" "u3 = ?st1" by simp_all
  have "db_nonces st' = db_nonces u4" "db_tick st' = db_tick u4 + 1" using rate_keeps_nonces rt by (metis snd_conv)+
  with res u have "db_nonces st' = filter (\<lambda>r. \<not> n_expires r < ?t) (db_nonces st) @ [nonce_row_of (rq_chain rq) token (a_device a)]"
    "db_tick st < db_tick st'"
    "\<not> list_ex (same nonce_key (nonce_row_of (rq_chain rq) token (a_device a)))
        (filter (\<lambda>r. \<not> n_expires r < ?t) (db_nonces st))"
    by (auto simp: reserve_nonce_Inr a)
  with tok adm key [unfolded u] sig life show ?thesis by (intro that) (simp_all add: a)
qed

text \<open>
  What may happen to the replay store between two requests: authentications, successful or not, and
  any other work that leaves the replay store alone while the clock advances (a rollback included).
\<close>

inductive later :: "ext \<Rightarrow> db \<Rightarrow> db \<Rightarrow> bool" for X where
  later_refl: "later X st st"
| later_auth: "later X st st1 \<Longrightarrow> authenticate X cfg rq st1 = (r, st2) \<Longrightarrow> later X st st2"
| later_other: "later X st st1 \<Longrightarrow> db_nonces st2 = db_nonces st1 \<Longrightarrow> db_tick st1 \<le> db_tick st2 \<Longrightarrow> later X st st2"

text \<open>A nonce row is still stored, or the clock has passed its expiry.\<close>

definition spent :: "ext \<Rightarrow> nonce_row \<Rightarrow> db \<Rightarrow> bool" where
  "spent X row st \<longleftrightarrow> row \<in> set (db_nonces st) \<or> (\<exists>i < db_tick st. n_expires row < x_clock X i)"

lemma spent_mono:
  "spent X row st \<Longrightarrow> set (db_nonces st) \<subseteq> set (db_nonces st') \<Longrightarrow> db_tick st \<le> db_tick st' \<Longrightarrow> spent X row st'"
  unfolding spent_def by (meson less_le_trans subsetD)

lemma authenticate_keeps_spent:
  assumes "spent X row st"
  shows "spent X row (snd (authenticate X cfg rq st))"
proof -
  let ?t = "x_clock X (db_tick st)" and ?st1 = "st\<lparr>db_tick := db_tick st + 1\<rparr>"
  have s1: "spent X row ?st1" by (rule spent_mono [OF assms]) simp_all
  have drop: "spent X row (?st1\<lparr>db_nonces := filter (\<lambda>r. \<not> n_expires r < ?t) (db_nonces st)\<rparr>)"
    using s1 by (auto simp: spent_def)
  have res: "wp (reserve_nonce ci token dev ?t) Q (\<lambda>_. spent X row) ?st1"
    if "\<And>x u. spent X row u \<Longrightarrow> Q x u" for ci token dev Q
  proof -
    have "wp (reserve_nonce ci token dev ?t) (\<lambda>_. spent X row) (\<lambda>_. spent X row) ?st1"
      using drop by (auto simp: reserve_nonce_def spent_def)
    then show ?thesis by (rule wp_mono) (rule that)
  qed
  have rt: "wp (rate X cfg scope identity) Q (\<lambda>_. spent X row) u"
    if "spent X row u" "\<And>x u. spent X row u \<Longrightarrow> Q x u" for scope identity u Q
  proof -
    have "wp (rate X cfg scope identity) (\<lambda>_. spent X row) (\<lambda>_. spent X row) u"
      unfolding wp_final by (rule spent_mono [OF that(1)]) (simp_all add: rate_keeps_nonces)
    then show ?thesis by (rule wp_mono) (rule that(2))
  qed
  have "wp (authenticate X cfg rq) (\<lambda>_. spent X row) (\<lambda>_. spent X row) st"
    unfolding authenticate_def Let_def
    by (intro wp_intros res rt wp_read_only_both s1 assms read_only_auth read_only_basic; assumption?)
  then show ?thesis by (simp add: wp_final)
qed

lemma later_spent: "later X st st' \<Longrightarrow> spent X row st \<Longrightarrow> spent X row st'"
proof (induction rule: later.induct)
  case (later_auth st st1 cfg rq r st2)
  then show ?case using authenticate_keeps_spent [of X row st1 cfg rq] by simp
next
  case (later_other st st1 st2)
  then show ?case using spent_mono [of X row st1 st2] by simp
qed

text \<open>
  With a clock that does not run backwards, a token that authenticated once never
  authenticates again for the same chain, whatever requests and other work come in between and
  although expired nonces are deleted.
\<close>

lemma token_single_use:
  assumes "mono (x_clock X)" and "authenticate X cfg rq st = (Inr a, st1)" and "later X st1 st2"
    and "rq_authorization rq' = rq_authorization rq" and "rq_chain rq' = rq_chain rq"
  shows "\<not> is_ok (fst (authenticate X cfg' rq' st2))"
proof
  assume "is_ok (fst (authenticate X cfg' rq' st2))"
  then obtain b st3 where run': "authenticate X cfg' rq' st2 = (Inr b, st3)" by (metis is_ok_run)
  from assms(2) obtain token where tok: "read_token X rq = Inr token" and
    a: "a_device a = as_str (jget token ''device_id'')" and
    stored: "nonce_row_of (rq_chain rq) token (a_device a) \<in> set (db_nonces st1)"
    by (auto elim!: authenticate_run)
  let ?row = "nonce_row_of (rq_chain rq) token (a_device a)"
  have "spent X ?row st1" using stored by (simp add: spent_def)
  from later_spent [OF assms(3) this] have spent: "spent X ?row st2" .
  have same: "read_token X rq' = read_token X rq" using assms(4) by (simp add: read_token_def)
  with run' tok have times: "check_times (x_clock X (db_tick st2)) token = Inr ()" and
    free: "\<not> list_ex (same nonce_key (nonce_row_of (rq_chain rq) token (a_device a)))
        (filter (\<lambda>r. \<not> n_expires r < x_clock X (db_tick st2)) (db_nonces st2))"
    by (auto elim!: authenticate_run simp: assms(5) a)
  from times have "x_clock X (db_tick st2) \<le> n_expires ?row" by (simp add: check_times_Inr nonce_row_of_def)
  moreover have "x_clock X i \<le> x_clock X (db_tick st2)" if "i < db_tick st2" for i
    using assms(1) that by (simp add: monoD)
  ultimately have "?row \<in> set (filter (\<lambda>r. \<not> n_expires r < x_clock X (db_tick st2)) (db_nonces st2))"
    using spent unfolding spent_def by fastforce
  with free show False by (auto simp: list_ex_iff same_def)
qed

text \<open>A genesis request that the demonstration instance authenticates.\<close>

definition demo_token_raw :: raw where
  "demo_token_raw = RObj [(''v'', RU64 3), (''aud'', RStr ''o''), (''chain_id'', RStr demo_b32), (''signer_kind'', RStr ''admin''),
     (''device_id'', RNull), (''method'', RStr ''POST''), (''path'', RStr ''/''), (''query'', RStr []), (''body_sha256'', RStr demo_b32),
     (''issued_at_ms'', RU64 0), (''expires_at_ms'', RU64 1000), (''nonce'', RStr (replicate 16 CHR ''n'')), (''signature'', RStr demo_b64)]"

definition demo_token_serde :: "string \<Rightarrow> raw option" where
  "demo_token_serde t = Some demo_token_raw"

definition demo_auth_ext :: ext where
  "demo_auth_ext = demo_fast\<lparr>x_serde := demo_token_serde\<rparr>"

definition demo_auth_cfg :: config where
  "demo_auth_cfg = demo_cfg\<lparr>cfg_origin := ''o'', cfg_privacy :=
     jobj [(''rate_limits'', jobj [(''authorized_signer'', jobj [(''burst'', JInt 5), (''requests_per_minute'', JInt 60)])])]\<rparr>"

definition demo_rq :: auth_request where
  "demo_rq = \<lparr>rq_authorization = Some (Some ''PallaSync ''), rq_method = ''POST'', rq_path = ''/'', rq_query = None,
     rq_body = [], rq_chain = demo_b32, rq_proposed_key = Some demo_b32, rq_route = ''genesis''\<rparr>"

lemma demo_authenticate:
  obtains a st' where "authenticate demo_auth_ext demo_auth_cfg demo_rq empty_db = (Inr a, st')"
proof -
  have "is_ok (fst (authenticate demo_auth_ext demo_auth_cfg demo_rq empty_db))" by code_simp
  then show ?thesis using is_ok_run that by metis
qed

subsection \<open>What an authenticated request proves\<close>

lemma check_binding_Inr:
  "check_binding X cfg rq token = Inr () \<longleftrightarrow>
     s_of token ''aud'' = cfg_origin cfg \<and> s_of token ''chain_id'' = rq_chain rq
     \<and> s_of token ''method'' = rq_method rq \<and> s_of token ''path'' = rq_path rq
     \<and> (\<exists>q. canonical_query (case rq_query rq of None \<Rightarrow> [] | Some t \<Rightarrow> t) = Inr q \<and> s_of token ''query'' = query_string q)
     \<and> s_of token ''body_sha256'' = hash_bytes X (rq_body rq)"
  by (auto simp: check_binding_def)

lemma token_key_signer:
  assumes "token_key ci dev proposed c st = (Inr (key, dst), st')"
  shows "(\<forall>r. row_at d_chain ci (db_deletions st) = Some r \<longrightarrow>
           (case dev of None \<Rightarrow> key = d_admin_key r | Some oid \<Rightarrow> d_device r = Some oid \<and> d_device_key r = Some key))
    \<and> (row_at d_chain ci (db_deletions st) = None \<longrightarrow>
        (case c of None \<Rightarrow> proposed = Some key
         | Some ch \<Rightarrow> (case dev of None \<Rightarrow> key = s_of (ch_parameters ch) ''admin_public_key''
            | Some oid \<Rightarrow> \<exists>r d. row_at object_key (ci, ''device'', oid) (db_objects st) = Some r \<and> o_body r = Some d
                \<and> key = s_of d ''device_public_key''
                \<and> dst = Some (d, case row_at registry_key (ci, oid) (db_registry st) of None \<Rightarrow> ''unknown'' | Some g \<Rightarrow> g_status g))))"
  using assms by (auto simp: token_key_def bindM_run row_at_def split: option.splits)

lemma check_lifecycle_Some:
  "check_lifecycle route (Some ch) (Some (d, gs)) = Inr () \<longleftrightarrow>
     n_of d ''generation'' = generation ch \<and> gs \<noteq> ''revoked'' \<and> gs \<noteq> ''unknown''
     \<and> (gs = ''pending_keys'' \<longrightarrow> route \<in> set pending_routes)"
  by (auto simp: check_lifecycle_def)

text \<open>
  C9: an authenticated request carries a token for exactly this origin, chain, method, path,
  canonical query and body, within its five-minute lifetime (with one minute of clock skew), with a valid
  signature of the key that may speak for the request: on a deleted chain the administrator's or the deleting
  device's recorded key, on a live chain the administrator key of its parameters or the key of the stored
  device record, and without a chain the key the genesis request proposes. On a live chain a signing
  device is registered with the chain's generation, is not revoked, and reaches only the routes of a
  pending device while its keys are pending.
\<close>

theorem authenticate_sound:
  assumes "authenticate X cfg rq st = (Inr a, st')"
  shows "s_of (a_token a) ''aud'' = cfg_origin cfg \<and> s_of (a_token a) ''chain_id'' = rq_chain rq
    \<and> s_of (a_token a) ''method'' = rq_method rq \<and> s_of (a_token a) ''path'' = rq_path rq
    \<and> (\<exists>q. canonical_query (case rq_query rq of None \<Rightarrow> [] | Some t \<Rightarrow> t) = Inr q
         \<and> s_of (a_token a) ''query'' = query_string q)
    \<and> s_of (a_token a) ''body_sha256'' = hash_bytes X (rq_body rq)
    \<and> n_of (a_token a) ''expires_at_ms'' \<le> n_of (a_token a) ''issued_at_ms'' + 300000
    \<and> x_clock X (db_tick st) \<le> n_of (a_token a) ''expires_at_ms'' + 60000
    \<and> n_of (a_token a) ''issued_at_ms'' \<le> x_clock X (db_tick st) + 60000
    \<and> (\<exists>key. verify_signed_json X key (s_of (a_token a) ''signature'') (a_token a) CTX_CAPABILITY = Some True
        \<and> (case row_at d_chain (rq_chain rq) (db_deletions st) of
            Some r \<Rightarrow> (case a_device a of None \<Rightarrow> key = d_admin_key r
              | Some dev \<Rightarrow> d_device r = Some dev \<and> d_device_key r = Some key)
          | None \<Rightarrow> (case find (\<lambda>c. ch_id c = rq_chain rq) (db_chains st) of
              None \<Rightarrow> a_device a = None \<and> rq_proposed_key rq = Some key
            | Some c \<Rightarrow> (case a_device a of None \<Rightarrow> key = s_of (ch_parameters c) ''admin_public_key''
                | Some dev \<Rightarrow> \<exists>o' d g. row_at object_key (rq_chain rq, ''device'', dev) (db_objects st) = Some o' \<and> o_body o' = Some d
                    \<and> key = s_of d ''device_public_key'' \<and> n_of d ''generation'' = generation c
                    \<and> row_at registry_key (rq_chain rq, dev) (db_registry st) = Some g \<and> g_status g \<noteq> ''revoked''
                    \<and> (g_status g = ''pending_keys'' \<longrightarrow> rq_route rq \<in> set pending_routes)))))"
  using assms
proof (rule authenticate_run)
  fix token c key dst
  let ?st1 = "st\<lparr>db_tick := db_tick st + 1\<rparr>"
  assume tok: "check_binding X cfg rq token = Inr ()" "check_times (x_clock X (db_tick st)) token = Inr ()"
    and a: "a = \<lparr>a_token = token, a_device = as_str (jget token ''device_id'')\<rparr>"
    and genesis: "\<not> (rq_proposed_key rq \<noteq> None \<and> a_device a \<noteq> None)"
    and c: "find (\<lambda>c. ch_id c = rq_chain rq) (db_chains st) = c"
    and key: "token_key (rq_chain rq) (a_device a) (rq_proposed_key rq) c ?st1 = (Inr (key, dst), ?st1)"
    and sig: "verify_signed_json X key (s_of token ''signature'') token CTX_CAPABILITY = Some True"
    and life: "check_lifecycle (rq_route rq) c dst = Inr ()"
  have dev: "\<exists>o' d g. row_at object_key (rq_chain rq, ''device'', dev) (db_objects st) = Some o' \<and> o_body o' = Some d
            \<and> key = s_of d ''device_public_key'' \<and> n_of d ''generation'' = generation ch
            \<and> row_at registry_key (rq_chain rq, dev) (db_registry st) = Some g \<and> g_status g \<noteq> ''revoked''
            \<and> (g_status g = ''pending_keys'' \<longrightarrow> rq_route rq \<in> set pending_routes)"
    if dev: "a_device a = Some dev" and live: "row_at d_chain (rq_chain rq) (db_deletions st) = None" and ch: "c = Some ch" for dev ch
  proof -
    from token_key_signer [OF key] dev live ch obtain o' d where
      o': "row_at object_key (rq_chain rq, ''device'', dev) (db_objects st) = Some o'" "o_body o' = Some d"
        "key = s_of d ''device_public_key''" and
      dst: "dst = Some (d, case row_at registry_key (rq_chain rq, dev) (db_registry st) of None \<Rightarrow> ''unknown'' | Some r \<Rightarrow> g_status r)"
      by auto
    from life dst ch obtain g where "row_at registry_key (rq_chain rq, dev) (db_registry st) = Some g"
      by (auto simp: check_lifecycle_Some split: option.splits)
    with o' life dst ch show ?thesis by (auto simp: check_lifecycle_Some)
  qed
  have signer: "\<exists>key. verify_signed_json X key (s_of (a_token a) ''signature'') (a_token a) CTX_CAPABILITY = Some True
        \<and> (case row_at d_chain (rq_chain rq) (db_deletions st) of
            Some r \<Rightarrow> (case a_device a of None \<Rightarrow> key = d_admin_key r
              | Some dev \<Rightarrow> d_device r = Some dev \<and> d_device_key r = Some key)
          | None \<Rightarrow> (case c of
              None \<Rightarrow> a_device a = None \<and> rq_proposed_key rq = Some key
            | Some c \<Rightarrow> (case a_device a of None \<Rightarrow> key = s_of (ch_parameters c) ''admin_public_key''
                | Some dev \<Rightarrow> \<exists>o' d g. row_at object_key (rq_chain rq, ''device'', dev) (db_objects st) = Some o' \<and> o_body o' = Some d
                    \<and> key = s_of d ''device_public_key'' \<and> n_of d ''generation'' = generation c
                    \<and> row_at registry_key (rq_chain rq, dev) (db_registry st) = Some g \<and> g_status g \<noteq> ''revoked''
                    \<and> (g_status g = ''pending_keys'' \<longrightarrow> rq_route rq \<in> set pending_routes))))"
    using sig token_key_signer [OF key] genesis dev
    by (intro exI [of _ key]) (auto simp: a split: option.split)
  have token: "a_token a = token" by (simp add: a)
  show ?thesis
    using tok [unfolded check_binding_Inr check_times_Inr] signer [folded c] unfolding token by blast
qed

theorem authenticate_sound_witness:
  "\<exists>a st'. authenticate demo_auth_ext demo_auth_cfg demo_rq empty_db = (Inr a, st')
     \<and> s_of (a_token a) ''chain_id'' = rq_chain demo_rq
     \<and> (\<exists>q. canonical_query [] = Inr q \<and> s_of (a_token a) ''query'' = query_string q)"
proof -
  obtain a st' where run: "authenticate demo_auth_ext demo_auth_cfg demo_rq empty_db = (Inr a, st')"
    by (rule demo_authenticate)
  have "rq_query demo_rq = None" by (simp add: demo_rq_def)
  with authenticate_sound [OF run] run show ?thesis by auto
qed

subsection \<open>The rate limiter\<close>

text \<open>The rounding of \<^verbatim>\<open>f64\<close> is monotone and exact on the integers up to \<open>2^53\<close>.\<close>

definition round_ok :: "ext \<Rightarrow> bool" where
  "round_ok X \<longleftrightarrow> mono (x_round X) \<and> (\<forall>n \<le> 2 ^ 53. x_round X (of_nat n) = of_nat n)"

lemma round_nat: "round_ok X \<Longrightarrow> n \<le> 2 ^ 53 \<Longrightarrow> x_round X (of_nat n) = of_nat n"
  by (simp add: round_ok_def)

lemma round_0 [simp]: "round_ok X \<Longrightarrow> x_round X 0 = 0"
  using round_nat [of X 0] by simp

lemma refilled_frozen:
  assumes "round_ok X" and "m \<le> n" "n \<le> 2 ^ 53"
  shows "refilled X (of_nat n) refill (of_nat m) t t = of_nat m"
  using assms round_nat [of X m] by (simp add: refilled_def)

text \<open>The bucket of an identity holds \<open>m\<close> whole tokens at time \<open>t\<close>, out of \<open>n\<close>.\<close>

definition bucket :: "string \<Rightarrow> string \<Rightarrow> nat \<Rightarrow> nat \<Rightarrow> nat \<Rightarrow> db \<Rightarrow> bool" where
  "bucket scope identity n m t st \<longleftrightarrow> m \<le> n \<and>
     (case row_at rate_key (scope, identity) (db_rates st) of
        None \<Rightarrow> m = n
      | Some r \<Rightarrow> q_tokens r = of_nat m \<and> q_updated r = t)"

lemma rate_bucket:
  assumes "round_ok X" and "\<forall>i. x_clock X i = t" and "n \<le> 2 ^ 53"
    and "n_of (jget (jget (cfg_privacy cfg) ''rate_limits'') scope) ''burst'' = n"
    and "bucket scope identity n m t st"
  shows "case m of 0 \<Rightarrow> \<not> is_ok (fst (rate X cfg scope identity st))
    | Suc k \<Rightarrow> \<exists>st'. rate X cfg scope identity st = (Inr (), st') \<and> bucket scope identity n k t st'"
proof -
  let ?policy = "jget (jget (cfg_privacy cfg) ''rate_limits'') scope"
  let ?row = "find (\<lambda>r. rate_key r = (scope, identity)) (db_rates st)"
  let ?st1 = "st\<lparr>db_tick := db_tick st + 1\<rparr>"
  have burst: "burst_of X ?policy = of_nat n" using assms(1,3,4) by (simp add: burst_of_def round_nat)
  have tokens: "(case ?row of None \<Rightarrow> burst_of X ?policy
      | Some r \<Rightarrow> refilled X (burst_of X ?policy) (refill_of X ?policy) (q_tokens r) (q_updated r) t) = of_nat m"
    using assms(5) refilled_frozen [OF assms(1) _ assms(3), of m]
    by (auto simp: bucket_def row_at_def burst split: option.splits)
  let ?r = "\<lparr>q_scope = scope, q_identity = identity, q_tokens = x_round X (of_nat m - 1), q_updated = t\<rparr>"
  have run: "rate X cfg scope identity st =
      (if of_nat m < (1 :: rat)
       then (Inl (Err ''RATE_LIMITED'' (Some (jobj [(''retry_after_ms'', JNat (retry_ms X (of_nat m) (refill_of X ?policy))),
             (''scope'', JStr scope)]))), ?st1)
       else upsert_row db_rates db_rates_update (same rate_key) ?r ?st1)"
    unfolding rate_def Let_def bindM_def using tokens assms(2) by simp
  show ?thesis
  proof (cases m)
    case 0
    then show ?thesis by (simp add: run)
  next
    case (Suc k)
    have "m \<le> n" using assms(5) by (simp add: bucket_def)
    have "x_round X (of_nat m - 1) = of_nat k" using Suc \<open>m \<le> n\<close> assms(3) round_nat [OF assms(1), of k] by simp
    moreover have "row_at rate_key (scope, identity) (db_rates (snd (upsert_row db_rates db_rates_update (same rate_key) ?r ?st1))) = Some ?r"
      using row_at_upsert [of rate_key ?r "db_rates st"] by (auto simp: upsert_row_def rate_key_def split: if_splits)
    moreover obtain st' where "upsert_row db_rates db_rates_update (same rate_key) ?r ?st1 = (Inr (), st')"
      by (cases "list_ex (same rate_key ?r) (db_rates ?st1)") (auto simp: upsert_row_def)
    ultimately show ?thesis using Suc \<open>m \<le> n\<close> by (auto simp: run bucket_def)
  qed
qed

text \<open>
  While the clock stands still a fresh identity gets exactly as many requests as the policy's
  burst, and the next one is refused, in spite of the arithmetic being in floating point.
\<close>

theorem rate_burst_exact:
  assumes "round_ok X" and "\<forall>i. x_clock X i = t" and "n \<le> 2 ^ 53"
    and "n_of (jget (jget (cfg_privacy cfg) ''rate_limits'') scope) ''burst'' = n"
    and "row_at rate_key (scope, identity) (db_rates st) = None"
  shows "is_ok (fst (foldM (\<lambda>_ _. rate X cfg scope identity) (replicate k ()) () st)) \<longleftrightarrow> k \<le> n"
proof -
  have "is_ok (fst (foldM (\<lambda>_ _. rate X cfg scope identity) (replicate k ()) () st)) \<longleftrightarrow> k \<le> m"
    if "bucket scope identity n m t st" for m st
    using that
  proof (induction k arbitrary: m st)
    case (Suc k)
    show ?case
    proof (cases m)
      case 0
      with rate_bucket [OF assms(1-4) Suc.prems] show ?thesis by (auto simp: bindM_def split: prod.splits sum.splits)
    next
      case (Suc m')
      with rate_bucket [OF assms(1-4) Suc.prems] obtain st' where
        "rate X cfg scope identity st = (Inr (), st')" "bucket scope identity n m' t st'" by auto
      with Suc.IH [of m' st'] Suc show ?thesis by (simp add: bindM_def)
    qed
  qed simp
  from this [of n st] assms(5) show ?thesis by (simp add: bucket_def)
qed


theorem rate_burst_exact_witness:
  "is_ok (fst (foldM (\<lambda>_ _. rate (demo_fast\<lparr>x_clock := (\<lambda>i. 7)\<rparr>) demo_auth_cfg ''authorized_signer'' ''me'') (replicate 5 ()) () empty_db))
   \<and> \<not> is_ok (fst (foldM (\<lambda>_ _. rate (demo_fast\<lparr>x_clock := (\<lambda>i. 7)\<rparr>) demo_auth_cfg ''authorized_signer'' ''me'') (replicate 6 ()) () empty_db))"
proof -
  let ?X = "demo_fast\<lparr>x_clock := (\<lambda>i. 7)\<rparr>"
  have ok: "round_ok ?X" by (simp add: round_ok_def demo_fast_def demo_ext_def demo_id_def mono_def)
  have burst: "n_of (jget (jget (cfg_privacy demo_auth_cfg) ''rate_limits'') ''authorized_signer'') ''burst'' = 5"
    by (simp add: demo_auth_cfg_def jget_jobj n_of_def as_u64_def)
  have clock: "\<forall>i. x_clock ?X i = 7" and five: "(5 :: nat) \<le> 2 ^ 53" by simp_all
  have row: "row_at rate_key (''authorized_signer'', ''me'') (db_rates empty_db) = None"
    by (simp add: row_at_def empty_db_def)
  show ?thesis
    using rate_burst_exact [OF ok clock five burst row, of 5] rate_burst_exact [OF ok clock five burst row, of 6] by simp
qed

end
