(* ===== verification/Relay_Domain.thy ===== *)
theory Relay_Domain
  imports Relay_Auth
begin

text \<open>
  \<^verbatim>\<open>src/api/domain.rs\<close>: the rules that decide whether a device, an envelope, an epoch with its bundle, a
  record or a compaction is acceptable, and the commit of an epoch.
\<close>

subsection \<open>Binding to the chain\<close>

definition bound :: "json \<Rightarrow> chain \<Rightarrow> unit res" where
  "bound v c =
     rbind (reject (s_of v ''chain_id'' \<noteq> ch_id c) ''INVALID_FIELD'') (\<lambda>_.
     reject (n_of v ''generation'' \<noteq> generation c) ''GENERATION_MISMATCH'')"

definition cas :: "ext \<Rightarrow> chain \<Rightarrow> json \<Rightarrow> json \<Rightarrow> unit res" where
  "cas X c parameters epoch =
     reject (as_str parameters \<noteq> Some (parameters_hash X c) \<or> as_str epoch \<noteq> Some (epoch_hash X c)) ''CAS_MISMATCH''"

definition admin_operation :: "ext \<Rightarrow> chain \<Rightarrow> json \<Rightarrow> string \<Rightarrow> json \<Rightarrow> unit tx" where
  "admin_operation X c op action target =
     bindM (lift (validate X op SAdmin)) (\<lambda>_.
     bindM (lift (bound op c)) (\<lambda>_.
     bindM (lift (verify X op (s_of (ch_parameters c) ''admin_public_key'') CTX_ADMIN_OP)) (\<lambda>_.
     bindM (rejectM (s_of op ''action'' \<noteq> action \<or> s_of op ''target_hash'' \<noteq> object_hash X target) ''INVALID_FIELD'') (\<lambda>_.
     bindM (object_digest (ch_id c) ''admin'' (s_of op ''operation_id'')) (\<lambda>old.
     bindM (rejectM (case old of None \<Rightarrow> False | Some d \<Rightarrow> d \<noteq> object_hash X op) ''OPERATION_ID_CONFLICT'') (\<lambda>_.
     lift (cas X c (jget op ''expected_parameters_hash'') (jget op ''expected_epoch_hash''))))))))"

subsection \<open>Devices\<close>

definition device_request_keys :: "string list" where
  "device_request_keys = [''device_id'', ''device_public_key'', ''device_kex_public_key'', ''chain_id'', ''generation'']"

text \<open>The check of the enrollment certificate's signature.\<close>

definition device_certificate :: "ext \<Rightarrow> chain \<Rightarrow> json \<Rightarrow> json option \<Rightarrow> unit tx" where
  "device_certificate X c d request =
     (let cert = jget d ''enrollment'' in
      if s_of cert ''signer_kind'' = ''device''
      then bindM (rejectM (jget (jget (ch_parameters c) ''policy'') ''allow_peer_enrollment'' \<noteq> JBool True
                \<or> request = None \<or> s_of cert ''signer_device_id'' = s_of d ''device_id'') ''ENROLLMENT_CERTIFICATE_INVALID'') (\<lambda>_.
           bindM (map_errM ''ENROLLMENT_CERTIFICATE_INVALID'' (signing_key c cert)) (\<lambda>key.
           lift (map_err ''ENROLLMENT_CERTIFICATE_INVALID'' (verify X cert key CTX_ENROLLMENT))))
      else lift (map_err ''ENROLLMENT_CERTIFICATE_INVALID''
             (verify X cert (s_of (ch_parameters c) ''admin_public_key'') CTX_ENROLLMENT)))"

definition device :: "ext \<Rightarrow> chain \<Rightarrow> json \<Rightarrow> json option \<Rightarrow> bool \<Rightarrow> unit tx" where
  "device X c d request genesis =
     (let cert = jget d ''enrollment'' in
      bindM (lift (validate X d SDevice)) (\<lambda>_.
      bindM (lift (bound d c)) (\<lambda>_.
      bindM (lift (verify X d (s_of d ''device_public_key'') CTX_DEVICE_RECORD)) (\<lambda>_.
      bindM (rejectM ((case request of None \<Rightarrow> JNull | Some r \<Rightarrow> JStr (object_hash X r)) \<noteq> jget cert ''request_hash'')
         ''ENROLLMENT_CERTIFICATE_INVALID'') (\<lambda>_.
      bindM (case request of
               None \<Rightarrow> ret ()
             | Some r \<Rightarrow> lift (rall (\<lambda>k. reject (jget d k \<noteq> jget r k) ''ENROLLMENT_CERTIFICATE_INVALID'') device_request_keys)) (\<lambda>_.
      bindM (if \<not> genesis
             then bindM (object (ch_id c) ''epoch'' (show_nat (n_of d ''meta_epoch''))) (\<lambda>e. rejectM (e = None) ''EPOCH_STALE'')
             else ret ()) (\<lambda>_.
      bindM (rejectM (genesis \<and> n_of d ''meta_epoch'' \<noteq> n_of (ch_epoch c) ''epoch''
             \<and> n_of d ''meta_epoch'' \<noteq> n_of (ch_epoch c) ''epoch'' + 1) ''EPOCH_STALE'') (\<lambda>_.
      bindM (device_certificate X c d request) (\<lambda>_.
      bindM (object_digest (ch_id c) ''device'' (s_of d ''device_id'')) (\<lambda>old.
      bindM (rejectM (case old of None \<Rightarrow> False | Some h \<Rightarrow> h \<noteq> object_hash X d) ''DEVICE_ID_CONFLICT'') (\<lambda>_.
      bindM (count_rows db_objects (\<lambda>r. o_chain r = ch_id c \<and> o_kind r = ''device''
             \<and> (case o_body r of None \<Rightarrow> False
                | Some b \<Rightarrow> jget (jget b ''enrollment'') ''certificate_id'' = JStr (s_of cert ''certificate_id''))
             \<and> o_id r \<noteq> s_of d ''device_id'')) (\<lambda>same_cert.
      rejectM (same_cert \<noteq> 0) ''ENROLLMENT_CERTIFICATE_INVALID''))))))))))))"

subsection \<open>Envelopes\<close>

definition staged_device :: "json list \<Rightarrow> string \<Rightarrow> json option" where
  "staged_device staged oid = find (\<lambda>d. s_of d ''device_id'' = oid) staged"

definition envelope_recipient :: "chain \<Rightarrow> json \<Rightarrow> json list \<Rightarrow> json tx" where
  "envelope_recipient c e staged =
     (let oid = s_of e ''recipient_device_id'' in
      case staged_device staged oid of
        Some d \<Rightarrow> ret d
      | None \<Rightarrow>
          bindM (object (ch_id c) ''device'' oid) (\<lambda>body.
          bindM (lift (ok_or ''ENVELOPE_ACCESS_DENIED'' body)) (\<lambda>d.
          bindM (select_one db_registry (\<lambda>r. registry_key r = (ch_id c, oid))) (\<lambda>row.
          bindM (rejectM (g_status row = ''revoked'' \<or> n_of d ''generation'' \<noteq> generation c) ''ENVELOPE_ACCESS_DENIED'') (\<lambda>_.
          ret d)))))"

definition envelope :: "ext \<Rightarrow> chain \<Rightarrow> json \<Rightarrow> json \<Rightarrow> json list \<Rightarrow> unit tx" where
  "envelope X c e epoch staged =
     bindM (lift (validate X e SEnvelope)) (\<lambda>_.
     bindM (lift (rall (\<lambda>k. reject (jget e k \<noteq> jget epoch k) ''EPOCH_CHAIN_INVALID'')
        [''chain_id'', ''generation'', ''epoch'', ''previous_epoch_hash'', ''epoch_commitment''])) (\<lambda>_.
     bindM (if s_of e ''signer_kind'' = ''admin'' then ret (s_of (ch_parameters c) ''admin_public_key'')
            else case staged_device staged (s_of e ''signer_device_id'') of
                   Some d \<Rightarrow> ret (s_of d ''device_public_key'')
                 | None \<Rightarrow> signing_key c e) (\<lambda>key.
     bindM (lift (verify X e key CTX_ENVELOPE)) (\<lambda>_.
     if s_of e ''recipient_kind'' = ''device''
     then bindM (envelope_recipient c e staged) (\<lambda>d.
          bindM (lift (unwrap (decode X (s_of d ''device_kex_public_key'') (Some 32)))) (\<lambda>k.
          rejectM (jget e ''recipient_key_hash'' \<noteq> JStr (hash_bytes X k)) ''ENVELOPE_ACCESS_DENIED''))
     else ret ()))))"

subsection \<open>The bundle of an epoch\<close>

text \<open>The rules on number, predecessor, reason and revocations of the epoch.\<close>

definition bundle_shape :: "ext \<Rightarrow> chain \<Rightarrow> json \<Rightarrow> bool \<Rightarrow> bool \<Rightarrow> unit res" where
  "bundle_shape X c epoch genesis reseed =
     rbind (if genesis
       then reject (n_of epoch ''epoch'' \<noteq> 0 \<or> s_of epoch ''reason'' \<noteq> ''genesis'' \<or> s_of epoch ''signer_kind'' \<noteq> ''admin''
              \<or> a_of epoch ''revoked_device_ids'' \<noteq> []) ''EPOCH_CHAIN_INVALID''
       else
         rbind (reject (n_of epoch ''epoch'' \<noteq> n_of (ch_epoch c) ''epoch'' + 1
              \<or> s_of epoch ''previous_epoch_hash'' \<noteq> epoch_hash X c) ''EPOCH_CHAIN_INVALID'') (\<lambda>_.
         rbind (reject (s_of epoch ''reason'' \<in> set [''genesis'', ''reseed''] \<and> \<not> reseed) ''EPOCH_CHAIN_INVALID'') (\<lambda>_.
         reject (a_of epoch ''revoked_device_ids'' \<noteq> []
              \<and> s_of epoch ''reason'' \<notin> set [''device_revocation'', ''key_rotation'', ''emergency'', ''reseed''])
           ''EPOCH_CHAIN_INVALID''))) (\<lambda>_.
     rbind (reject (s_of epoch ''reason'' \<in> set [''genesis'', ''emergency'', ''reseed''] \<and> s_of epoch ''signer_kind'' \<noteq> ''admin'')
        ''ROTATION_NOT_ALLOWED'') (\<lambda>_.
     reject (s_of epoch ''signer_kind'' = ''device''
        \<and> jget (jget (ch_parameters c) ''policy'') ''allow_device_rotation'' \<noteq> JBool True) ''ROTATION_NOT_ALLOWED''))"

text \<open>\<^verbatim>\<open>id.as_str().unwrap()\<close> over a list of identifiers.\<close>

definition id_list :: "json list \<Rightarrow> string list res" where
  "id_list ids = rfold (\<lambda>i out. rbind (unwrap (as_str i)) (\<lambda>w. Inr (out @ [w]))) ids []"

text \<open>The member list the bundle must name: existing members that stay, then the staged devices, sorted.\<close>

definition bundle_existing :: "chain \<Rightarrow> bool \<Rightarrow> bool \<Rightarrow> db \<Rightarrow> string list" where
  "bundle_existing c genesis reseed st =
     map g_device (filter (\<lambda>r. \<not> genesis \<and> (reseed \<or> g_generation r = generation c))
       (sort_key g_device (filter (\<lambda>r. g_chain r = ch_id c \<and> g_status r \<noteq> ''revoked'') (db_registry st))))"

definition add_staged :: "json list \<Rightarrow> string list \<Rightarrow> string list res" where
  "add_staged staged members =
     rfold (\<lambda>d ms. rbind (reject (s_of d ''device_id'' \<in> set ms) ''DEVICE_ID_CONFLICT'') (\<lambda>_.
        Inr (ms @ [s_of d ''device_id'']))) staged members"

definition bundle_members :: "json \<Rightarrow> json list \<Rightarrow> bool \<Rightarrow> string list \<Rightarrow> string list res" where
  "bundle_members epoch staged reseed existing =
     rbind (id_list (a_of epoch ''revoked_device_ids'')) (\<lambda>revoked.
     rbind (reject (list_ex (\<lambda>i. i \<notin> set existing) revoked \<or> (reseed \<and> revoked \<noteq> existing)) ''MEMBER_SET_MISMATCH'') (\<lambda>_.
     rbind (add_staged staged (if reseed then [] else filter (\<lambda>i. i \<notin> set revoked) existing)) (\<lambda>members.
     let members = sort members in
     rbind (id_list (a_of epoch ''members'')) (\<lambda>actual.
     rbind (reject (members \<noteq> actual \<or> length members > 128) ''MEMBER_SET_MISMATCH'') (\<lambda>_.
     Inr members)))))"

text \<open>The loop over the envelopes with its variables \<^verbatim>\<open>recipients\<close>, \<^verbatim>\<open>recovery\<close> and \<^verbatim>\<open>ids\<close>.\<close>

type_synonym bundle_acc = "string list \<times> bool \<times> string list"

definition bundle_envelope ::
    "ext \<Rightarrow> chain \<Rightarrow> json \<Rightarrow> json list \<Rightarrow> string list \<Rightarrow> json \<Rightarrow> bundle_acc \<Rightarrow> bundle_acc tx" where
  "bundle_envelope X c epoch staged members e acc =
     (case acc of (recipients, recovery, ids) \<Rightarrow>
      bindM (envelope X c e epoch staged) (\<lambda>_.
      bindM (rejectM (s_of e ''envelope_id'' \<in> set ids) ''INVALID_FIELD'') (\<lambda>_.
      let ids = s_of e ''envelope_id'' # ids in
      if s_of e ''recipient_kind'' = ''recovery''
      then bindM (rejectM (recovery \<or> object_hash X e \<noteq> s_of epoch ''recovery_envelope_hash'') ''RECOVERY_ENVELOPE_REQUIRED'') (\<lambda>_.
           ret (recipients, True, ids))
      else bindM (rejectM (s_of e ''recipient_device_id'' \<notin> set members \<or> s_of e ''recipient_device_id'' \<in> set recipients)
             ''MEMBER_SET_MISMATCH'') (\<lambda>_.
           ret (s_of e ''recipient_device_id'' # recipients, recovery, ids)))))"

definition bundle_check ::
    "ext \<Rightarrow> chain \<Rightarrow> json \<Rightarrow> json list \<Rightarrow> json list \<Rightarrow> bool \<Rightarrow> bool \<Rightarrow> unit tx" where
  "bundle_check X c epoch envelopes staged genesis reseed =
     bindM (lift (validate X epoch SEpoch)) (\<lambda>_.
     bindM (lift (bound epoch c)) (\<lambda>_.
     bindM (lift (bundle_shape X c epoch genesis reseed)) (\<lambda>_.
     bindM (signing_key c epoch) (\<lambda>key.
     bindM (lift (verify X epoch key CTX_EPOCH)) (\<lambda>_.
     bindM (gets (bundle_existing c genesis reseed)) (\<lambda>existing.
     bindM (lift (bundle_members epoch staged reseed existing)) (\<lambda>members.
     bindM (rejectM (length envelopes \<noteq> length members + 1) ''MEMBER_SET_MISMATCH'') (\<lambda>_.
     bindM (foldM (bundle_envelope X c epoch staged members) envelopes ([], False, [])) (\<lambda>acc.
     rejectM (\<not> fst (snd acc)) ''RECOVERY_ENVELOPE_REQUIRED'')))))))))"

subsection \<open>Committing an epoch\<close>

text \<open>\<^verbatim>\<open>INSERT\<close> and \<^verbatim>\<open>UPDATE\<close> of the registry fire its triggers: each row written is added to the history.\<close>

definition register :: "chain \<Rightarrow> json \<Rightarrow> nat \<Rightarrow> string \<Rightarrow> unit tx" where
  "register c d seq state =
     (let row = \<lparr>g_chain = ch_id c, g_device = s_of d ''device_id'', g_generation = n_of d ''generation'',
            g_status = state, g_enrolled = seq, g_revoked = None\<rparr> in
      bindM (insert_row db_registry db_registry_update (same registry_key) row) (\<lambda>_.
      registry_trigger [row]))"

definition update_registry :: "(registry_row \<Rightarrow> bool) \<Rightarrow> (registry_row \<Rightarrow> registry_row) \<Rightarrow> unit tx" where
  "update_registry p f =
     bindM (gets (\<lambda>st. map f (filter p (db_registry st)))) (\<lambda>changed.
     bindM (update_rows db_registry_update p f) (\<lambda>_.
     registry_trigger changed))"

definition commit_devices :: "ext \<Rightarrow> config \<Rightarrow> bool \<Rightarrow> json \<Rightarrow> chain \<times> json list \<Rightarrow> (chain \<times> json list) tx" where
  "commit_devices X cfg genesis d acc =
     (case acc of (c, receipts) \<Rightarrow>
      bindM (append_entry X cfg c ''device'' d) (\<lambda>(c, entry, r).
      bindM (register c d (n_of entry ''relay_seq'') (if genesis then ''active'' else ''pending_keys'')) (\<lambda>_.
      ret (c, receipts @ [r]))))"

definition commit_objects :: "ext \<Rightarrow> config \<Rightarrow> string \<Rightarrow> json \<Rightarrow> chain \<times> json list \<Rightarrow> (chain \<times> json list) tx" where
  "commit_objects X cfg kind e acc =
     (case acc of (c, receipts) \<Rightarrow>
      bindM (append_entry X cfg c kind e) (\<lambda>(c, entry, r). ret (c, receipts @ [r])))"

definition revoke_device :: "chain \<Rightarrow> nat \<Rightarrow> json \<Rightarrow> unit \<Rightarrow> unit tx" where
  "revoke_device c seq i u =
     bindM (lift (unwrap (as_str i))) (\<lambda>dev.
     update_registry (\<lambda>r. registry_key r = (ch_id c, dev)) (\<lambda>r. r\<lparr>g_status := ''revoked'', g_revoked := Some seq\<rparr>))"

record epoch_commit =
  ec_epoch :: json
  ec_envelopes :: "json list"
  ec_staged :: "json list"
  ec_admin :: "json option"
  ec_genesis :: bool

definition commit_epoch :: "ext \<Rightarrow> config \<Rightarrow> chain \<Rightarrow> epoch_commit \<Rightarrow> (chain \<times> json \<times> json list) tx" where
  "commit_epoch X cfg c commit =
     (let epoch = ec_epoch commit in
      bindM (foldM (commit_devices X cfg (ec_genesis commit))
         (sort_key (\<lambda>d. s_of d ''device_id'') (ec_staged commit)) (c, [])) (\<lambda>acc.
      bindM (foldM (commit_objects X cfg ''envelope'')
         (sort_key (\<lambda>e. (s_of e ''recipient_kind'', s_of e ''recipient_device_id'')) (ec_envelopes commit)) acc) (\<lambda>acc.
      bindM (case ec_admin commit of None \<Rightarrow> ret acc | Some op \<Rightarrow> commit_objects X cfg ''admin'' op acc) (\<lambda>(c, receipts).
      bindM (append_entry X cfg c ''epoch'' epoch) (\<lambda>(c, entry, r).
      bindM (foldM (revoke_device c (n_of entry ''relay_seq'')) (a_of epoch ''revoked_device_ids'') ()) (\<lambda>_.
      ret (c\<lparr>ch_epoch := epoch\<rparr>, entry, receipts @ [r])))))))"

subsection \<open>Records\<close>

definition payload_nonce_used :: "chain \<Rightarrow> json \<Rightarrow> unit tx" where
  "payload_nonce_used c v =
     bindM (select_opt db_payload_nonces (\<lambda>r. payload_nonce_key r = (ch_id c, n_of v ''epoch'', s_of v ''payload_nonce''))) (\<lambda>row.
     rejectM (case row of None \<Rightarrow> False | Some r \<Rightarrow> pn_record r \<noteq> s_of v ''record_id'') ''INVALID_FIELD'')"

definition wrong_tag :: "json \<Rightarrow> json \<Rightarrow> bool" where
  "wrong_tag parameters v \<longleftrightarrow>
     (jget (jget parameters ''policy'') ''metadata_profile'' = JStr ''private'') \<noteq> (jget v ''collection_tag'' = JNull)"

text \<open>A snapshot part the administrator uploads for a generation up to the current one.\<close>

definition record_admin_part :: "ext \<Rightarrow> chain \<Rightarrow> json \<Rightarrow> bool tx" where
  "record_admin_part X c v =
     (let gen = n_of v ''generation'' in
      bindM (object (ch_id c) ''parameters'' (show_nat gen)) (\<lambda>p.
      bindM (lift (ok_or ''GENERATION_MISMATCH'' p)) (\<lambda>parameters.
      bindM (object (ch_id c) ''epoch'' (show_nat (n_of v ''epoch''))) (\<lambda>e.
      bindM (lift (ok_or ''EPOCH_NOT_FOUND'' e)) (\<lambda>epoch.
      bindM (object (ch_id c) ''device'' (s_of v ''device_id'')) (\<lambda>b.
      bindM (lift (ok_or ''DEVICE_UNKNOWN'' b)) (\<lambda>d.
      bindM (rejectM (n_of d ''generation'' \<noteq> gen \<or> n_of epoch ''generation'' \<noteq> gen) ''GENERATION_MISMATCH'') (\<lambda>_.
      bindM (lift (verify X v (s_of d ''device_public_key'') CTX_SYNC_RECORD)) (\<lambda>_.
      bindM (rejectM (wrong_tag parameters v) ''INVALID_FIELD'') (\<lambda>_.
      bindM (payload_nonce_used c v) (\<lambda>_.
      ret False)))))))))))"

definition record_check :: "ext \<Rightarrow> chain \<Rightarrow> json \<Rightarrow> auth \<Rightarrow> bool \<Rightarrow> bool \<Rightarrow> bool tx" where
  "record_check X c v a snapshot staged =
     bindM (lift (validate X v SRecord)) (\<lambda>_.
     bindM (rejectM (s_of v ''chain_id'' \<noteq> ch_id c) ''INVALID_FIELD'') (\<lambda>_.
     bindM (rejectM (\<not> admin a \<and> a_device a \<noteq> Some (s_of v ''device_id'')) ''DEVICE_KEY_MISMATCH'') (\<lambda>_.
     bindM (object_digest (ch_id c) (if snapshot then ''snapshot_part'' else ''record'') (s_of v ''record_id'')) (\<lambda>digest.
     case digest of
       Some h \<Rightarrow> if h \<noteq> object_hash X v then lift (Inl (err ''RECORD_ID_CONFLICT'')) else ret True
     | None \<Rightarrow>
         if staged \<and> admin a \<and> n_of v ''generation'' = generation c + 1 then ret False
         else if snapshot \<and> admin a \<and> n_of v ''generation'' \<le> generation c then record_admin_part X c v
         else
           bindM (lift (bound v c)) (\<lambda>_.
           bindM (rejectM (\<not> admin a \<and> a_device a \<noteq> Some (s_of v ''device_id'')) ''DEVICE_KEY_MISMATCH'') (\<lambda>_.
           bindM (active_device c (s_of v ''device_id'')) (\<lambda>key.
           bindM (lift (verify X v key CTX_SYNC_RECORD)) (\<lambda>_.
           bindM (rejectM (n_of v ''epoch'' \<noteq> n_of (ch_epoch c) ''epoch'') ''EPOCH_STALE'') (\<lambda>_.
           bindM (rejectM (wrong_tag (ch_parameters c) v) ''INVALID_FIELD'') (\<lambda>_.
           bindM (payload_nonce_used c v) (\<lambda>_.
           ret False)))))))))))"

definition reserve_payload_nonce :: "chain \<Rightarrow> json \<Rightarrow> unit tx" where
  "reserve_payload_nonce c v =
     bindM (insert_ignore db_payload_nonces db_payload_nonces_update (same payload_nonce_key)
        \<lparr>pn_chain = ch_id c, pn_epoch = n_of v ''epoch'', pn_nonce = s_of v ''payload_nonce'',
         pn_record = s_of v ''record_id''\<rparr>) (\<lambda>_.
     ret ())"

subsection \<open>Compactions\<close>

definition part_key :: "chain \<Rightarrow> json list \<Rightarrow> string \<Rightarrow> string tx" where
  "part_key c staged oid =
     (case staged_device staged oid of
        Some d \<Rightarrow> ret (s_of d ''device_public_key'')
      | None \<Rightarrow> active_device c oid)"

definition compaction_part :: "ext \<Rightarrow> chain \<Rightarrow> json list \<Rightarrow> json \<Rightarrow> unit \<Rightarrow> unit tx" where
  "compaction_part X c staged p u =
     bindM (object (ch_id c) ''snapshot_part'' (s_of p ''record_id'')) (\<lambda>b.
     bindM (lift (ok_or ''SNAPSHOT_INCOMPLETE'' b)) (\<lambda>part.
     bindM (rejectM (object_hash X part \<noteq> s_of p ''record_hash'' \<or> n_of part ''generation'' \<noteq> generation c
        \<or> n_of part ''epoch'' \<noteq> n_of (ch_epoch c) ''epoch'') ''SNAPSHOT_INCOMPLETE'') (\<lambda>_.
     bindM (part_key c staged (s_of part ''device_id'')) (\<lambda>key.
     bindM (lift (verify X part key CTX_SYNC_RECORD)) (\<lambda>_.
     rejectM (wrong_tag (ch_parameters c) part) ''INVALID_FIELD'')))))"

definition compaction :: "ext \<Rightarrow> chain \<Rightarrow> json \<Rightarrow> json list \<Rightarrow> unit tx" where
  "compaction X c v staged =
     bindM (lift (validate X v SCompaction)) (\<lambda>_.
     bindM (lift (bound v c)) (\<lambda>_.
     bindM (rejectM (s_of v ''log_id'' \<noteq> ch_log_id c) ''LOG_ID_MISMATCH'') (\<lambda>_.
     bindM (rejectM (s_of v ''epoch_hash'' \<noteq> epoch_hash X c) ''EPOCH_STALE'') (\<lambda>_.
     bindM (part_key c staged (s_of v ''device_id'')) (\<lambda>key.
     bindM (lift (verify X v key CTX_COMPACTION)) (\<lambda>_.
     let covered = n_of v ''covered_through_seq'' in
     bindM (if covered = 0 then lift (initial_hash X CTX_LOG (ch_id c) (ch_log_id c) None)
            else bindM (select_opt db_log (\<lambda>l. log_key l = (ch_id c, ch_log_id c, covered))) (\<lambda>row.
                 lift (ok_or ''COMPACTION_UNSAFE'' (map_option l_hash row)))) (\<lambda>hash.
     bindM (rejectM (covered > ch_head_seq c \<or> s_of v ''covered_log_hash'' \<noteq> hash) ''COMPACTION_UNSAFE'') (\<lambda>_.
     foldM (compaction_part X c staged) (a_of v ''snapshot_parts'') ()))))))))"

definition target :: "json \<Rightarrow> string list \<Rightarrow> json" where
  "target v keys = JObj (fold (\<lambda>k o'. case jfind v k of None \<Rightarrow> o' | Some x \<Rightarrow> obj_put k x o') keys [])"

text \<open>\<open>None\<close> is the panic of an uncatalogued code.\<close>

definition rejection :: "json \<Rightarrow> string \<Rightarrow> string \<Rightarrow> json option" where
  "rejection v oid code =
     (case catalogue code of
        None \<Rightarrow> None
      | Some (st, again) \<Rightarrow>
          Some (jobj [(oid, jget v oid), (''status'', JNat st), (''code'', JStr code), (''retryable'', JBool again)]))"


subsection \<open>The checks only read\<close>

lemma read_only_checks [intro, simp]:
  "read_only (admin_operation X c op action tg)" "read_only (device_certificate X c d request)"
  "read_only (envelope_recipient c e staged)" "read_only (payload_nonce_used c v)"
  "read_only (part_key c staged oid)"
  unfolding admin_operation_def device_certificate_def envelope_recipient_def payload_nonce_used_def
    part_key_def Let_def
  by (intro read_only_bindM read_only_cases read_only_basic read_only_object read_only_select read_only_auth
      read_only_map_errM)+

lemma read_only_device [intro, simp]: "read_only (device X c d request genesis)"
  unfolding device_def Let_def
  by (intro read_only_bindM read_only_cases read_only_basic read_only_object read_only_select read_only_checks)

lemma read_only_envelope [intro, simp]: "read_only (envelope X c e epoch staged)"
  unfolding envelope_def
  by (intro read_only_bindM read_only_cases read_only_basic read_only_auth read_only_checks)

lemma read_only_bundle_envelope [intro, simp]: "read_only (bundle_envelope X c epoch staged members e acc)"
  unfolding bundle_envelope_def Let_def
  by (intro read_only_cases read_only_bindM read_only_basic read_only_envelope)

lemma read_only_bundle [intro, simp]: "read_only (bundle_check X c epoch envelopes staged genesis reseed)"
  unfolding bundle_check_def
  by (intro read_only_bindM read_only_basic read_only_auth read_only_foldM read_only_bundle_envelope)

lemma read_only_record [intro, simp]:
  "read_only (record_admin_part X c v)" "read_only (record_check X c v a snapshot staged)"
  unfolding record_check_def record_admin_part_def Let_def
  by (intro read_only_bindM read_only_cases read_only_basic read_only_object read_only_checks read_only_auth)+

lemma read_only_compaction [intro, simp]: "read_only (compaction X c v staged)"
  unfolding compaction_def compaction_part_def Let_def
  by (intro read_only_bindM read_only_cases read_only_basic read_only_object read_only_checks read_only_select
      read_only_foldM)

subsection \<open>The member set of an epoch\<close>

lemma id_list_Inr: "id_list ids = Inr ws \<longleftrightarrow> ids = map JStr ws"
proof -
  have "rfold (\<lambda>i out. rbind (unwrap (as_str i)) (\<lambda>w. Inr (out @ [w]))) ids acc = Inr ws \<longleftrightarrow>
      (\<exists>vs. ws = acc @ vs \<and> ids = map JStr vs)" for acc
  proof (induction ids arbitrary: acc)
    case (Cons i ids)
    then show ?case by (cases i) (auto simp: as_str_def Cons_eq_map_conv)
  qed auto
  then show ?thesis by (simp add: id_list_def)
qed

lemma add_staged_Inr:
  "add_staged staged ms = Inr out \<Longrightarrow> out = ms @ map (\<lambda>d. s_of d ''device_id'') staged \<and> (distinct ms \<longrightarrow> distinct out)"
proof (induction staged arbitrary: ms)
  case (Cons d staged)
  then show ?case by (fastforce simp: add_staged_def)
qed (simp add: add_staged_def)

definition is_recovery :: "json \<Rightarrow> bool" where
  "is_recovery e \<longleftrightarrow> s_of e ''recipient_kind'' = ''recovery''"

definition recipient :: "json \<Rightarrow> string" where
  "recipient e = s_of e ''recipient_device_id''"

lemma bundle_envelope_run:
  assumes "bundle_envelope X c epoch staged members e (rs, rec, ids) st = (Inr acc', st')"
  shows "st' = st \<and> s_of e ''envelope_id'' \<notin> set ids \<and> envelope X c e epoch staged st = (Inr (), st)
    \<and> (if is_recovery e then \<not> rec \<and> object_hash X e = s_of epoch ''recovery_envelope_hash'' \<and> acc' = (rs, True, s_of e ''envelope_id'' # ids)
       else recipient e \<in> set members \<and> recipient e \<notin> set rs \<and> acc' = (recipient e # rs, rec, s_of e ''envelope_id'' # ids))"
proof -
  from assms obtain u where env: "envelope X c e epoch staged st = (Inr (), u)"
    by (auto simp: bundle_envelope_def bindM_run)
  have "u = st" using read_onlyD [OF read_only_envelope env] .
  with env assms show ?thesis
    by (auto simp: bundle_envelope_def bindM_run Let_def is_recovery_def recipient_def split: if_splits)
qed

lemma bundle_fold:
  assumes "foldM (bundle_envelope X c epoch staged members) es (rs, rec, ids) st = (Inr (rs', rec', ids'), st')"
  shows "rs' = rev (map recipient (filter (\<lambda>e. \<not> is_recovery e) es)) @ rs
    \<and> ids' = rev (map (\<lambda>e. s_of e ''envelope_id'') es) @ ids
    \<and> (distinct rs \<longrightarrow> distinct rs') \<and> (distinct ids \<longrightarrow> distinct ids') \<and> set rs' \<subseteq> set rs \<union> set members
    \<and> length (filter is_recovery es) + (if rec then 1 else 0) = (if rec' then 1 else 0)
    \<and> list_all (\<lambda>e. envelope X c e epoch staged st = (Inr (), st)
         \<and> (is_recovery e \<longrightarrow> object_hash X e = s_of epoch ''recovery_envelope_hash'')) es"
  using assms
proof (induction es arbitrary: rs rec ids)
  case (Cons e es)
  from Cons.prems obtain rs1 rec1 ids1 st1 where
    one: "bundle_envelope X c epoch staged members e (rs, rec, ids) st = (Inr (rs1, rec1, ids1), st1)" and
    rest: "foldM (bundle_envelope X c epoch staged members) es (rs1, rec1, ids1) st1 = (Inr (rs', rec', ids'), st')"
    by (auto simp: bindM_run)
  note step = bundle_envelope_run [OF one]
  from step rest have "foldM (bundle_envelope X c epoch staged members) es (rs1, rec1, ids1) st = (Inr (rs', rec', ids'), st')"
    by simp
  from Cons.IH [OF this] step show ?case by (auto split: if_splits)
qed simp

lemma bundle_members_Inr:
  assumes "bundle_members epoch staged reseed existing = Inr ms" and "distinct existing"
  obtains revoked where "a_of epoch ''revoked_device_ids'' = map JStr revoked" "set revoked \<subseteq> set existing"
    "a_of epoch ''members'' = map JStr ms" "distinct ms" "sorted ms" "length ms \<le> 128"
    "set ms = (if reseed then {} else set existing - set revoked) \<union> set (map (\<lambda>d. s_of d ''device_id'') staged)"
proof -
  let ?base = "\<lambda>revoked. if reseed then [] else filter (\<lambda>i. i \<notin> set revoked) existing"
  from assms(1) obtain revoked out where rev: "a_of epoch ''revoked_device_ids'' = map JStr revoked"
    and sub: "\<not> list_ex (\<lambda>i. i \<notin> set existing) revoked"
    and add: "add_staged staged (?base revoked) = Inr out"
    and ms: "ms = sort out" "a_of epoch ''members'' = map JStr ms" "length ms \<le> 128"
    by (auto simp: bundle_members_def id_list_Inr Let_def)
  have "distinct (?base revoked)" using assms(2) by simp
  with add_staged_Inr [OF add] have out: "out = ?base revoked @ map (\<lambda>d. s_of d ''device_id'') staged" "distinct out"
    by blast+
  have "set revoked \<subseteq> set existing" using sub by (auto simp: list_ex_iff)
  moreover have "set ms = (if reseed then {} else set existing - set revoked) \<union> set (map (\<lambda>d. s_of d ''device_id'') staged)"
    using ms(1) out(1) by auto
  ultimately show ?thesis using that [OF rev _ ms(2)] ms out(2) by auto
qed

lemma distinct_existing:
  assumes "keyed registry_key (db_registry st)"
  shows "distinct (bundle_existing c genesis reseed st)"
proof -
  have "inj_on g_device (set (filter (\<lambda>r. g_chain r = ch_id c \<and> g_status r \<noteq> ''revoked'') (db_registry st)))"
    using assms by (auto simp: keyed_def distinct_map inj_on_def registry_key_def)
  moreover have "distinct (db_registry st)" using assms by (simp add: keyed_def distinct_map)
  ultimately show ?thesis
    by (auto simp: bundle_existing_def distinct_map inj_on_def)
qed

text \<open>
  C-bundle: an accepted bundle names exactly the members that remain (those registered and not revoked,
  minus the revoked devices, plus the staged ones; none but the staged ones on a reseed), at most 128,
  with one envelope for each member, one recovery envelope whose hash the epoch commits to, and no other.
\<close>

theorem bundle_covers_members:
  assumes "bundle_check X c epoch envelopes staged genesis reseed st = (Inr (), st')"
    and "keyed registry_key (db_registry st)"
  shows "st' = st \<and> (\<exists>ms revoked. a_of epoch ''members'' = map JStr ms \<and> a_of epoch ''revoked_device_ids'' = map JStr revoked
    \<and> distinct ms \<and> sorted ms \<and> length ms \<le> 128
    \<and> set ms = (if reseed then {} else set (bundle_existing c genesis reseed st) - set revoked)
          \<union> set (map (\<lambda>d. s_of d ''device_id'') staged)
    \<and> set revoked \<subseteq> set (bundle_existing c genesis reseed st)
    \<and> distinct (map (\<lambda>e. s_of e ''envelope_id'') envelopes)
    \<and> distinct (map recipient (filter (\<lambda>e. \<not> is_recovery e) envelopes))
    \<and> set (map recipient (filter (\<lambda>e. \<not> is_recovery e) envelopes)) = set ms
    \<and> (\<exists>e. filter is_recovery envelopes = [e] \<and> object_hash X e = s_of epoch ''recovery_envelope_hash''))"
proof -
  let ?existing = "bundle_existing c genesis reseed st"
  have "st' = st" using read_onlyD [OF read_only_bundle assms(1)] .
  from assms(1) obtain key u ms rs ids where
    key: "signing_key c epoch st = (Inr key, u)" and
    ms: "bundle_members epoch staged reseed (bundle_existing c genesis reseed u) = Inr ms" and
    len: "length envelopes = length ms + 1" and
    fold: "foldM (bundle_envelope X c epoch staged ms) envelopes ([], False, []) u = (Inr (rs, True, ids), st')"
    by (auto simp: bundle_check_def bindM_run)
  have u: "u = st" using read_onlyD [OF read_only_auth(2) key] .
  obtain revoked where m: "a_of epoch ''revoked_device_ids'' = map JStr revoked" "set revoked \<subseteq> set ?existing"
    "a_of epoch ''members'' = map JStr ms" "distinct ms" "sorted ms" "length ms \<le> 128"
    "set ms = (if reseed then {} else set ?existing - set revoked) \<union> set (map (\<lambda>d. s_of d ''device_id'') staged)"
    by (rule bundle_members_Inr [OF ms [unfolded u] distinct_existing [OF assms(2)]])
  let ?rcp = "map recipient (filter (\<lambda>e. \<not> is_recovery e) envelopes)"
  from bundle_fold [OF fold] have f: "rs = rev ?rcp" "distinct rs" "set rs \<subseteq> set ms"
    "distinct (map (\<lambda>e. s_of e ''envelope_id'') envelopes)" "length (filter is_recovery envelopes) = 1"
    "list_all (\<lambda>e. is_recovery e \<longrightarrow> object_hash X e = s_of epoch ''recovery_envelope_hash'') envelopes"
    by (auto simp: list_all_iff)
  have "length ?rcp = length ms"
    using len f(5) sum_length_filter_compl [of is_recovery envelopes] by simp
  moreover have "distinct ?rcp" "set ?rcp \<subseteq> set ms" using f(1-3) by auto
  ultimately have "set ?rcp = set ms"
    using m(4) by (metis card_subset_eq distinct_card finite_set)
  moreover obtain e where e: "filter is_recovery envelopes = [e]" using f(5) by (auto simp: length_Suc_conv)
  moreover have "object_hash X e = s_of epoch ''recovery_envelope_hash''"
  proof -
    have "e \<in> set (filter is_recovery envelopes)" using e by simp
    then show ?thesis using f(6) by (auto simp: list_all_iff)
  qed
  ultimately show ?thesis using \<open>st' = st\<close> m f \<open>distinct ?rcp\<close> by blast
qed

end
