(* ===== verification/Relay_Contract.thy ===== *)
theory Relay_Contract
  imports Relay_Domain
begin

text \<open>
  The contract that every state-changing operation of the relay keeps for the chain it works on: both
  logs stay linked and only grow, numbers never go back, a revoked device stays revoked, stored
  outcomes never change, and no other chain is touched. The contract is reflexive and transitive, so
  a handler satisfies it when each of its steps does.
\<close>

definition log_hashes :: "chain \<Rightarrow> db \<Rightarrow> (nat \<times> string) list" where
  "log_hashes c st = map (\<lambda>r. (l_seq r, l_hash r)) (log_rows c st)"

definition revoked_kept :: "registry_row list \<Rightarrow> registry_row list \<Rightarrow> bool" where
  "revoked_kept rows rows' \<longleftrightarrow>
     (\<forall>k r. row_at registry_key k rows = Some r \<longrightarrow> g_status r = ''revoked'' \<longrightarrow>
        (\<exists>r'. row_at registry_key k rows' = Some r' \<and> g_status r' = ''revoked''))"

text \<open>Accepted objects keep their identity and hash (a body may be removed), receipts stay as they are.\<close>

definition hashes_kept :: "object_row list \<Rightarrow> object_row list \<Rightarrow> bool" where
  "hashes_kept rows rows' \<longleftrightarrow>
     (\<forall>k r. row_at object_key k rows = Some r \<longrightarrow>
        (\<exists>r'. row_at object_key k rows' = Some r' \<and> o_hash r' = o_hash r))"

definition receipts_kept :: "receipt_row list \<Rightarrow> receipt_row list \<Rightarrow> bool" where
  "receipts_kept rows rows' \<longleftrightarrow>
     (\<forall>k r. row_at receipt_key k rows = Some r \<longrightarrow> row_at receipt_key k rows' = Some r)"

text \<open>The rows of every chain but \<open>ci\<close>, in the tables of chain data.\<close>

definition others :: "string \<Rightarrow> db \<Rightarrow> log_row list \<times> object_row list \<times> registry_row list \<times> transparency_row list \<times> receipt_row list" where
  "others ci st =
     (filter (\<lambda>r. l_chain r \<noteq> ci) (db_log st), filter (\<lambda>r. o_chain r \<noteq> ci) (db_objects st),
      filter (\<lambda>r. g_chain r \<noteq> ci) (db_registry st), filter (\<lambda>r. t_chain r \<noteq> ci) (db_transparency st),
      filter (\<lambda>r. r_chain r \<noteq> ci) (db_receipts st))"

definition evolves :: "ext \<Rightarrow> config \<Rightarrow> chain \<Rightarrow> db \<Rightarrow> chain \<Rightarrow> db \<Rightarrow> bool" where
  "evolves X cfg c st c' st' \<longleftrightarrow>
     (chain_ok X cfg c st \<longrightarrow> chain_ok X cfg c' st')
   \<and> ch_id c' = ch_id c \<and> ch_log_id c' = ch_log_id c \<and> ch_transparency_id c' = ch_transparency_id c
   \<and> ch_parameters c' = ch_parameters c
   \<and> ch_head_seq c \<le> ch_head_seq c' \<and> ch_min_available_seq c \<le> ch_min_available_seq c'
   \<and> ch_transparency_index c \<le> ch_transparency_index c'
   \<and> (\<exists>hs. log_hashes c' st' = log_hashes c st @ hs)
   \<and> (\<exists>rs. audit_rows c' st' = audit_rows c st @ rs)
   \<and> (keyed registry_key (db_registry st) \<longrightarrow> keyed registry_key (db_registry st'))
   \<and> revoked_kept (db_registry st) (db_registry st')
   \<and> (\<forall>k r. row_at outcome_key k (db_outcomes st) = Some r \<longrightarrow> row_at outcome_key k (db_outcomes st') = Some r)
   \<and> hashes_kept (db_objects st) (db_objects st') \<and> receipts_kept (db_receipts st) (db_receipts st')
   \<and> others (ch_id c) st' = others (ch_id c) st"

lemma kept_refl [simp]: "revoked_kept rows rows" "hashes_kept objs objs" "receipts_kept rcs rcs"
  by (auto simp: revoked_kept_def hashes_kept_def receipts_kept_def)

lemma kept_trans:
  "revoked_kept rows rows' \<Longrightarrow> revoked_kept rows' rows'' \<Longrightarrow> revoked_kept rows rows''"
  "hashes_kept objs objs' \<Longrightarrow> hashes_kept objs' objs'' \<Longrightarrow> hashes_kept objs objs''"
  "receipts_kept rcs rcs' \<Longrightarrow> receipts_kept rcs' rcs'' \<Longrightarrow> receipts_kept rcs rcs''"
  unfolding revoked_kept_def hashes_kept_def receipts_kept_def by (meson, metis, meson)

lemma hashes_kept_map:
  assumes "\<And>r. object_key (f r) = object_key r" "\<And>r. o_hash (f r) = o_hash r"
  shows "hashes_kept rows (map f rows)"
  using assms by (auto simp: hashes_kept_def row_at_map)

lemma kept_append: "hashes_kept rows (rows @ [r])" "receipts_kept rcs (rcs @ [x])"
  by (auto simp: hashes_kept_def receipts_kept_def row_at_append)

lemma evolves_refl: "evolves X cfg c st c st"
  by (auto simp: evolves_def)

lemma evolves_trans:
  assumes "evolves X cfg c st c' st'" and "evolves X cfg c' st' c'' st''"
  shows "evolves X cfg c st c'' st''"
proof -
  have "\<exists>hs. log_hashes c'' st'' = log_hashes c st @ hs" "\<exists>rs. audit_rows c'' st'' = audit_rows c st @ rs"
    using assms unfolding evolves_def by (metis append.assoc)+
  moreover have "revoked_kept (db_registry st) (db_registry st'')" "hashes_kept (db_objects st) (db_objects st'')"
    "receipts_kept (db_receipts st) (db_receipts st'')"
    using assms unfolding evolves_def by (blast intro: kept_trans)+
  moreover have "others (ch_id c) st'' = others (ch_id c) st" "ch_id c'' = ch_id c"
    using assms unfolding evolves_def by metis+
  ultimately show ?thesis using assms by (auto simp: evolves_def)
qed

text \<open>Work on other tables, with the chain unchanged.\<close>

lemma evolves_frame:
  assumes "evolves X cfg c st c' st'"
    and "db_log st'' = db_log st'" "db_transparency st'' = db_transparency st'" "db_registry st'' = db_registry st'"
    and "db_outcomes st'' = db_outcomes st'" "db_objects st'' = db_objects st'" "db_receipts st'' = db_receipts st'"
  shows "evolves X cfg c st c' st''"
proof -
  have "chain_ok X cfg c' st'' \<longleftrightarrow> chain_ok X cfg c' st'" by (rule chain_ok_tables [OF assms(2,3)])
  moreover have "log_hashes c' st'' = log_hashes c' st'" "audit_rows c' st'' = audit_rows c' st'"
    "others ci st'' = others ci st'" for ci
    using assms(2-7) by (simp_all add: log_hashes_def log_rows_def audit_rows_def others_def)
  ultimately show ?thesis using assms(1,4-7) by (simp add: evolves_def)
qed

lemma evolves_counters [simp]:
  "evolves X cfg c st c' (st'\<lparr>db_tick := t\<rparr>) \<longleftrightarrow> evolves X cfg c st c' st'"
  "evolves X cfg c st c' (st'\<lparr>db_ids := t\<rparr>) \<longleftrightarrow> evolves X cfg c st c' st'"
  by (auto elim: evolves_frame)

text \<open>The parts of a chain the contract does not speak about may change.\<close>

lemma evolves_epoch [simp]:
  "evolves X cfg c st (c'\<lparr>ch_epoch := e\<rparr>) st' \<longleftrightarrow> evolves X cfg c st c' st'"
proof -
  have "chain_ok X cfg (c'\<lparr>ch_epoch := e\<rparr>) st' \<longleftrightarrow> chain_ok X cfg c' st'"
    "log_hashes (c'\<lparr>ch_epoch := e\<rparr>) st' = log_hashes c' st'" "audit_rows (c'\<lparr>ch_epoch := e\<rparr>) st' = audit_rows c' st'"
    by (simp_all add: chain_ok_def log_ok_def audit_ok_def log_hashes_def log_rows_def audit_rows_def)
  then show ?thesis by (simp add: evolves_def)
qed

subsection \<open>The store\<close>

lemma filter_append_other: "(\<not> p r) \<Longrightarrow> filter p (rows @ [r]) = filter p rows"
  by simp

lemma transparency_evolves:
  assumes "transparency X cfg c op digest seq code st = (Inr (c', e, h), st')"
  shows "evolves X cfg c st c' st'"
proof -
  note f = transparency_fields [OF assms] and r = transparency_run(4) [OF assms]
  have "log_hashes c' st' = log_hashes c st" by (simp add: log_hashes_def log_rows_def f r)
  moreover have "\<exists>rs. audit_rows c' st' = audit_rows c st @ rs" by (simp add: audit_rows_def f r)
  moreover have "others (ch_id c) st' = others (ch_id c) st" by (simp add: others_def r)
  moreover have "chain_ok X cfg c st \<longrightarrow> chain_ok X cfg c' st'" using transparency_chain_ok [OF assms] by blast
  ultimately show ?thesis unfolding evolves_def f by (simp add: r)
qed

lemma filter_map_same:
  assumes "\<And>r. p (f r) = p r" and "\<And>r. p r \<Longrightarrow> f r = r"
  shows "filter p (map f rows) = filter p rows"
  by (induction rows) (auto simp: assms)

lemma put_object_evolves:
  assumes "put_object X (ch_id c) kind v place st = (Inr fresh, st')"
  shows "evolves X cfg c st c st'"
proof -
  from assms obtain oid where oid: "object_id v kind = Some oid" by (auto simp: put_object_def bindM_run)
  show ?thesis
  proof (cases fresh)
    case False
    with put_object_run(2) [OF assms oid] show ?thesis by (simp add: evolves_refl)
  next
    case True
    from put_object_run(4) [OF assms oid True] obtain row where st': "st' = st\<lparr>db_objects := db_objects st @ [row]\<rparr>"
      "o_chain row = ch_id c" by auto
    then have "others (ch_id c) st' = others (ch_id c) st" by (simp add: others_def)
    moreover have "log_hashes c st' = log_hashes c st" "audit_rows c st' = audit_rows c st"
      "chain_ok X cfg c st' \<longleftrightarrow> chain_ok X cfg c st"
      using chain_ok_tables [of st' st] by (simp_all add: st' log_hashes_def log_rows_def audit_rows_def)
    ultimately show ?thesis by (simp add: evolves_def st'(1) kept_append)
  qed
qed

lemma append_log_evolves:
  assumes "append_log X c kind oid v st = (Inr (c', entry, received), st')" and "object_id v kind = Some oid"
  shows "evolves X cfg c st c' st'"
proof -
  let ?seq = "Suc (ch_head_seq c)"
  let ?f = "\<lambda>r. if object_key r = (ch_id c, kind, oid) \<and> o_log r = None
     then r\<lparr>o_log := Some (ch_log_id c), o_seq := Some ?seq\<rparr> else r"
  note f = append_log_fields [OF assms] and lr = append_log_run [OF assms]
  from lr(5) obtain objs where st': "st' = st\<lparr>db_tick := db_tick st + 1, db_objects := objs, db_log := db_log st @
      [\<lparr>l_chain = ch_id c, l_log = ch_log_id c, l_seq = ch_head_seq c + 1, l_entry = Some entry, l_hash = ch_head_hash c'\<rparr>]\<rparr>"
    by blast
  from assms(1) obtain fresh st1 where
    put: "put_object X (ch_id c) kind v (Some (ch_log_id c, ?seq)) (st\<lparr>db_tick := Suc (db_tick st)\<rparr>) = (Inr fresh, st1)" and
    objs: "db_objects st' = map ?f (db_objects st1)"
    by (auto simp: append_log_def bindM_run Let_def insert_row_run update_rows_run)
  have "others (ch_id c) st1 = others (ch_id c) st" and kept1: "hashes_kept (db_objects st) (db_objects st1)"
    using put_object_evolves [OF put] by (auto simp: evolves_def others_def)
  then have "filter (\<lambda>r. o_chain r \<noteq> ch_id c) (db_objects st1) = filter (\<lambda>r. o_chain r \<noteq> ch_id c) (db_objects st)"
    by (simp add: others_def)
  moreover have "filter (\<lambda>r. o_chain r \<noteq> ch_id c) (map ?f rows) = filter (\<lambda>r. o_chain r \<noteq> ch_id c) rows" for rows
    by (rule filter_map_same) (auto simp: object_key_def)
  ultimately have "others (ch_id c) st' = others (ch_id c) st" using objs by (simp add: others_def st')
  moreover have "hashes_kept (db_objects st1) (map ?f (db_objects st1))"
    by (rule hashes_kept_map) (simp_all add: object_key_def)
  with kept1 objs have "hashes_kept (db_objects st) (db_objects st')" using kept_trans(2) by simp
  moreover have "\<exists>hs. log_hashes c' st' = log_hashes c st @ hs" by (simp add: log_hashes_def log_rows_def f st')
  moreover have "audit_rows c' st' = audit_rows c st" by (simp add: audit_rows_def f st')
  moreover have "chain_ok X cfg c st \<longrightarrow> chain_ok X cfg c' st'" using append_log_chain_ok [OF assms] by blast
  ultimately show ?thesis unfolding evolves_def f by (simp add: st')
qed

lemma store_receipt_evolves:
  assumes "store_receipt c kind oid r st = (Inr (), st')"
  shows "evolves X cfg c st c st'"
proof -
  from assms obtain row where st': "st' = st\<lparr>db_receipts := db_receipts st @ [row]\<rparr>" "r_chain row = ch_id c"
    by (cases st) (auto simp: store_receipt_def insert_row_run)
  then have "others (ch_id c) st' = others (ch_id c) st" by (simp add: others_def)
  moreover have "log_hashes c st' = log_hashes c st" "audit_rows c st' = audit_rows c st"
    "chain_ok X cfg c st' \<longleftrightarrow> chain_ok X cfg c st"
    using chain_ok_tables [of st' st] by (simp_all add: st' log_hashes_def log_rows_def audit_rows_def)
  ultimately show ?thesis by (simp add: evolves_def st'(1) kept_append)
qed

lemma append_entry_evolves:
  assumes "append_entry X cfg c kind v st = (Inr (c', entry, r), st')"
  shows "evolves X cfg c st c' st'"
  using assms
proof (cases rule: append_entry_cases)
  case (fresh oid)
  from fresh(3) obtain c1 received st1 te th st2 st3 where
    log: "append_log X c kind oid v st = (Inr (c1, entry, received), st1)" and
    tr: "transparency X cfg c1 ''accept'' (object_hash X v) (Some (ch_head_seq c1)) None st1 = (Inr (c', te, th), st2)" and
    mk: "make_receipt X cfg c' v \<lparr>rl_seq = Some (ch_head_seq c1), rl_entry_hash = Some (object_hash X entry),
       rl_previous = ch_head_hash c, rl_received = received, rl_hash = th\<rparr> st2 = (Inr r, st3)" and
    sr: "store_receipt c' kind oid r st3 = (Inr (), st')"
    by (auto simp: append_new_def bindM_run Let_def)
  have "evolves X cfg c st c' st2"
    by (rule evolves_trans [OF append_log_evolves [OF log fresh(1)] transparency_evolves [OF tr]])
  then have "evolves X cfg c st c' st3" by (simp add: make_receipt_run(1) [OF mk])
  then show ?thesis by (rule evolves_trans [OF _ store_receipt_evolves [OF sr]])
qed (simp add: evolves_refl)

text \<open>The rules a handler's proof steps with: the contract since the start of the handler.\<close>

lemma wps_append_evolves:
  assumes "evolves X cfg c0 st0 c st"
    and "\<And>c' e r st'. evolves X cfg c0 st0 c' st' \<Longrightarrow> append_entry X cfg c kind v st = (Inr (c', e, r), st') \<Longrightarrow> Q (c', e, r) st'"
  shows "wps (append_entry X cfg c kind v) Q st"
proof (rule wps_run)
  fix x st' assume run: "append_entry X cfg c kind v st = (Inr x, st')"
  obtain c' e r where x: "x = (c', e, r)" by (cases x)
  from run show "Q x st'" using assms(2) evolves_trans [OF assms(1) append_entry_evolves] unfolding x by blast
qed

lemma wps_transparency_evolves:
  assumes "evolves X cfg c0 st0 c st"
    and "\<And>c' e h st'. evolves X cfg c0 st0 c' st' \<Longrightarrow> Q (c', e, h) st'"
  shows "wps (transparency X cfg c op digest seq code) Q st"
proof (rule wps_run)
  fix x st' assume run: "transparency X cfg c op digest seq code st = (Inr x, st')"
  obtain c' e h where x: "x = (c', e, h)" by (cases x)
  from run show "Q x st'" using assms(2) evolves_trans [OF assms(1) transparency_evolves] unfolding x by blast
qed

lemma wps_outcome_evolves:
  assumes "evolves X cfg c0 st0 c st" and "\<And>st'. evolves X cfg c0 st0 c st' \<Longrightarrow> Q () st'"
  shows "wps (outcome X ci scope oid payload response) Q st"
proof (rule wps_run)
  fix u st' assume run: "outcome X ci scope oid payload response st = (Inr u, st')"
  then obtain row where ins: "insert_row db_outcomes db_outcomes_update (same outcome_key) row st = (Inr (), st')"
    by (simp add: outcome_def)
  then have st': "st' = db_outcomes_update (\<lambda>rs. rs @ [row]) st" by (simp add: insert_row_run)
  have keep: "row_at outcome_key k (db_outcomes st) = Some r \<Longrightarrow> row_at outcome_key k (db_outcomes st') = Some r" for k r
    using outcomes.insert_keeps_rows [OF ins] by blast
  have "log_hashes c st' = log_hashes c st" "audit_rows c st' = audit_rows c st" "others (ch_id c) st' = others (ch_id c) st"
    "chain_ok X cfg c st' \<longleftrightarrow> chain_ok X cfg c st"
    using chain_ok_tables [of st' st] by (simp_all add: st' log_hashes_def log_rows_def audit_rows_def others_def)
  with keep have "evolves X cfg c st c st'" by (simp add: evolves_def) (simp add: st')
  from assms(2) [OF evolves_trans [OF assms(1) this]] show "Q u st'" by simp
qed

lemma wps_register_evolves:
  assumes "evolves X cfg c0 st0 c st" and "\<And>st'. evolves X cfg c0 st0 c st' \<Longrightarrow> Q () st'"
  shows "wps (register c d seq state) Q st"
proof (rule wps_run)
  fix u st' assume run: "register c d seq state st = (Inr u, st')"
  then obtain row st1 h n where ins: "insert_row db_registry db_registry_update (same registry_key) row st = (Inr (), st1)"
    and row: "g_chain row = ch_id c" and st': "st' = st1\<lparr>db_registry_history := h, db_registry_seq := n\<rparr>"
    by (auto simp: register_def bindM_run Let_def registry_trigger_def)
  from ins have st1: "st1 = db_registry_update (\<lambda>rs. rs @ [row]) st" by (simp add: insert_row_run)
  have "revoked_kept (db_registry st) (db_registry st1)"
    unfolding revoked_kept_def using registry.insert_keeps_rows [OF ins] by blast
  moreover have "keyed registry_key (db_registry st) \<longrightarrow> keyed registry_key (db_registry st1)"
    using registry.insert_keyed [OF _ ins] by blast
  moreover have "log_hashes c st' = log_hashes c st" "audit_rows c st' = audit_rows c st" "others (ch_id c) st' = others (ch_id c) st"
    "chain_ok X cfg c st' \<longleftrightarrow> chain_ok X cfg c st"
    using chain_ok_tables [of st' st] row by (simp_all add: st' st1 log_hashes_def log_rows_def audit_rows_def others_def)
  ultimately have "evolves X cfg c st c st'" by (simp add: evolves_def) (simp add: st' st1)
  from assms(2) [OF evolves_trans [OF assms(1) this]] show "Q u st'" by simp
qed

text \<open>An update of the registry that keeps the keys and never takes a revocation back.\<close>

lemma wps_update_registry_evolves:
  assumes "evolves X cfg c0 st0 c st" and "\<And>st'. evolves X cfg c0 st0 c st' \<Longrightarrow> Q () st'"
    and "\<And>r. registry_key (f r) = registry_key r" and "\<And>r. p r \<Longrightarrow> g_chain r = ch_id c"
    and "\<And>r. p r \<Longrightarrow> g_status r = ''revoked'' \<Longrightarrow> g_status (f r) = ''revoked''"
  shows "wps (update_registry p f) Q st"
proof (rule wps_run)
  fix u st' assume run: "update_registry p f st = (Inr u, st')"
  let ?f = "\<lambda>r. if p r then f r else r"
  from run obtain h n where st': "st' = (db_registry_update (map ?f) st)\<lparr>db_registry_history := h, db_registry_seq := n\<rparr>"
    by (auto simp: update_registry_def bindM_run update_rows_run registry_trigger_def)
  have key: "registry_key (?f r) = registry_key r" for r using assms(3) by simp
  then have "keyed registry_key (db_registry st) \<longrightarrow> keyed registry_key (db_registry st')"
    by (simp add: st' keyed_def comp_def)
  moreover have "revoked_kept (db_registry st) (db_registry st')"
    using row_at_map [of registry_key ?f, OF key] assms(5) by (auto simp: revoked_kept_def st')
  moreover have "filter (\<lambda>r. g_chain r \<noteq> ch_id c) (map ?f (db_registry st)) = filter (\<lambda>r. g_chain r \<noteq> ch_id c) (db_registry st)"
    by (rule filter_map_same) (use key assms(4) in \<open>auto simp: registry_key_def\<close>)
  then have "others (ch_id c) st' = others (ch_id c) st" by (simp add: others_def st')
  moreover have "log_hashes c st' = log_hashes c st" "audit_rows c st' = audit_rows c st"
    "chain_ok X cfg c st' \<longleftrightarrow> chain_ok X cfg c st"
    using chain_ok_tables [of st' st] by (simp_all add: st' log_hashes_def log_rows_def audit_rows_def)
  ultimately have "evolves X cfg c st c st'" by (simp add: evolves_def) (simp add: st')
  from assms(2) [OF evolves_trans [OF assms(1) this]] show "Q u st'" by simp
qed


text \<open>A row added to or changed in a table the contract does not speak about.\<close>

lemma wps_other_table:
  assumes "evolves X cfg c0 st0 c st" and "\<And>x st'. evolves X cfg c0 st0 c st' \<Longrightarrow> Q x st'"
    and "\<And>r st'. m st = (r, st') \<Longrightarrow> db_log st' = db_log st \<and> db_transparency st' = db_transparency st
      \<and> db_registry st' = db_registry st \<and> db_outcomes st' = db_outcomes st \<and> db_objects st' = db_objects st
      \<and> db_receipts st' = db_receipts st"
  shows "wps m Q st"
proof (rule wps_run)
  fix x st' assume "m st = (Inr x, st')"
  from assms(3) [OF this] show "Q x st'"
    by (intro assms(2) evolves_frame [OF assms(1)]) simp_all
qed

lemma wps_publish_notice_evolves:
  assumes "evolves X cfg c0 st0 c st" and "\<And>c' st'. evolves X cfg c0 st0 c' st' \<Longrightarrow> Q c' st'"
  shows "wps (publish_notice X cfg c) Q st"
proof -
  have nt: "wps (upsert_row db_notices db_notices_update clash r) Q' u"
    if "evolves X cfg c0 st0 c' u" "\<And>x u'. evolves X cfg c0 st0 c' u' \<Longrightarrow> Q' x u'" for clash r Q' u c'
    by (rule wps_other_table [OF that]) (auto simp: upsert_row_def split: if_splits)
  have "evolves X cfg c0 st0 c (st\<lparr>db_ids := i, db_tick := t\<rparr>)" for i t using assms(1) by simp
  then show ?thesis
    unfolding publish_notice_def Let_def
    by (intro wp_intros wps_transparency_evolves nt wps_read_only read_only_select assms; assumption?) simp_all
qed

lemma wps_snapshot_part_evolves:
  assumes "evolves X cfg c0 st0 c st"
    and "\<And>c' r st'. evolves X cfg c0 st0 c' st' \<Longrightarrow> Q (c', r) st'"
  shows "wps (snapshot_part X cfg c v) Q st"
proof -
  have put: "wps (put_object X (ch_id c) kind v place) Q' u"
    if "evolves X cfg c0 st0 c u" "\<And>x u'. evolves X cfg c0 st0 c u' \<Longrightarrow> Q' x u'" for kind place u Q'
  proof (rule wps_run)
    fix x u' assume "put_object X (ch_id c) kind v place u = (Inr x, u')"
    from evolves_trans [OF that(1) put_object_evolves [OF this]] show "Q' x u'" by (rule that(2))
  qed
  have rc: "wps (receipt ci kind oid) Q' u" if "\<And>x. Q' x u" for ci kind oid Q' u
    unfolding receipt_def by (intro wp_intros wps_read_only read_only_select that)
  have mk: "wps (make_receipt X cfg c' v lnk) Q' u"
    if "evolves X cfg c0 st0 c' u" "\<And>x u'. evolves X cfg c0 st0 c' u' \<Longrightarrow> Q' x u'" for c' lnk u Q'
  proof (rule wps_run)
    fix x u' assume "make_receipt X cfg c' v lnk u = (Inr x, u')"
    from make_receipt_run(1) [OF this] that(1) show "Q' x u'" by (intro that(2)) simp
  qed
  have sr: "wps (store_receipt c' kind oid r) Q' u"
    if "evolves X cfg c0 st0 c' u" "\<And>x u'. evolves X cfg c0 st0 c' u' \<Longrightarrow> Q' x u'" for c' kind oid r u Q'
  proof (rule wps_run)
    fix x u' assume "store_receipt c' kind oid r u = (Inr x, u')"
    then have "store_receipt c' kind oid r u = (Inr (), u')" by simp
    from evolves_trans [OF that(1) store_receipt_evolves [OF this]] show "Q' x u'" by (rule that(2))
  qed
  show ?thesis
    unfolding snapshot_part_def
    by (intro wp_intros put rc wps_transparency_evolves mk sr assms; assumption?) simp_all
qed

subsection \<open>Committing an epoch\<close>

lemma wps_foldM:
  assumes "I acc st" and "\<And>x acc st. x \<in> set xs \<Longrightarrow> I acc st \<Longrightarrow> wps (f x acc) I st"
    and "\<And>acc st. I acc st \<Longrightarrow> Q acc st"
  shows "wps (foldM f xs acc) Q st"
  by (rule wp_mono [OF wp_foldM [of xs I f "\<lambda>_ _. True"]]) (use assms in auto)

lemma wps_commit_devices:
  assumes "evolves X cfg c0 st0 (fst acc) st" and "\<And>acc' st'. evolves X cfg c0 st0 (fst acc') st' \<Longrightarrow> Q acc' st'"
  shows "wps (commit_devices X cfg genesis d acc) Q st"
  unfolding commit_devices_def
  by (intro wp_intros wps_append_evolves wps_register_evolves; (simp add: assms)?) (use assms in auto)

lemma wps_commit_objects:
  assumes "evolves X cfg c0 st0 (fst acc) st" and "\<And>acc' st'. evolves X cfg c0 st0 (fst acc') st' \<Longrightarrow> Q acc' st'"
  shows "wps (commit_objects X cfg kind d acc) Q st"
  unfolding commit_objects_def
  by (intro wp_intros wps_append_evolves; (simp add: assms)?) (use assms in auto)

lemma wps_revoke_device:
  assumes "evolves X cfg c0 st0 c st" and "\<And>st'. evolves X cfg c0 st0 c st' \<Longrightarrow> Q () st'"
  shows "wps (revoke_device c seq i u) Q st"
  unfolding revoke_device_def
  by (intro wp_intros wps_update_registry_evolves wps_read_only read_only_basic assms; assumption?)
    (simp_all add: registry_key_def assms)

lemma wps_commit_epoch:
  assumes "evolves X cfg c0 st0 c st"
    and "\<And>c' e rs st'. evolves X cfg c0 st0 c' st' \<Longrightarrow> ch_epoch c' = ec_epoch commit \<Longrightarrow> Q (c', e, rs) st'"
  shows "wps (commit_epoch X cfg c commit) Q st"
proof -
  let ?I = "\<lambda>acc st. evolves X cfg c0 st0 (fst acc) st"
  have dev: "wps (foldM (commit_devices X cfg g) ds acc) Q' u"
    if "?I acc u" "\<And>acc' u'. ?I acc' u' \<Longrightarrow> Q' acc' u'" for g ds acc Q' u
    by (rule wps_foldM [of ?I]) (use that in \<open>auto intro: wps_commit_devices\<close>)
  have obj: "wps (foldM (commit_objects X cfg kind) ds acc) Q' u"
    if "?I acc u" "\<And>acc' u'. ?I acc' u' \<Longrightarrow> Q' acc' u'" for kind ds acc Q' u
    by (rule wps_foldM [of ?I]) (use that in \<open>auto intro: wps_commit_objects\<close>)
  have rev: "wps (foldM (revoke_device c' seq) ids x) Q' u"
    if "evolves X cfg c0 st0 c' u" "\<And>x u'. evolves X cfg c0 st0 c' u' \<Longrightarrow> Q' x u'" for c' seq ids x Q' u
    by (rule wps_foldM [of "\<lambda>_. evolves X cfg c0 st0 c'"]) (use that in \<open>auto intro: wps_revoke_device\<close>)
  show ?thesis
    unfolding commit_epoch_def Let_def
    by (intro wp_intros dev obj wps_commit_objects wps_append_evolves rev assms; (assumption | simp)?)
      (use assms in simp_all)
qed

end
