(* ===== verification/Relay_Retention.thy ===== *)
theory Relay_Retention
  imports Relay_Contract
begin

text \<open>
  \<^verbatim>\<open>src/api/retention.rs\<close>: old envelopes are removed only after a snapshot handoff.
\<close>

definition policy_of :: "chain \<Rightarrow> json" where
  "policy_of c = jget (ch_parameters c) ''policy''"

text \<open>\<^verbatim>\<open>json_extract(body,'$.key') = value\<close>: false when the body is \<^verbatim>\<open>NULL\<close>.\<close>

definition body_has :: "json option \<Rightarrow> string \<Rightarrow> json \<Rightarrow> bool" where
  "body_has body k x = (case body of None \<Rightarrow> False | Some b \<Rightarrow> jfind b k = Some x)"

text \<open>\<^verbatim>\<open>CAST(text AS INTEGER)\<close> of an identifier: the value of its leading digits.\<close>

definition cast_integer :: "string \<Rightarrow> nat" where
  "cast_integer t = digits_val (takeWhile ascii_digit t)"

subsection \<open>Expiry\<close>

definition entry_is_envelope :: "json \<Rightarrow> nat \<Rightarrow> bool" where
  "entry_is_envelope e epoch \<longleftrightarrow> jget e ''kind'' = JStr ''envelope'' \<and> jget (jget e ''object'') ''epoch'' = JNat epoch"

definition expire_epoch :: "chain \<Rightarrow> nat \<Rightarrow> unit \<Rightarrow> unit tx" where
  "expire_epoch c epoch u =
     bindM (update_rows db_log_update
        (\<lambda>r. l_chain r = ch_id c \<and> (case l_entry r of None \<Rightarrow> False | Some e \<Rightarrow> entry_is_envelope e epoch)
           \<and> l_seq r < ch_min_available_seq c) (\<lambda>r. r\<lparr>l_entry := None\<rparr>)) (\<lambda>_.
     bindM (update_rows db_objects_update
        (\<lambda>r. o_chain r = ch_id c \<and> o_kind r = ''envelope'' \<and> body_has (o_body r) ''epoch'' (JNat epoch))
        (\<lambda>r. r\<lparr>o_body := None\<rparr>)) (\<lambda>_.
     update_rows db_handoffs_update (\<lambda>r. handoff_key r = (ch_id c, epoch)) (\<lambda>r. r\<lparr>hf_expired := True\<rparr>)))"

definition expire :: "ext \<Rightarrow> chain \<Rightarrow> unit tx" where
  "expire X c =
     bindM (now X) (\<lambda>t.
     bindM (select_all db_handoffs (\<lambda>r. hf_chain r = ch_id c \<and> hf_due r \<le> t \<and> \<not> hf_expired r)) (\<lambda>rows.
     foldM (expire_epoch c) (map hf_epoch rows) ()))"

definition expired :: "chain \<Rightarrow> nat \<Rightarrow> bool tx" where
  "expired c epoch =
     bindM (count_rows db_handoffs (\<lambda>r. hf_chain r = ch_id c \<and> hf_epoch r = epoch \<and> hf_expired r)) (\<lambda>k. ret (k > 0))"

subsection \<open>Handoff\<close>

text \<open>The envelopes of an epoch that the pruned prefix does not cover.\<close>

definition late_envelope :: "chain \<Rightarrow> nat \<Rightarrow> nat \<Rightarrow> object_row \<Rightarrow> bool" where
  "late_envelope c number through r \<longleftrightarrow>
     o_chain r = ch_id c \<and> o_kind r = ''envelope'' \<and> body_has (o_body r) ''epoch'' (JNat number)
     \<and> ((case o_seq r of None \<Rightarrow> False | Some q \<Rightarrow> q > through) \<or> (case o_log r of None \<Rightarrow> False | Some l \<Rightarrow> l \<noteq> ch_log_id c))"

text \<open>
  The commit time of an epoch, by the join of its object with its log entry. A missing row and a
  removed entry are both SQL errors.
\<close>

definition committed_at :: "chain \<Rightarrow> string \<Rightarrow> nat tx" where
  "committed_at c oid =
     bindM (select_one db_objects (\<lambda>r. object_key r = (ch_id c, ''epoch'', oid))) (\<lambda>o'.
     bindM (select_one db_log (\<lambda>l. l_chain l = ch_id c \<and> Some (l_log l) = o_log o' \<and> Some (l_seq l) = o_seq o')) (\<lambda>l.
     case (case l_entry l of None \<Rightarrow> None | Some e \<Rightarrow> as_u64 (jget e ''committed_at_ms'')) of
       None \<Rightarrow> lift (Inl sql_error)
     | Some t \<Rightarrow> ret t))"

definition handoff_epoch :: "ext \<Rightarrow> chain \<Rightarrow> json \<Rightarrow> nat \<Rightarrow> json \<Rightarrow> unit \<Rightarrow> unit tx" where
  "handoff_epoch X c cmp through epoch u =
     (let number = n_of epoch ''epoch'' in
      bindM (count_rows db_objects (late_envelope c number through)) (\<lambda>late.
      if late \<noteq> 0 then ret ()
      else
        bindM (object (ch_id c) ''epoch'' (show_nat (number + 1))) (\<lambda>b.
        bindM (lift (ok_or ''COMPACTION_UNSAFE'' b)) (\<lambda>successor.
        bindM (committed_at c (show_nat (n_of successor ''epoch''))) (\<lambda>committed.
        bindM (if jget (policy_of c) ''epoch_retention'' = JStr ''immediate'' then now X
               else ret (committed + n_of (policy_of c) ''epoch_window_ms'')) (\<lambda>due.
        bindM (insert_ignore db_handoffs db_handoffs_update (same handoff_key)
           \<lparr>hf_chain = ch_id c, hf_epoch = number, hf_compaction = s_of cmp ''compaction_id'', hf_due = due,
            hf_expired = False\<rparr>) (\<lambda>_.
        ret ())))))))"

definition handoff :: "ext \<Rightarrow> chain \<Rightarrow> json \<Rightarrow> nat \<Rightarrow> unit tx" where
  "handoff X c cmp through =
     (if jget (policy_of c) ''epoch_retention'' = JStr ''retain'' then ret ()
      else
        bindM (select_all db_objects (\<lambda>r. o_chain r = ch_id c \<and> o_kind r = ''epoch''
           \<and> cast_integer (o_id r) < n_of (ch_epoch c) ''epoch'' \<and> o_body r \<noteq> None)) (\<lambda>rows.
        bindM (foldM (handoff_epoch X c cmp through) (List.map_filter o_body rows) ()) (\<lambda>_.
        expire X c)))"

subsection \<open>Maintenance\<close>

text \<open>A transaction: what it wrote is kept when it succeeds and undone when it fails.\<close>

definition transaction :: "'a tx \<Rightarrow> 'a tx" where
  "transaction m = (\<lambda>st. case m st of (Inr x, st') \<Rightarrow> (Inr x, st') | (Inl e, st') \<Rightarrow> (Inl e, rollback_to st st'))"

definition maintain_chain :: "ext \<Rightarrow> config \<Rightarrow> string \<Rightarrow> unit \<Rightarrow> unit tx" where
  "maintain_chain X cfg ci u =
     bindM (load ci) (\<lambda>c.
     case c of
       None \<Rightarrow> ret ()
     | Some c \<Rightarrow> bindM (expire X c) (\<lambda>_. quota X cfg ci))"

definition maintenance :: "ext \<Rightarrow> config \<Rightarrow> unit tx" where
  "maintenance X cfg = transaction
     (bindM (now X) (\<lambda>t.
      bindM (select_all db_handoffs (\<lambda>r. \<not> hf_expired r \<and> hf_due r \<le> t)) (\<lambda>rows.
      foldM (maintain_chain X cfg) (remdups (map hf_chain rows)) ())))"

subsection \<open>Removal keeps the logs\<close>

text \<open>
  Removing entries below \<^verbatim>\<open>min_available_seq\<close> keeps numbers and hashes, so both logs stay linked.
\<close>

lemma log_rows_update:
  assumes "\<And>r. p r \<Longrightarrow> l_chain r = ch_id c"
  shows "log_rows c (db_log_update (map (\<lambda>r. if p r then r\<lparr>l_entry := None\<rparr> else r)) st)
    = map (\<lambda>r. if p r then r\<lparr>l_entry := None\<rparr> else r) (log_rows c st)"
proof -
  have "filter q (map f rows) = map f (filter q rows)" if "\<And>r. q (f r) = q r" for q f and rows :: "log_row list"
    using that by (induction rows) auto
  then show ?thesis by (simp add: log_rows_def)
qed

lemma log_forget_evolves:
  assumes "\<And>r. p r \<Longrightarrow> l_chain r = ch_id c \<and> l_seq r < ch_min_available_seq c"
  shows "evolves X cfg c st c (db_log_update (map (\<lambda>r. if p r then r\<lparr>l_entry := None\<rparr> else r)) st)"
proof -
  let ?f = "\<lambda>r. if p r then r\<lparr>l_entry := None\<rparr> else r"
  let ?st' = "db_log_update (map ?f) st"
  have rows: "log_rows c ?st' = map ?f (log_rows c st)" by (rule log_rows_update) (use assms in blast)
  have links: "linked lk prev i (map log_link (map ?f ls))" if "linked lk prev i (map log_link ls)" for lk prev i ls
    using that
  proof (induction ls arbitrary: prev i)
    case (Cons l ls)
    then show ?case by (auto simp: log_link_def)
  qed simp
  have heads: "head_of h (map log_link (map ?f ls)) = head_of h (map log_link ls)" for h ls
    by (induction ls arbitrary: h) (auto simp: log_link_def)
  have "log_ok X c ?st'" if "log_ok X c st"
    using that links heads unfolding log_ok_def rows by (auto simp del: map_map dest: assms)
  moreover have "audit_ok X cfg c ?st' \<longleftrightarrow> audit_ok X cfg c st"
    by (rule audit_ok_cong) (simp_all add: audit_rows_def)
  moreover have "log_hashes c ?st' = log_hashes c st" unfolding log_hashes_def rows by (simp add: comp_def)
  moreover have "filter (\<lambda>r. l_chain r \<noteq> ch_id c) (map ?f (db_log st)) = filter (\<lambda>r. l_chain r \<noteq> ch_id c) (db_log st)"
    by (rule filter_map_same) (use assms in auto)
  then have "others (ch_id c) ?st' = others (ch_id c) st" by (simp add: others_def)
  ultimately show ?thesis by (simp add: evolves_def chain_ok_def audit_rows_def)
qed

lemma objects_forget_evolves:
  assumes "\<And>r. p r \<Longrightarrow> o_chain r = ch_id c"
  shows "evolves X cfg c st c (db_objects_update (map (\<lambda>r. if p r then r\<lparr>o_body := None\<rparr> else r)) st)"
proof -
  let ?f = "\<lambda>r. if p r then r\<lparr>o_body := None\<rparr> else r"
  let ?st' = "db_objects_update (map ?f) st"
  have "filter (\<lambda>r. o_chain r \<noteq> ch_id c) (map ?f (db_objects st)) = filter (\<lambda>r. o_chain r \<noteq> ch_id c) (db_objects st)"
    by (rule filter_map_same) (use assms in auto)
  then have "others (ch_id c) ?st' = others (ch_id c) st" by (simp add: others_def)
  moreover have "log_hashes c ?st' = log_hashes c st" "audit_rows c ?st' = audit_rows c st"
    "chain_ok X cfg c ?st' \<longleftrightarrow> chain_ok X cfg c st"
    using chain_ok_tables [of ?st' st] by (simp_all add: log_hashes_def log_rows_def audit_rows_def)
  moreover have "hashes_kept (db_objects st) (db_objects ?st')"
    using hashes_kept_map [of ?f] by (simp add: object_key_def)
  ultimately show ?thesis by (simp add: evolves_def)
qed

lemma wps_forget_log:
  assumes "evolves X cfg c0 st0 c st" and "\<And>st'. evolves X cfg c0 st0 c st' \<Longrightarrow> Q () st'"
    and "\<And>r. p r \<Longrightarrow> l_chain r = ch_id c \<and> l_seq r < ch_min_available_seq c"
  shows "wps (update_rows db_log_update p (\<lambda>r. r\<lparr>l_entry := None\<rparr>)) Q st"
proof -
  have "evolves X cfg c st c (db_log_update (map (\<lambda>r. if p r then r\<lparr>l_entry := None\<rparr> else r)) st)"
    by (rule log_forget_evolves) (rule assms(3))
  from assms(2) [OF evolves_trans [OF assms(1) this]] show ?thesis by simp
qed

lemma wps_forget_objects:
  assumes "evolves X cfg c0 st0 c st" and "\<And>st'. evolves X cfg c0 st0 c st' \<Longrightarrow> Q () st'"
    and "\<And>r. p r \<Longrightarrow> o_chain r = ch_id c"
  shows "wps (update_rows db_objects_update p (\<lambda>r. r\<lparr>o_body := None\<rparr>)) Q st"
proof -
  have "evolves X cfg c st c (db_objects_update (map (\<lambda>r. if p r then r\<lparr>o_body := None\<rparr> else r)) st)"
    by (rule objects_forget_evolves) (rule assms(3))
  from assms(2) [OF evolves_trans [OF assms(1) this]] show ?thesis by simp
qed

lemma wps_handoffs:
  assumes "evolves X cfg c0 st0 c st" and "\<And>x st'. evolves X cfg c0 st0 c st' \<Longrightarrow> Q x st'"
  shows "wps (update_rows db_handoffs_update p f) Q st"
  by (rule wps_other_table [OF assms]) (auto simp: update_rows_def)

lemma wps_insert_handoffs:
  assumes "evolves X cfg c0 st0 c st" and "\<And>x st'. evolves X cfg c0 st0 c st' \<Longrightarrow> Q x st'"
  shows "wps (insert_ignore db_handoffs db_handoffs_update clash r) Q st"
  by (rule wps_other_table [OF assms]) (auto simp: insert_ignore_def split: if_splits)

lemma wps_expire:
  assumes "evolves X cfg c0 st0 c st" and "\<And>x st'. evolves X cfg c0 st0 c st' \<Longrightarrow> Q x st'"
  shows "wps (expire X c) Q st"
proof -
  have one: "wps (expire_epoch c epoch u) (\<lambda>_. evolves X cfg c0 st0 c) st1" if "evolves X cfg c0 st0 c st1" for epoch u st1
    unfolding expire_epoch_def
    by (intro wp_intros wps_forget_log wps_forget_objects wps_handoffs; assumption?) (use that in auto)
  have loop: "wps (foldM (expire_epoch c) es x) Q st1" if "evolves X cfg c0 st0 c st1" for es x st1
    by (rule wps_foldM [of "\<lambda>_. evolves X cfg c0 st0 c"]) (use that one assms(2) in auto)
  show ?thesis
    unfolding expire_def
    by (intro wp_intros loop wps_read_only read_only_select) (simp add: assms(1))
qed

lemma wps_handoff:
  assumes "evolves X cfg c0 st0 c st" and "\<And>x st'. evolves X cfg c0 st0 c st' \<Longrightarrow> Q x st'"
  shows "wps (handoff X c cmp through) Q st"
proof -
  have ro: "read_only (committed_at c oid)" for oid
    unfolding committed_at_def by (intro read_only_bindM read_only_select read_only_cases read_only_basic)
  have one: "wps (handoff_epoch X c cmp through e u) (\<lambda>_. evolves X cfg c0 st0 c) st1" if "evolves X cfg c0 st0 c st1" for e u st1
    unfolding handoff_epoch_def Let_def
    by (intro wp_intros wps_insert_handoffs [of X cfg c0 st0 c] wps_read_only read_only_select read_only_object
        read_only_basic ro) (simp_all add: that)
  have loop: "wps (foldM (handoff_epoch X c cmp through) es x) Q' st1"
    if "evolves X cfg c0 st0 c st1" "\<And>x st'. evolves X cfg c0 st0 c st' \<Longrightarrow> Q' x st'" for es x st1 Q'
    by (rule wps_foldM [of "\<lambda>_. evolves X cfg c0 st0 c"]) (use that one in auto)
  show ?thesis
    unfolding handoff_def
    by (intro wp_intros loop wps_expire [of X cfg c0 st0 c] wps_read_only read_only_select assms)
qed


subsection \<open>Expiry is complete\<close>

lemma body_has_None [simp]: "\<not> body_has None k x"
  by (simp add: body_has_def)

definition envelopes_gone :: "string \<Rightarrow> nat \<Rightarrow> db \<Rightarrow> bool" where
  "envelopes_gone ci epoch st \<longleftrightarrow>
     \<not> (\<exists>r \<in> set (db_objects st). o_chain r = ci \<and> o_kind r = ''envelope'' \<and> body_has (o_body r) ''epoch'' (JNat epoch))
     \<and> (\<exists>h \<in> set (db_handoffs st). hf_chain h = ci \<and> hf_epoch h = epoch \<and> hf_expired h)"

definition has_handoff :: "string \<Rightarrow> nat \<Rightarrow> db \<Rightarrow> bool" where
  "has_handoff ci epoch st \<longleftrightarrow> (\<exists>h \<in> set (db_handoffs st). hf_chain h = ci \<and> hf_epoch h = epoch)"

lemma expire_epoch_gone:
  assumes "expire_epoch c epoch u st = (res, st')"
  shows "has_handoff (ch_id c) epoch st \<Longrightarrow> envelopes_gone (ch_id c) epoch st'"
    and "envelopes_gone (ch_id c) k st \<Longrightarrow> envelopes_gone (ch_id c) k st'"
    and "has_handoff (ch_id c) k st \<Longrightarrow> has_handoff (ch_id c) k st'"
proof -
  let ?f = "\<lambda>r. if o_chain r = ch_id c \<and> o_kind r = ''envelope'' \<and> body_has (o_body r) ''epoch'' (JNat epoch) then r\<lparr>o_body := None\<rparr> else r"
  let ?g = "\<lambda>r. if handoff_key r = (ch_id c, epoch) then r\<lparr>hf_expired := True\<rparr> else r"
  have tabs: "db_objects st' = map ?f (db_objects st)" "db_handoffs st' = map ?g (db_handoffs st)"
    using assms by (auto simp: expire_epoch_def bindM_def update_rows_def)
  have f: "\<not> body_has (o_body (?f r)) ''epoch'' (JNat k)" if "\<not> (o_chain r = ch_id c \<and> o_kind r = ''envelope'' \<and> body_has (o_body r) ''epoch'' (JNat k))"
      "o_chain r = ch_id c" "o_kind r = ''envelope''" for r k
    using that by (simp add: body_has_def)
  have f': "\<not> body_has (o_body (?f r)) ''epoch'' (JNat epoch)" if "o_chain r = ch_id c" "o_kind r = ''envelope''" for r
    using that by (simp add: body_has_def)
  have flag: "\<exists>h \<in> set (db_handoffs st'). hf_chain h = ch_id c \<and> hf_epoch h = epoch \<and> hf_expired h" if "has_handoff (ch_id c) epoch st"
  proof -
    from that obtain h where "h \<in> set (db_handoffs st)" "hf_chain h = ch_id c" "hf_epoch h = epoch" by (auto simp: has_handoff_def)
    then show ?thesis unfolding tabs(2) by (intro bexI [of _ "?g h"]) (simp_all add: handoff_key_def)
  qed
  show "envelopes_gone (ch_id c) epoch st'" if "has_handoff (ch_id c) epoch st"
    using flag [OF that] f' by (auto simp: envelopes_gone_def tabs(1) split: if_splits)
  have "\<exists>h \<in> set (db_handoffs st'). hf_chain h = ch_id c \<and> hf_epoch h = k \<and> hf_expired h"
    if "\<exists>h \<in> set (db_handoffs st). hf_chain h = ch_id c \<and> hf_epoch h = k \<and> hf_expired h"
  proof -
    from that obtain h where "h \<in> set (db_handoffs st)" "hf_chain h = ch_id c" "hf_epoch h = k" "hf_expired h" by blast
    then show ?thesis unfolding tabs(2) by (intro bexI [of _ "?g h"]) simp_all
  qed
  then show "envelopes_gone (ch_id c) k st'" if "envelopes_gone (ch_id c) k st"
    using that f [of _ k] unfolding envelopes_gone_def tabs(1) by (fastforce split: if_splits)
  show "has_handoff (ch_id c) k st'" if "has_handoff (ch_id c) k st"
  proof -
    from that obtain h where "h \<in> set (db_handoffs st)" "hf_chain h = ch_id c" "hf_epoch h = k" by (auto simp: has_handoff_def)
    then show ?thesis unfolding has_handoff_def tabs(2) by (intro bexI [of _ "?g h"]) simp_all
  qed
qed


definition demo_handoff :: handoff_row where
  "demo_handoff = \<lparr>hf_chain = demo_b32, hf_epoch = 3, hf_compaction = ''x'', hf_due = 0, hf_expired = False\<rparr>"

definition demo_handoff_db :: db where
  "demo_handoff_db = empty_db\<lparr>db_handoffs := [demo_handoff], db_objects :=
     [\<lparr>o_chain = demo_b32, o_kind = ''envelope'', o_id = ''e'', o_hash = ''h'', o_body = Some (jobj [(''epoch'', JInt 3)]),
       o_log = None, o_seq = None\<rparr>]\<rparr>"


end
