(* ===== verification/Relay_Config.thy ===== *)
theory Relay_Config
  imports Relay_Store
begin

text \<open>
  \<^verbatim>\<open>src/config.rs\<close>: what the handlers ask of the relay's configuration.
\<close>

definition limits :: "config \<Rightarrow> json" where
  "limits cfg = jget (cfg_privacy cfg) ''limits''"

definition health :: "ext \<Rightarrow> config \<Rightarrow> json tx" where
  "health X cfg =
     bindM (now X) (\<lambda>t.
     ret (jobj [(''protocol'', JStr ''pallasync/3''), (''relay_origin'', JStr (cfg_origin cfg)), (''server_time_ms'', JNat t),
       (''durability_tier'', JStr ''single-durable''), (''limits'', limits cfg),
       (''shutdown_at_ms'', jopt JNat (cfg_shutdown_at_ms cfg)), (''migration_origin'', jopt JStr (cfg_migration_origin cfg)),
       (''relay_public_key'', JStr (x_b64enc X (x_public_key X (cfg_key cfg)))), (''relay_key_id'', JStr (cfg_key_id cfg))]))"

text \<open>The clock is read only when a shutdown time is set and writes are not stopped already.\<close>

definition shutting_down :: "config \<Rightarrow> failure" where
  "shutting_down cfg = Err ''RELAY_SHUTTING_DOWN'' (Some (jobj [(''shutdown_at_ms'', jopt JNat (cfg_shutdown_at_ms cfg)),
     (''migration_origin'', jopt JStr (cfg_migration_origin cfg))]))"

definition write_guard :: "ext \<Rightarrow> config \<Rightarrow> unit tx" where
  "write_guard X cfg =
     (if cfg_stop_writes cfg then lift (Inl (shutting_down cfg))
      else case cfg_shutdown_at_ms cfg of
        None \<Rightarrow> ret ()
      | Some s \<Rightarrow> bindM (now X) (\<lambda>t. if t \<ge> s then lift (Inl (shutting_down cfg)) else ret ()))"

end
