(* ===== verification/Relay_Mutation.thy ===== *)
theory Relay_Mutation
  imports Relay_Retention Relay_Config
begin

text \<open>
  \<^verbatim>\<open>src/api/mutation.rs\<close>: genesis, enrollment, epochs and revocation, offers and their approval,
  acknowledgement, snapshots and pruning. A handler that takes \<^verbatim>\<open>&mut Chain\<close> returns the chain with its
  HTTP status and response.
\<close>

subsection \<open>Genesis\<close>

definition genesis :: "ext \<Rightarrow> config \<Rightarrow> json \<Rightarrow> (nat \<times> json \<times> chain) tx" where
  "genesis X cfg v =
     bindM (lift (Relay_Wire.fields X v [(''parameters'', ''object''), (''device_record'', ''object''), (''epoch'', ''object''),
        (''envelopes'', ''array'')] [])) (\<lambda>_.
     let p = jget v ''parameters'' in
     bindM (lift (validate X p SParameters)) (\<lambda>_.
     bindM (lift (verify X p (s_of p ''admin_public_key'') CTX_PARAMETERS)) (\<lambda>_.
     let ci = s_of p ''chain_id'' in
     bindM (outcomes X ci ''genesis'' ci v) (\<lambda>known.
     case known of
       Some response \<Rightarrow>
         bindM (load ci) (\<lambda>c. bindM (lift (unwrap c)) (\<lambda>c. ret (200, response, c)))
     | None \<Rightarrow>
         bindM (load ci) (\<lambda>old.
         bindM (rejectM (old \<noteq> None) ''CHAIN_EXISTS'') (\<lambda>_.
         bindM (rejectM (n_of p ''generation'' \<noteq> 0) ''GENERATION_MISMATCH'') (\<lambda>_.
         bindM (rejectM (n_of (jget v ''device_record'') ''meta_epoch'' \<noteq> 0) ''EPOCH_STALE'') (\<lambda>_.
         bindM (chain_new X cfg p (jget v ''epoch'') None) (\<lambda>c.
         bindM (device X c (jget v ''device_record'') None True) (\<lambda>_.
         bindM (rejectM (s_of (jget (jget v ''device_record'') ''enrollment'') ''signer_kind'' \<noteq> ''admin'')
            ''ENROLLMENT_CERTIFICATE_INVALID'') (\<lambda>_.
         bindM (bundle_check X c (jget v ''epoch'') (a_of v ''envelopes'') [jget v ''device_record''] True False) (\<lambda>_.
         bindM (append_entry X cfg c ''parameters'' p) (\<lambda>(c, _, r).
         bindM (commit_epoch X cfg c \<lparr>ec_epoch = jget v ''epoch'', ec_envelopes = a_of v ''envelopes'',
            ec_staged = [jget v ''device_record''], ec_admin = None, ec_genesis = True\<rparr>) (\<lambda>(c, _, rs).
         let response = jset ''upload_receipts'' (JArr (r # rs)) (jset ''device_status'' (JStr ''active'') (chain_result X c)) in
         bindM (publish_notice X cfg c) (\<lambda>c.
         bindM (outcome X ci ''genesis'' ci v response) (\<lambda>_.
         bindM (save X cfg c) (\<lambda>_.
         ret (201, response, c))))))))))))))))))"

subsection \<open>Enrollment\<close>

text \<open>The loop over the envelopes of an enrollment, with its variables \<^verbatim>\<open>current\<close> and \<^verbatim>\<open>ids\<close>.\<close>

definition enroll_envelope ::
    "ext \<Rightarrow> chain \<Rightarrow> json \<Rightarrow> json \<Rightarrow> bool \<times> string list \<Rightarrow> (bool \<times> string list) tx" where
  "enroll_envelope X c d e acc =
     (case acc of (current, ids) \<Rightarrow>
      bindM (rejectM (s_of e ''recipient_kind'' \<noteq> ''device'' \<or> s_of e ''recipient_device_id'' \<noteq> s_of d ''device_id''
         \<or> s_of e ''envelope_id'' \<in> set ids) ''ENVELOPE_ACCESS_DENIED'') (\<lambda>_.
      let ids = s_of e ''envelope_id'' # ids in
      bindM (object (ch_id c) ''epoch'' (show_nat (n_of e ''epoch''))) (\<lambda>b.
      bindM (lift (ok_or ''EPOCH_STALE'' b)) (\<lambda>ep.
      bindM (envelope X c e ep [d]) (\<lambda>_.
      let current = (current \<or> n_of e ''epoch'' = n_of (ch_epoch c) ''epoch'') in
      bindM (if n_of e ''epoch'' < n_of (ch_epoch c) ''epoch'' \<and> jget (policy_of c) ''epoch_retention'' \<noteq> JStr ''retain''
             then bindM (count_rows db_objects (\<lambda>r. o_chain r = ch_id c \<and> o_kind r = ''envelope''
                    \<and> body_has (o_body r) ''epoch'' (JNat (n_of e ''epoch''))
                    \<and> body_has (o_body r) ''recipient_kind'' (JStr ''recovery''))) (\<lambda>exists.
                  rejectM (exists = 0) ''HISTORY_KEY_EXPIRED'')
             else ret ()) (\<lambda>_.
      ret (current, ids)))))))"

definition append_all :: "ext \<Rightarrow> config \<Rightarrow> string \<Rightarrow> json list \<Rightarrow> chain \<times> json list \<Rightarrow> (chain \<times> json list) tx" where
  "append_all X cfg kind vs acc = foldM (commit_objects X cfg kind) vs acc"

text \<open>The checks of \<^verbatim>\<open>enroll\<close> after the lookup of a stored outcome, up to the first write.\<close>

definition enroll_checks :: "ext \<Rightarrow> config \<Rightarrow> chain \<Rightarrow> auth \<Rightarrow> json \<Rightarrow> json option \<Rightarrow> unit tx" where
  "enroll_checks X cfg c a v request =
     (let d = jget v ''device_record''; dev = s_of d ''device_id''; op = jget v ''admin_operation'' in
      bindM (device X c d request False) (\<lambda>_.
      bindM (object_digest (ch_id c) ''device'' dev) (\<lambda>old.
      bindM (rejectM (old \<noteq> None) ''DEVICE_ID_CONFLICT'') (\<lambda>_.
      bindM (rejectM (request = None \<and> s_of (jget d ''enrollment'') ''signer_kind'' \<noteq> ''admin'') ''ENROLLMENT_CERTIFICATE_INVALID'') (\<lambda>_.
      bindM (rejectM (\<not> admin a \<and> (jget (policy_of c) ''allow_peer_enrollment'' \<noteq> JBool True
          \<or> Some (s_of (jget d ''enrollment'') ''signer_device_id'') \<noteq> a_device a)) ''ENROLLMENT_NOT_ALLOWED'') (\<lambda>_.
      bindM (count_rows db_registry (\<lambda>r. g_chain r = ch_id c \<and> g_generation r = generation c \<and> g_status r \<noteq> ''revoked'')) (\<lambda>count.
      bindM (rejectM (count \<ge> n_of (limits cfg) ''max_devices'') ''DEVICE_LIMIT_REACHED'') (\<lambda>_.
      bindM (if admin a then admin_operation X c op ''approve_enrollment'' (target v [''device_record'', ''envelopes''])
             else rejectM (op \<noteq> JNull) ''INVALID_FIELD'') (\<lambda>_.
      bindM (rejectM (a_of v ''envelopes'' = [] \<or> length (a_of v ''envelopes'') > 128) ''INVALID_FIELD'') (\<lambda>_.
      bindM (foldM (enroll_envelope X c d) (a_of v ''envelopes'') (False, [])) (\<lambda>(current, _).
      rejectM (\<not> current) ''EPOCH_STALE'')))))))))))"

definition enroll :: "ext \<Rightarrow> config \<Rightarrow> chain \<Rightarrow> auth \<Rightarrow> json \<Rightarrow> json option \<Rightarrow> (chain \<times> nat \<times> json) tx" where
  "enroll X cfg c a v request =
     bindM (lift (Relay_Wire.fields X v [(''device_record'', ''object''), (''envelopes'', ''array''),
        (''admin_operation'', if request \<noteq> None then ''object?'' else ''object'')] [])) (\<lambda>_.
     bindM (if request = None then lift (require_admin a) else ret ()) (\<lambda>_.
     bindM (if jget (policy_of c) ''epoch_retention'' = JStr ''immediate'' \<and> n_of (ch_epoch c) ''epoch'' > 0
            then bindM (count_rows db_handoffs (\<lambda>r. hf_chain r = ch_id c \<and> hf_epoch r = n_of (ch_epoch c) ''epoch'' - 1)) (\<lambda>k.
                 rejectM (k = 0) ''ENROLLMENT_NOT_ALLOWED'')
            else ret ()) (\<lambda>_.
     let d = jget v ''device_record'' in
     bindM (lift (validate X d SDevice)) (\<lambda>_.
     let dev = s_of d ''device_id'' in
     bindM (outcomes X (ch_id c) ''enroll'' dev v) (\<lambda>known.
     case known of
       Some r \<Rightarrow> ret (c, 200, r)
     | None \<Rightarrow>
         bindM (enroll_checks X cfg c a v request) (\<lambda>_.
         bindM (append_entry X cfg c ''device'' d) (\<lambda>(c, entry, r).
         bindM (register c d (n_of entry ''relay_seq'') ''pending_keys'') (\<lambda>_.
         bindM (append_all X cfg ''envelope'' (a_of v ''envelopes'') (c, [r])) (\<lambda>acc.
         bindM (if admin a then commit_objects X cfg ''admin'' (jget v ''admin_operation'') acc else ret acc) (\<lambda>(c, rs).
         let response = jobj [(''device_id'', JStr dev), (''status'', JStr ''pending_keys''),
               (''device_record_hash'', JStr (object_hash X d)), (''upload_receipts'', JArr rs)] in
         bindM (outcome X (ch_id c) ''enroll'' dev v response) (\<lambda>_.
         ret (c, 201, response))))))))))))"

subsection \<open>Epochs\<close>

definition epoch_device :: "ext \<Rightarrow> chain \<Rightarrow> json \<Rightarrow> unit \<Rightarrow> unit tx" where
  "epoch_device X c d u =
     bindM (device X c d None True) (\<lambda>_.
     rejectM (s_of (jget d ''enrollment'') ''signer_kind'' \<noteq> ''admin'') ''ENROLLMENT_CERTIFICATE_INVALID'')"

definition epoch_checks :: "ext \<Rightarrow> config \<Rightarrow> chain \<Rightarrow> auth \<Rightarrow> json \<Rightarrow> string option \<Rightarrow> unit tx" where
  "epoch_checks X cfg c a v target_device =
     (let e = jget v ''epoch''; staged = a_of v ''device_records''; op = jget v ''admin_operation'' in
      bindM (rejectM (s_of v ''expected_epoch_hash'' \<noteq> epoch_hash X c) ''CAS_MISMATCH'') (\<lambda>_.
      bindM (rejectM (jfind v ''device_records'' \<noteq> None \<and> (\<not> admin a \<or> s_of e ''reason'' \<noteq> ''emergency'')) ''ROTATION_NOT_ALLOWED'') (\<lambda>_.
      bindM (foldM (epoch_device X c) staged ()) (\<lambda>_.
      bindM (rejectM (\<not> admin a \<and> (a_device a \<noteq> Some (s_of e ''signer_device_id'') \<or> s_of e ''signer_kind'' \<noteq> ''device''))
         ''ROTATION_NOT_ALLOWED'') (\<lambda>_.
      bindM (rejectM (case target_device of None \<Rightarrow> False
         | Some t \<Rightarrow> JStr t \<notin> set (a_of e ''revoked_device_ids'') \<or> s_of e ''reason'' \<notin> set [''device_revocation'', ''emergency''])
         ''MEMBER_SET_MISMATCH'') (\<lambda>_.
      bindM (if admin a \<and> (a_of e ''revoked_device_ids'' \<noteq> [] \<or> target_device \<noteq> None)
             then admin_operation X c op ''revoke_device'' (target v [''epoch'', ''envelopes'', ''device_records''])
             else rejectM (op \<noteq> JNull) ''INVALID_FIELD'') (\<lambda>_.
      bindM (bundle_check X c e (a_of v ''envelopes'') staged False False) (\<lambda>_.
      rejectM (length (a_of e ''members'') > n_of (limits cfg) ''max_devices'') ''DEVICE_LIMIT_REACHED''))))))))"

definition epoch_handler :: "ext \<Rightarrow> config \<Rightarrow> chain \<Rightarrow> auth \<Rightarrow> json \<Rightarrow> string option \<Rightarrow> (chain \<times> nat \<times> json) tx" where
  "epoch_handler X cfg c a v target_device =
     bindM (lift (Relay_Wire.fields X v [(''expected_epoch_hash'', ''b32''), (''epoch'', ''object''), (''envelopes'', ''array''),
        (''admin_operation'', ''object?'')] [(''device_records'', ''array'')])) (\<lambda>_.
     let e = jget v ''epoch''; op = jget v ''admin_operation'' in
     bindM (lift (validate X e SEpoch)) (\<lambda>_.
     let oid = object_hash X e in
     bindM (outcomes X (ch_id c) ''epoch'' oid v) (\<lambda>known.
     case known of
       Some r \<Rightarrow> ret (c, 200, r)
     | None \<Rightarrow>
         bindM (epoch_checks X cfg c a v target_device) (\<lambda>_.
         bindM (commit_epoch X cfg c \<lparr>ec_epoch = e, ec_envelopes = a_of v ''envelopes'', ec_staged = a_of v ''device_records'',
            ec_admin = (if op = JNull then None else Some op), ec_genesis = False\<rparr>) (\<lambda>(c, entry, rs).
         let response = (case target_device of
               Some t \<Rightarrow> jobj [(''device_id'', JStr t), (''status'', JStr ''revoked''), (''epoch_hash'', JStr (epoch_hash X c)),
                   (''receipt'', entry), (''upload_receipts'', JArr rs)]
             | None \<Rightarrow> jobj [(''epoch_hash'', JStr (epoch_hash X c)), (''receipt'', entry), (''upload_receipts'', JArr rs)]) in
         bindM (outcome X (ch_id c) ''epoch'' oid v response) (\<lambda>_.
         ret (c, if target_device \<noteq> None then 200 else 201, response)))))))"

subsection \<open>Offers\<close>

text \<open>\<^verbatim>\<open>INSERT\<close> and \<^verbatim>\<open>UPDATE\<close> of the offers fire the history triggers.\<close>

definition insert_offer :: "offer_row \<Rightarrow> unit tx" where
  "insert_offer row =
     bindM (insert_row db_offers db_offers_update (same offer_key) row) (\<lambda>_.
     offer_trigger [row])"

definition update_offers :: "(offer_row \<Rightarrow> bool) \<Rightarrow> (offer_row \<Rightarrow> offer_row) \<Rightarrow> unit tx" where
  "update_offers p f =
     bindM (gets (\<lambda>st. map f (filter p (db_offers st)))) (\<lambda>changed.
     bindM (update_rows db_offers_update p f) (\<lambda>_.
     offer_trigger changed))"

definition offer :: "ext \<Rightarrow> chain \<Rightarrow> auth \<Rightarrow> json \<Rightarrow> (nat \<times> json) tx" where
  "offer X c a v =
     bindM (lift (Relay_Wire.fields X v [(''request_id'', ''uuid''), (''offer_nonce'', ''b32''), (''expires_at_ms'', ''int'')] [])) (\<lambda>_.
     bindM (rejectM (admin a) ''ENROLLMENT_NOT_ALLOWED'') (\<lambda>_.
     bindM (rejectM (jget (policy_of c) ''allow_peer_enrollment'' \<noteq> JBool True) ''ENROLLMENT_NOT_ALLOWED'') (\<lambda>_.
     let oid = s_of v ''request_id'' in
     bindM (outcomes X (ch_id c) ''offer'' oid v) (\<lambda>known.
     case known of
       Some r \<Rightarrow> ret (200, r)
     | None \<Rightarrow>
         (let expires = n_of v ''expires_at_ms'' in
          bindM (now X) (\<lambda>t1.
          bindM (rejectM (expires \<le> t1) ''INVALID_FIELD'') (\<lambda>_.
          bindM (now X) (\<lambda>t2.
          bindM (rejectM (expires > t2 + 300000) ''INVALID_FIELD'') (\<lambda>_.
          let offer = jobj [(''chain_id'', JStr (ch_id c)), (''generation'', JNat (generation c)), (''request_id'', JStr oid),
                (''offer_nonce'', jget v ''offer_nonce''), (''offering_device_id'', jopt JStr (a_device a)),
                (''expires_at_ms'', JNat expires)] in
          bindM (insert_offer \<lparr>f_chain = ch_id c, f_id = oid, f_offer = offer, f_request = None,
             f_status = ''awaiting_approval'', f_updated = ch_head_seq c\<rparr>) (\<lambda>_.
          let response = jobj [(''request_id'', JStr oid), (''expires_at_ms'', JNat expires),
                (''offer_hash'', JStr (object_hash X offer))] in
          bindM (outcome X (ch_id c) ''offer'' oid v response) (\<lambda>_.
          ret (201, response))))))))))))"

definition request_answer :: "ext \<Rightarrow> json \<Rightarrow> json" where
  "request_answer X v = jobj [(''request_id'', jget v ''request_id''), (''status'', JStr ''awaiting_approval''),
     (''request_hash'', JStr (object_hash X v))]"

text \<open>The window checks of an enrollment request read the clock up to three times, in the order of the \<^verbatim>\<open>||\<close>.\<close>

definition enrollment_request :: "ext \<Rightarrow> chain \<Rightarrow> json \<Rightarrow> (nat \<times> json) tx" where
  "enrollment_request X c v =
     bindM (lift (map_err ''OFFER_NOT_FOUND'' (validate X v SRequest))) (\<lambda>_.
     bindM (select_opt db_offers (\<lambda>r. offer_key r = (ch_id c, s_of v ''request_id''))) (\<lambda>row.
     bindM (lift (ok_or ''OFFER_NOT_FOUND'' row)) (\<lambda>row.
     let off = f_offer row in
     bindM (rejectM (f_status row \<noteq> ''awaiting_approval'' \<or> generation c \<noteq> n_of off ''generation'') ''OFFER_NOT_FOUND'') (\<lambda>_.
     bindM (now X) (\<lambda>t1.
     bindM (rejectM (n_of off ''expires_at_ms'' + 60000 < t1 \<or> n_of v ''expires_at_ms'' > n_of off ''expires_at_ms'') ''OFFER_NOT_FOUND'') (\<lambda>_.
     bindM (now X) (\<lambda>t2.
     bindM (rejectM (n_of v ''created_at_ms'' > t2 + 60000) ''OFFER_NOT_FOUND'') (\<lambda>_.
     bindM (now X) (\<lambda>t3.
     bindM (rejectM (n_of v ''expires_at_ms'' + 60000 < t3) ''OFFER_NOT_FOUND'') (\<lambda>_.
     bindM (lift (rall (\<lambda>k. reject (jget v k \<noteq> jget off k) ''OFFER_NOT_FOUND'')
        [''chain_id'', ''generation'', ''request_id'', ''offer_nonce''])) (\<lambda>_.
     bindM (map_errM ''OFFER_NOT_FOUND'' (active_device c (s_of off ''offering_device_id''))) (\<lambda>_.
     bindM (lift (map_err ''OFFER_NOT_FOUND'' (verify X v (s_of v ''device_public_key'') CTX_REQUEST))) (\<lambda>_.
     case f_request row of
       Some old \<Rightarrow>
         bindM (rejectM (old \<noteq> v) ''REQUEST_ID_CONFLICT'') (\<lambda>_. ret (200, request_answer X v))
     | None \<Rightarrow>
         bindM (update_offers (\<lambda>r. offer_key r = (ch_id c, s_of v ''request_id'')) (\<lambda>r. r\<lparr>f_request := Some v\<rparr>)) (\<lambda>_.
         ret (201, request_answer X v)))))))))))))))"

definition approve :: "ext \<Rightarrow> config \<Rightarrow> chain \<Rightarrow> auth \<Rightarrow> string \<Rightarrow> json \<Rightarrow> bool \<Rightarrow> (chain \<times> nat \<times> json) tx" where
  "approve X cfg c a oid v rejecting =
     bindM (select_opt db_offers (\<lambda>r. offer_key r = (ch_id c, oid))) (\<lambda>row.
     bindM (lift (ok_or ''OFFER_NOT_FOUND'' row)) (\<lambda>row.
     bindM (lift (ok_or ''OFFER_NOT_FOUND'' (f_request row))) (\<lambda>r.
     bindM (rejectM (\<not> owns a (s_of (f_offer row) ''offering_device_id'')) ''ENROLLMENT_NOT_ALLOWED'') (\<lambda>_.
     let scope = (if rejecting then ''reject_request'' else ''approve_request'') in
     bindM (outcomes X (ch_id c) scope oid v) (\<lambda>known.
     case known of
       Some resp \<Rightarrow> ret (c, 200, resp)
     | None \<Rightarrow>
         bindM (rejectM (f_status row \<noteq> ''awaiting_approval'') ''OFFER_NOT_FOUND'') (\<lambda>_.
         bindM (now X) (\<lambda>t.
         bindM (rejectM (n_of r ''expires_at_ms'' + 60000 < t) ''OFFER_NOT_FOUND'') (\<lambda>_.
         bindM (rejectM (\<not> rejecting \<and> jget (policy_of c) ''allow_peer_enrollment'' \<noteq> JBool True) ''ENROLLMENT_NOT_ALLOWED'') (\<lambda>_.
         bindM (if rejecting
                then bindM (lift (Relay_Wire.fields X v [(''request_hash'', ''b32'')] [])) (\<lambda>_.
                     bindM (rejectM (s_of v ''request_hash'' \<noteq> object_hash X r) ''REQUEST_ID_CONFLICT'') (\<lambda>_.
                     ret (c, 200, jobj [(''request_id'', JStr oid), (''status'', JStr ''rejected'')])))
                else enroll X cfg c a v (Some r)) (\<lambda>(c, code, resp).
         bindM (update_offers (\<lambda>r. offer_key r = (ch_id c, oid))
            (\<lambda>r. r\<lparr>f_status := (if rejecting then ''rejected'' else ''approved''), f_updated := ch_head_seq c\<rparr>)) (\<lambda>_.
         bindM (outcome X (ch_id c) scope oid v resp) (\<lambda>_.
         ret (c, code, resp)))))))))))))"

subsection \<open>Acknowledgement, snapshots and pruning\<close>

definition ack :: "ext \<Rightarrow> chain \<Rightarrow> auth \<Rightarrow> string \<Rightarrow> json \<Rightarrow> json tx" where
  "ack X c a oid v =
     bindM (lift (Relay_Wire.fields X v [(''epoch_hash'', ''b32''), (''epoch_commitment'', ''b32'')] [])) (\<lambda>_.
     bindM (rejectM (admin a \<or> \<not> owns a oid) ''ENVELOPE_ACCESS_DENIED'') (\<lambda>_.
     bindM (rejectM (s_of v ''epoch_hash'' \<noteq> epoch_hash X c \<or> jget v ''epoch_commitment'' \<noteq> jget (ch_epoch c) ''epoch_commitment'')
        ''EPOCH_STALE'') (\<lambda>_.
     bindM (count_rows db_objects (\<lambda>r. o_chain r = ch_id c \<and> o_kind r = ''envelope''
        \<and> body_has (o_body r) ''recipient_device_id'' (JStr oid)
        \<and> body_has (o_body r) ''epoch'' (JNat (n_of (ch_epoch c) ''epoch'')))) (\<lambda>exists.
     bindM (rejectM (exists = 0) ''ENVELOPE_NOT_FOUND'') (\<lambda>_.
     bindM (update_registry (\<lambda>r. registry_key r = (ch_id c, oid) \<and> g_status r \<noteq> ''revoked'') (\<lambda>r. r\<lparr>g_status := ''active''\<rparr>)) (\<lambda>_.
     ret (jobj [(''device_id'', JStr oid), (''status'', JStr ''active''), (''epoch_hash'', JStr (epoch_hash X c))])))))))"

definition snapshot :: "ext \<Rightarrow> config \<Rightarrow> chain \<Rightarrow> json \<Rightarrow> (chain \<times> nat \<times> json) tx" where
  "snapshot X cfg c v =
     bindM (lift (Relay_Wire.fields X v [(''compaction'', ''object'')] [])) (\<lambda>_.
     let cmp = jget v ''compaction'' in
     bindM (lift (validate X cmp SCompaction)) (\<lambda>_.
     let oid = s_of cmp ''compaction_id'' in
     bindM (outcomes X (ch_id c) ''snapshot'' oid v) (\<lambda>known.
     case known of
       Some r \<Rightarrow> ret (c, 200, r)
     | None \<Rightarrow>
         bindM (compaction X c cmp []) (\<lambda>_.
         bindM (append_entry X cfg c ''compaction'' cmp) (\<lambda>(c, entry, r).
         let response = jobj [(''compaction_id'', JStr oid), (''receipt'', entry), (''upload_receipts'', JArr [r])] in
         bindM (outcome X (ch_id c) ''snapshot'' oid v response) (\<lambda>_.
         ret (c, 201, response)))))))"

text \<open>What pruning removes: the record bodies and record entries of the pruned prefix.\<close>

definition prune_rows :: "chain \<Rightarrow> nat \<Rightarrow> unit tx" where
  "prune_rows c through =
     bindM (update_rows db_objects_update
        (\<lambda>r. o_chain r = ch_id c \<and> o_kind r = ''record'' \<and> o_log r = Some (ch_log_id c)
           \<and> (case o_seq r of None \<Rightarrow> False | Some q \<Rightarrow> q \<le> through)) (\<lambda>r. r\<lparr>o_body := None\<rparr>)) (\<lambda>_.
     update_rows db_log_update
        (\<lambda>r. l_chain r = ch_id c \<and> l_log r = ch_log_id c \<and> l_seq r \<le> through
           \<and> body_has (l_entry r) ''kind'' (JStr ''record'')) (\<lambda>r. r\<lparr>l_entry := None\<rparr>))"

text \<open>\<^verbatim>\<open>c.min_available_seq - 1\<close> on \<^verbatim>\<open>u64\<close>: the chain's number is at least 1.\<close>

definition prune :: "ext \<Rightarrow> config \<Rightarrow> chain \<Rightarrow> auth \<Rightarrow> json \<Rightarrow> (chain \<times> json) tx" where
  "prune X cfg c a v =
     bindM (lift (require_admin a)) (\<lambda>_.
     bindM (lift (Relay_Wire.fields X v [(''compaction_id'', ''uuid''), (''through_seq'', ''int''), (''admin_operation'', ''object'')] [])) (\<lambda>_.
     let op = jget v ''admin_operation''; oid = s_of op ''operation_id''; tg = target v [''compaction_id'', ''through_seq''] in
     bindM (outcomes X (ch_id c) ''prune'' oid v) (\<lambda>known.
     case known of
       Some r \<Rightarrow> ret (c, r)
     | None \<Rightarrow>
         bindM (admin_operation X c op ''prune_log'' tg) (\<lambda>_.
         bindM (object (ch_id c) ''compaction'' (s_of v ''compaction_id'')) (\<lambda>b.
         bindM (lift (ok_or ''COMPACTION_UNSAFE'' b)) (\<lambda>cmp.
         let through = n_of v ''through_seq'' in
         bindM (rejectM (through < ch_min_available_seq c - 1 \<or> through > n_of cmp ''covered_through_seq'') ''COMPACTION_UNSAFE'') (\<lambda>_.
         bindM (map_errM ''COMPACTION_UNSAFE'' (compaction X c cmp [])) (\<lambda>_.
         bindM (append_entry X cfg c ''admin'' op) (\<lambda>(c, _, _).
         bindM (prune_rows c through) (\<lambda>_.
         let c = c\<lparr>ch_min_available_seq := through + 1, ch_boundary_compaction_id := Some (s_of cmp ''compaction_id'')\<rparr> in
         bindM (handoff X c cmp through) (\<lambda>_.
         bindM (transparency X cfg c ''prune'' (object_hash X tg) None None) (\<lambda>(c, _, _).
         let response = jobj [(''min_available_seq'', JNat (ch_min_available_seq c)), (''compaction_id'', jget v ''compaction_id'')] in
         bindM (outcome X (ch_id c) ''prune'' oid v response) (\<lambda>_.
         ret (c, response))))))))))))))"


subsection \<open>The handlers keep the contract\<close>

lemma read_only_mutation [intro, simp]:
  "read_only (outcomes X ci scope oid v)" "read_only (enroll_envelope X c d e acc)" "read_only (epoch_device X c d u)"
  unfolding outcomes_def enroll_envelope_def epoch_device_def Let_def
  by (intro read_only_bindM read_only_cases read_only_basic read_only_select read_only_object read_only_envelope
      read_only_device)+

lemma read_only_enroll_checks [intro, simp]: "read_only (enroll_checks X cfg c a v request)"
  unfolding enroll_checks_def Let_def
  by (intro read_only_bindM read_only_cases read_only_foldM read_only_basic read_only_select read_only_object
      read_only_device read_only_checks read_only_mutation)

lemma read_only_epoch_checks [intro, simp]: "read_only (epoch_checks X cfg c a v target_device)"
  unfolding epoch_checks_def Let_def
  by (intro read_only_bindM read_only_cases read_only_foldM read_only_basic read_only_checks read_only_mutation
      read_only_bundle)

lemmas handler_reads = read_only_basic read_only_select read_only_object read_only_auth read_only_checks
  read_only_mutation read_only_enroll_checks read_only_epoch_checks read_only_compaction read_only_map_errM
  read_only_bindM read_only_cases

lemma wps_append_all:
  assumes "evolves X cfg c0 st0 (fst acc) st" and "\<And>acc' st'. evolves X cfg c0 st0 (fst acc') st' \<Longrightarrow> Q acc' st'"
  shows "wps (append_all X cfg kind vs acc) Q st"
  unfolding append_all_def
  by (rule wps_foldM [of "\<lambda>acc. evolves X cfg c0 st0 (fst acc)"]) (use assms in \<open>auto intro: wps_commit_objects\<close>)

lemma wps_offers:
  assumes "evolves X cfg c0 st0 c st" and "\<And>x st'. evolves X cfg c0 st0 c st' \<Longrightarrow> Q x st'"
  shows "wps (insert_offer row) Q st" and "wps (update_offers p f) Q st"
  by (rule wps_other_table [OF assms]; auto simp: insert_offer_def update_offers_def bindM_def insert_row_def
      update_rows_def offer_trigger_def split: if_splits)+

lemma wps_enroll:
  assumes "evolves X cfg c0 st0 c st"
    and "\<And>c' k r st'. evolves X cfg c0 st0 c' st' \<Longrightarrow> Q (c', k, r) st'"
  shows "wps (enroll X cfg c a v request) Q st"
  unfolding enroll_def Let_def
  by (intro wp_intros wps_append_evolves [of X cfg c0 st0] wps_register_evolves [of X cfg c0 st0]
      wps_append_all [of X cfg c0 st0] wps_commit_objects [of X cfg c0 st0] wps_outcome_evolves [of X cfg c0 st0]
      wps_read_only handler_reads assms; simp?)


lemma wps_epoch:
  assumes "evolves X cfg c0 st0 c st"
    and "\<And>c' k r st'. evolves X cfg c0 st0 c' st' \<Longrightarrow> Q (c', k, r) st'"
  shows "wps (epoch_handler X cfg c a v target_device) Q st"
  unfolding epoch_handler_def Let_def
  by (intro wp_intros wps_commit_epoch [of X cfg c0 st0] wps_outcome_evolves [of X cfg c0 st0]
      wps_read_only handler_reads assms; simp?)

lemma wps_offer:
  assumes "evolves X cfg c0 st0 c st" and "\<And>x st'. evolves X cfg c0 st0 c st' \<Longrightarrow> Q x st'"
  shows "wps (offer X c a v) Q st"
  unfolding offer_def Let_def
  by (intro wp_intros wps_offers [of X cfg c0 st0 c] wps_outcome_evolves [of X cfg c0 st0 c]
      wps_read_only handler_reads; simp add: assms)

lemma wps_enrollment_request:
  assumes "evolves X cfg c0 st0 c st" and "\<And>x st'. evolves X cfg c0 st0 c st' \<Longrightarrow> Q x st'"
  shows "wps (enrollment_request X c v) Q st"
  unfolding enrollment_request_def Let_def
  by (intro wp_intros wps_offers [of X cfg c0 st0 c] wps_read_only handler_reads; simp add: assms)

lemma wps_approve:
  assumes "evolves X cfg c0 st0 c st"
    and "\<And>c' k r st'. evolves X cfg c0 st0 c' st' \<Longrightarrow> Q (c', k, r) st'"
  shows "wps (approve X cfg c a oid v rejecting) Q st"
proof -
  have tail: "wps (bindM (update_offers p f) (\<lambda>_. bindM (outcome X ci scope oid v resp) (\<lambda>_. ret (c', code, resp)))) Q st'"
    if "evolves X cfg c0 st0 c' st'" for p f ci scope c' code resp st'
    by (intro wp_intros wps_offers [of X cfg c0 st0 c'] wps_outcome_evolves [of X cfg c0 st0 c'] assms that; assumption)
  show ?thesis
    unfolding approve_def Let_def
    by (intro tail wp_bindI wp_ifI wp_optionI wp_retI wp_caseI wp_nowI wps_enroll [of X cfg c0 st0]
        wps_read_only read_only_basic read_only_select read_only_mutation assms;
        ((elim Pair_inject, hypsubst)?, (assumption | simp (no_asm) add: assms)))
qed

lemma wps_ack:
  assumes "evolves X cfg c0 st0 c st" and "\<And>x st'. evolves X cfg c0 st0 c st' \<Longrightarrow> Q x st'"
  shows "wps (ack X c a oid v) Q st"
  unfolding ack_def
  by (intro wp_intros wps_update_registry_evolves [of X cfg c0 st0 c] wps_read_only handler_reads;
      simp add: assms registry_key_def)

lemma wps_snapshot:
  assumes "evolves X cfg c0 st0 c st"
    and "\<And>c' k r st'. evolves X cfg c0 st0 c' st' \<Longrightarrow> Q (c', k, r) st'"
  shows "wps (snapshot X cfg c v) Q st"
  unfolding snapshot_def Let_def
  by (intro wp_intros wps_append_evolves [of X cfg c0 st0] wps_outcome_evolves [of X cfg c0 st0]
      wps_read_only handler_reads assms; (assumption | simp)?)

text \<open>Pruning raises \<^verbatim>\<open>min_available_seq\<close>; the removed entries are below it.\<close>

lemma raise_min_evolves:
  assumes "ch_min_available_seq c \<le> m" "m \<le> ch_head_seq c + 1"
  shows "evolves X cfg c st (c\<lparr>ch_min_available_seq := m, ch_boundary_compaction_id := b\<rparr>) st"
proof -
  let ?c = "c\<lparr>ch_min_available_seq := m, ch_boundary_compaction_id := b\<rparr>"
  have rows: "log_rows ?c st = log_rows c st" "audit_rows ?c st = audit_rows c st"
    by (simp_all add: log_rows_def audit_rows_def)
  have "log_ok X ?c st" if "log_ok X c st"
    using that assms unfolding log_ok_def rows by auto
  moreover have "audit_ok X cfg ?c st \<longleftrightarrow> audit_ok X cfg c st"
    by (rule audit_ok_cong) (simp_all add: rows)
  ultimately show ?thesis using assms(1) by (simp add: evolves_def chain_ok_def log_hashes_def rows)
qed

lemma wps_prune_rows:
  assumes "evolves X cfg c0 st0 c st" and "ch_min_available_seq c \<le> through + 1" "through \<le> ch_head_seq c"
    and "\<And>st'. evolves X cfg c0 st0 (c\<lparr>ch_min_available_seq := through + 1, ch_boundary_compaction_id := b\<rparr>) st' \<Longrightarrow> Q () st'"
  shows "wps (prune_rows c through) Q st"
proof -
  let ?c = "c\<lparr>ch_min_available_seq := through + 1, ch_boundary_compaction_id := b\<rparr>"
  have ev: "evolves X cfg c0 st0 ?c st"
    by (rule evolves_trans [OF assms(1) raise_min_evolves]) (use assms in simp_all)
  show ?thesis
    unfolding prune_rows_def
    by (intro wp_intros wps_forget_objects [of X cfg c0 st0 ?c] wps_forget_log [of X cfg c0 st0 ?c] ev assms(4); simp)
qed

lemma compaction_covered:
  assumes "compaction X c v staged st = (Inr u, st')"
  shows "n_of v ''covered_through_seq'' \<le> ch_head_seq c"
  using assms by (auto simp: compaction_def bindM_run Let_def)

lemma map_errM_run: "map_errM code m st = (Inr x, st') \<longleftrightarrow> m st = (Inr x, st')"
  by (auto simp: map_errM_def split: prod.splits)

lemma append_entry_fields:
  assumes "append_entry X cfg c kind v st = (Inr (c', e, r), st')"
  shows "ch_min_available_seq c' = ch_min_available_seq c" "ch_epoch c' = ch_epoch c" "ch_parameters c' = ch_parameters c"
proof -
  have "ch_min_available_seq c' = ch_min_available_seq c \<and> ch_epoch c' = ch_epoch c \<and> ch_parameters c' = ch_parameters c"
    using assms
  proof (cases rule: append_entry_cases)
    case (fresh oid)
    obtain c1 received st1 te st2 where
      log: "append_log X c kind oid v st = (Inr (c1, e, received), st1)" and
      tr: "transparency X cfg c1 ''accept'' (object_hash X v) (Some (ch_head_seq c1)) None st1
        = (Inr (c', te, ch_transparency_hash c'), st2)"
      by (rule append_new_run [OF fresh(3,1)])
    show ?thesis using transparency_fields [OF tr] append_log_fields [OF log fresh(1)] by simp
  qed simp
  then show "ch_min_available_seq c' = ch_min_available_seq c" "ch_epoch c' = ch_epoch c" "ch_parameters c' = ch_parameters c"
    by simp_all
qed

text \<open>What the guards of \<^verbatim>\<open>prune\<close> establish of the requested number.\<close>

lemma prune_bounds:
  assumes "rejectM (t < m - 1 \<or> n_of cmp ''covered_through_seq'' < t) code st = (Inr x, st1)"
    and "map_errM code' (compaction X c cmp staged) st = (Inr y, st2)"
  shows "m \<le> t + 1" "t \<le> ch_head_seq c"
proof -
  have t: "m - 1 \<le> t" "t \<le> n_of cmp ''covered_through_seq''"
    using assms(1) by (auto simp: rejectM_run)
  moreover have "n_of cmp ''covered_through_seq'' \<le> ch_head_seq c"
    using assms(2) compaction_covered unfolding map_errM_run by blast
  ultimately show "m \<le> t + 1" "t \<le> ch_head_seq c" by simp_all
qed

lemma wps_prune:
  assumes "evolves X cfg c0 st0 c st"
    and "\<And>c' r st'. evolves X cfg c0 st0 c' st' \<Longrightarrow> Q (c', r) st'"
  shows "wps (prune X cfg c a v) Q st"
proof -
  let ?through = "n_of v ''through_seq''"
  have app: "wps (append_entry X cfg c kind w) Q' st"
    if "\<And>c' e r st'. evolves X cfg c0 st0 c' st' \<Longrightarrow> ch_min_available_seq c' = ch_min_available_seq c \<Longrightarrow>
      ch_head_seq c \<le> ch_head_seq c' \<Longrightarrow> Q' (c', e, r) st'" for kind w Q'
    by (rule wps_append_evolves [OF assms(1)])
      (use that append_entry_fields(1) append_entry_evolves in \<open>auto simp: evolves_def\<close>)
  show ?thesis
    unfolding prune_def Let_def
    by (intro wp_intros app wps_prune_rows [of X cfg c0 st0] wps_handoff [of X cfg c0 st0] wps_transparency_evolves [of X cfg c0 st0]
        wps_outcome_evolves [of X cfg c0 st0] wps_read_only handler_reads assms; ((elim Pair_inject, hypsubst)?; (assumption | rule assms)?))
      (use prune_bounds in fastforce)+
qed

end
