(* ===== verification/Relay_Deletion.thy ===== *)
theory Relay_Deletion
  imports Relay_Mutation
begin

text \<open>
  \<^verbatim>\<open>src/api/deletion.rs\<close>: the request to delete a chain with its ledger, receipt and proof, the erasure of
  the chain's data, and the completion of the deletions. Erasure and completion are transactions of
  their own, so requests may be served between them.
\<close>

subsection \<open>The enrollment chain of the deleting device\<close>

text \<open>
  The loop follows the signers of the enrollment certificates up to one that the admin key signed.
  It ends because a device is visited at most once and every visited device is stored.
\<close>

definition stored_body :: "object_row list \<Rightarrow> string \<Rightarrow> string \<Rightarrow> string \<Rightarrow> json option" where
  "stored_body objs c kind oid =
     (case find (\<lambda>r. object_key r = (c, kind, oid)) objs of None \<Rightarrow> None | Some r \<Rightarrow> o_body r)"

lemma stored_body_id:
  assumes "stored_body objs c kind oid = Some d"
  shows "oid \<in> o_id ` set objs"
  using assms by (auto simp: stored_body_def object_key_def find_Some_iff split: option.splits)

function enrollment_chain ::
    "object_row list \<Rightarrow> string \<Rightarrow> string list \<Rightarrow> string \<Rightarrow> string option \<Rightarrow> json list \<Rightarrow> (string option \<times> json list) res" where
  "enrollment_chain objs ci seen current device_key certificates =
     (if current \<in> set seen then Inl (err ''ENROLLMENT_CERTIFICATE_INVALID'')
      else case stored_body objs ci ''device'' current of
        None \<Rightarrow> Inl (err ''ENROLLMENT_CERTIFICATE_INVALID'')
      | Some d \<Rightarrow>
          (let device_key = (if device_key = None then Some (s_of d ''device_public_key'') else device_key);
               cert = jget d ''enrollment'';
               certificates = certificates @ [cert] in
           if s_of cert ''signer_kind'' = ''admin'' then Inr (device_key, certificates)
           else enrollment_chain objs ci (current # seen) (s_of cert ''signer_device_id'') device_key certificates))"
  by pat_completeness auto

termination enrollment_chain
proof (relation "measure (\<lambda>(objs, ci, seen, _). card (o_id ` set objs - set seen))", goal_cases)
  case (2 objs ci seen current device_key certificates d)
  then have "current \<in> o_id ` set objs" by (simp add: stored_body_id)
  with 2 have "o_id ` set objs - set (current # seen) \<subset> o_id ` set objs - set seen" by auto
  then show ?case by (simp add: psubset_card_mono)
qed simp

declare enrollment_chain.simps [simp del]

subsection \<open>The request\<close>

definition delete_receipt :: "ext \<Rightarrow> config \<Rightarrow> chain \<Rightarrow> json \<Rightarrow> nat \<Rightarrow> string \<Rightarrow> json res" where
  "delete_receipt X cfg c ledger index hash =
     ok_or ''INTERNAL_ERROR'' (sign_relay X (cfg_key cfg)
        (jobj [(''type'', JStr ''PALLASYNC-DELETE-RECEIPT-v3''), (''version'', JStr ''3.0''), (''chain_id'', JStr (ch_id c)),
          (''log_id'', JStr (ch_log_id c)), (''relay_key_id'', JStr (cfg_key_id cfg)),
          (''deletion_id'', jget ledger ''deletion_id''),
          (''authorized_parameters_hash'', jget ledger ''authorized_parameters_hash''),
          (''authorized_epoch_hash'', jget ledger ''authorized_epoch_hash''),
          (''authorization_hash'', jget ledger ''authorization_hash''),
          (''requested_at_ms'', jget ledger ''requested_at_ms''), (''completed_at_ms'', jget ledger ''completed_at_ms''),
          (''assurance'', jget ledger ''assurance''), (''delete_after_ms'', jget ledger ''delete_after_ms''),
          (''ledger_receipt_hash'', jget ledger ''receipt_hash''), (''transparency_id'', JStr (ch_transparency_id c)),
          (''transparency_index'', JNat index), (''transparency_hash'', JStr hash)]) CTX_DELETE)"

definition device_authorization :: "auth \<Rightarrow> json \<Rightarrow> json" where
  "device_authorization a v = jobj [(''token'', a_token a), (''request'', v)]"

text \<open>Who authorises the deletion: the admin operation, or the device's token with the request.\<close>

definition delete_authority :: "ext \<Rightarrow> chain \<Rightarrow> auth \<Rightarrow> json \<Rightarrow> string tx" where
  "delete_authority X c a v =
     (let op = jget v ''admin_operation'' in
      if admin a
      then bindM (admin_operation X c op ''delete_chain''
             (target v [''deletion_id'', ''expected_parameters_hash'', ''expected_epoch_hash''])) (\<lambda>_.
           ret (object_hash X op))
      else bindM (rejectM (op \<noteq> JNull) ''INVALID_FIELD'') (\<lambda>_.
           ret (object_hash X (device_authorization a v))))"

definition delete_ledger :: "ext \<Rightarrow> chain \<Rightarrow> json \<Rightarrow> string \<Rightarrow> nat \<Rightarrow> nat \<Rightarrow> json" where
  "delete_ledger X c v authority t deadline =
     (let ledger = jobj [(''chain_id'', JStr (ch_id c)), (''deletion_id'', jget v ''deletion_id''),
            (''authorized_parameters_hash'', JStr (parameters_hash X c)), (''authorized_epoch_hash'', JStr (epoch_hash X c)),
            (''authorization_hash'', JStr authority), (''requested_at_ms'', JNat t), (''completed_at_ms'', JNull),
            (''assurance'', JStr ''backup-expiry''), (''delete_after_ms'', JNat deadline)]
      in jset ''receipt_hash'' (JStr (object_hash X ledger)) ledger)"

definition delete_chain :: "ext \<Rightarrow> config \<Rightarrow> chain \<Rightarrow> auth \<Rightarrow> json \<Rightarrow> (chain \<times> json) tx" where
  "delete_chain X cfg c a v =
     bindM (lift (Relay_Wire.fields X v [(''deletion_id'', ''uuid''), (''expected_parameters_hash'', ''b32''),
        (''expected_epoch_hash'', ''b32''), (''admin_operation'', ''object?'')] [])) (\<lambda>_.
     bindM (rejectM (\<not> admin a \<and> jget (policy_of c) ''allow_device_chain_delete'' \<noteq> JBool True) ''ADMIN_REQUIRED'') (\<lambda>_.
     bindM (lift (cas X c (jget v ''expected_parameters_hash'') (jget v ''expected_epoch_hash''))) (\<lambda>_.
     let op = jget v ''admin_operation'' in
     bindM (delete_authority X c a v) (\<lambda>authority.
     bindM (if admin a then commit_objects X cfg ''admin'' op (c, []) else ret (c, [])) (\<lambda>(c, receipts).
     bindM (now X) (\<lambda>t.
     let deadline = t + n_of (jget (cfg_privacy cfg) ''deletion'') ''active_delete_max_ms'';
         ledger = delete_ledger X c v authority t deadline in
     bindM (transparency X cfg c ''delete'' (object_hash X ledger) None None) (\<lambda>(c, entry, _).
     bindM (lift (delete_receipt X cfg c ledger (ch_transparency_index c) (ch_transparency_hash c))) (\<lambda>r.
     bindM (case a_device a of
              None \<Rightarrow> ret (None, [])
            | Some i \<Rightarrow> bindM (gets db_objects) (\<lambda>objs. lift (enrollment_chain objs (ch_id c) [] i None []))) (\<lambda>(device_key, certificates).
     let proof = jobj [(''ledger'', ledger), (''parameters'', ch_parameters c), (''epoch'', ch_epoch c),
           (''enrollment_chain'', JArr certificates), (''admin_operation'', op),
           (''device_authorization'', if admin a then JNull else device_authorization a v),
           (''delete_receipt'', r), (''deletion_transparency_entry'', entry)];
         response = jobj [(''deletion_id'', jget v ''deletion_id''), (''state'', JStr ''deleting''),
           (''assurance'', JStr ''backup-expiry''), (''delete_after_ms'', JNat deadline),
           (''receipt_hash'', jget ledger ''receipt_hash''), (''delete_receipt'', r), (''upload_receipts'', JArr receipts)] in
     bindM (insert_row db_deletions db_deletions_update (same d_chain)
        \<lparr>d_chain = ch_id c, d_device = a_device a, d_admin_key = s_of (ch_parameters c) ''admin_public_key'',
         d_device_key = device_key, d_proof = proof, d_outcome = response, d_request_hash = object_hash X v\<rparr>) (\<lambda>_.
     ret (c, response)))))))))))"

definition deletion_proof :: "string \<Rightarrow> json option tx" where
  "deletion_proof ci = bindM (select_opt db_deletions (\<lambda>r. d_chain r = ci)) (\<lambda>row. ret (map_option d_proof row))"

definition gone :: "json \<Rightarrow> failure" where
  "gone proof =
     (let l = jget proof ''ledger'' in
      Err ''CHAIN_DELETED'' (Some (jobj [(''deletion_id'', jget l ''deletion_id''), (''assurance'', jget l ''assurance''),
        (''delete_after_ms'', jget l ''delete_after_ms''), (''receipt_hash'', jget l ''receipt_hash'')])))"

subsection \<open>Erasure and completion\<close>

text \<open>\<^verbatim>\<open>json_extract(proof,'$.ledger.completed_at_ms') IS NULL\<close>: missing or \<^verbatim>\<open>null\<close>.\<close>

definition open_deletion :: "deletion_row \<Rightarrow> bool" where
  "open_deletion r \<longleftrightarrow> jget (jget (d_proof r) ''ledger'') ''completed_at_ms'' = JNull"

text \<open>The eleven tables that are cleared of a chain.\<close>

definition erase_chain :: "string \<Rightarrow> unit \<Rightarrow> unit tx" where
  "erase_chain ci u =
     bindM (delete_rows db_objects_update (\<lambda>r. o_chain r = ci)) (\<lambda>_.
     bindM (delete_rows db_log_update (\<lambda>r. l_chain r = ci)) (\<lambda>_.
     bindM (delete_rows db_registry_update (\<lambda>r. g_chain r = ci)) (\<lambda>_.
     bindM (delete_rows db_outcomes_update (\<lambda>r. u_chain r = ci)) (\<lambda>_.
     bindM (delete_rows db_offers_update (\<lambda>r. f_chain r = ci)) (\<lambda>_.
     bindM (delete_rows db_cursors_update (\<lambda>r. k_chain r = ci)) (\<lambda>_.
     bindM (delete_rows db_imports_update (\<lambda>r. im_chain r = ci)) (\<lambda>_.
     bindM (delete_rows db_payload_nonces_update (\<lambda>r. pn_chain r = ci)) (\<lambda>_.
     bindM (delete_rows db_registry_history_update (\<lambda>r. g_chain (snd r) = ci)) (\<lambda>_.
     bindM (delete_rows db_offer_history_update (\<lambda>r. f_chain (snd r) = ci)) (\<lambda>_.
     delete_rows db_handoffs_update (\<lambda>r. hf_chain r = ci)))))))))))"

text \<open>
  \<open>busy\<close> is the first column of \<^verbatim>\<open>PRAGMA wal_checkpoint(TRUNCATE)\<close>: whether a reader or writer kept the
  log from being truncated. The deletions of the rows are committed before the checkpoint.
\<close>

definition erase :: "bool \<Rightarrow> unit tx" where
  "erase busy =
     bindM (transaction
       (bindM (select_all db_deletions open_deletion) (\<lambda>rows.
        bindM (foldM erase_chain (map d_chain rows) ()) (\<lambda>_.
        ret (rows \<noteq> []))))) (\<lambda>some.
     rejectM (some \<and> busy) ''STORAGE_UNAVAILABLE'')"

definition completed_proof :: "ext \<Rightarrow> config \<Rightarrow> nat \<Rightarrow> json \<Rightarrow> json res" where
  "completed_proof X cfg t proof =
     (let ledger = jset ''completed_at_ms'' (JNat t) (jget proof ''ledger'');
          ledger = jset ''receipt_hash'' (JStr (object_hash X (jremove ''receipt_hash'' ledger))) ledger;
          receipt = jset ''completed_at_ms'' (jget ledger ''completed_at_ms'') (jget proof ''delete_receipt'');
          receipt = jset ''ledger_receipt_hash'' (jget ledger ''receipt_hash'') receipt in
      rbind (ok_or ''INTERNAL_ERROR'' (sign_relay X (cfg_key cfg) receipt CTX_DELETE)) (\<lambda>receipt.
      Inr (jset ''delete_receipt'' receipt (jset ''ledger'' ledger proof))))"

definition complete_deletion :: "ext \<Rightarrow> config \<Rightarrow> deletion_row \<Rightarrow> unit \<Rightarrow> unit tx" where
  "complete_deletion X cfg row u =
     bindM (insert_ignore db_delete_versions db_delete_versions_update (same delete_version_key)
        \<lparr>v_chain = d_chain row, v_receipt_hash = s_of (jget (d_proof row) ''ledger'') ''receipt_hash'',
         v_proof = d_proof row\<rparr>) (\<lambda>_.
     bindM (now X) (\<lambda>t.
     bindM (lift (completed_proof X cfg t (d_proof row))) (\<lambda>proof.
     update_rows db_deletions_update (\<lambda>r. d_chain r = d_chain row) (\<lambda>r. r\<lparr>d_proof := proof\<rparr>))))"

text \<open>The second transaction of \<^verbatim>\<open>complete\<close>, and \<^verbatim>\<open>complete\<close>.\<close>

definition mark_completed :: "ext \<Rightarrow> config \<Rightarrow> unit tx" where
  "mark_completed X cfg = transaction
     (bindM (select_all db_deletions open_deletion) (\<lambda>rows. foldM (complete_deletion X cfg) rows ()))"

definition complete_deletions :: "ext \<Rightarrow> config \<Rightarrow> bool \<Rightarrow> unit tx" where
  "complete_deletions X cfg busy = bindM (erase busy) (\<lambda>_. mark_completed X cfg)"


subsection \<open>What the loop over the certificates returns\<close>

text \<open>The visited devices: each is signed for by the next, the last by the admin key.\<close>

fun signed_path :: "object_row list \<Rightarrow> string \<Rightarrow> string list \<Rightarrow> json list \<Rightarrow> bool" where
  "signed_path objs ci (i # ids) (cert # certs) \<longleftrightarrow>
     (\<exists>d. stored_body objs ci ''device'' i = Some d \<and> cert = jget d ''enrollment'')
     \<and> (case ids of
          [] \<Rightarrow> certs = [] \<and> s_of cert ''signer_kind'' = ''admin''
        | j # _ \<Rightarrow> s_of cert ''signer_kind'' \<noteq> ''admin'' \<and> s_of cert ''signer_device_id'' = j \<and> signed_path objs ci ids certs)"
| "signed_path objs ci ids certs \<longleftrightarrow> False"

lemma enrollment_chain_path:
  assumes "enrollment_chain objs ci seen current key certs = Inr (key', certs')"
  shows "\<exists>ids new. certs' = certs @ new \<and> hd ids = current \<and> ids \<noteq> [] \<and> distinct ids \<and> set ids \<inter> set seen = {}
    \<and> signed_path objs ci ids new
    \<and> key' = (if key = None then map_option (\<lambda>d. s_of d ''device_public_key'') (stored_body objs ci ''device'' current) else key)"
  using assms
proof (induction objs ci seen current key certs arbitrary: key' certs' rule: enrollment_chain.induct)
  case (1 objs ci seen current key certs)
  from 1(2) obtain d where fresh: "current \<notin> set seen" and d: "stored_body objs ci ''device'' current = Some d"
    by (subst (asm) enrollment_chain.simps) (auto split: if_splits option.splits)
  let ?cert = "jget d ''enrollment''" and ?key = "if key = None then Some (s_of d ''device_public_key'') else key"
  show ?case
  proof (cases "s_of ?cert ''signer_kind'' = ''admin''")
    case True
    with 1(2) fresh d have "key' = ?key" "certs' = certs @ [?cert]"
      by (subst (asm) enrollment_chain.simps; simp add: Let_def)+
    with True fresh d show ?thesis by (intro exI [of _ "[current]"] exI [of _ "[?cert]"]) simp
  next
    case False
    with 1(2) fresh d have rest:
      "enrollment_chain objs ci (current # seen) (s_of ?cert ''signer_device_id'') ?key (certs @ [?cert]) = Inr (key', certs')"
      by (subst (asm) enrollment_chain.simps) (simp add: Let_def)
    from 1(1) [OF fresh d refl refl refl False rest] obtain ids new where
      ih: "certs' = (certs @ [?cert]) @ new" "hd ids = s_of ?cert ''signer_device_id''" "ids \<noteq> []" "distinct ids"
      "set ids \<inter> set (current # seen) = {}" "signed_path objs ci ids new" "key' = ?key"
      by auto
    then have "signed_path objs ci (current # ids) (?cert # new)" using d False by (cases ids) auto
    with ih fresh d show ?thesis
      by (intro exI [of _ "current # ids"] exI [of _ "?cert # new"]) auto
  qed
qed

lemma signed_path_length: "signed_path objs ci ids certs \<Longrightarrow> length certs = length ids \<and> set ids \<subseteq> o_id ` set objs"
proof (induction objs ci ids certs rule: signed_path.induct)
  case (1 objs ci i ids cert certs)
  then show ?case by (cases ids) (auto simp: stored_body_id)
qed simp_all

text \<open>
  C17: the loop over the enrollment certificates of a deleting device ends on every store. A
  result is a path of distinct stored devices that starts with the deleting device, in which the
  certificate of each names the next as its signer and the last is signed by the admin key; its
  length is bounded by the number of stored objects, and the key is that of the first device.
\<close>

theorem enrollment_chain_sound:
  assumes "enrollment_chain objs ci [] i None [] = Inr (key, certs)"
  shows "length certs \<le> length objs
    \<and> key = map_option (\<lambda>d. s_of d ''device_public_key'') (stored_body objs ci ''device'' i)
    \<and> (\<exists>ids. ids \<noteq> [] \<and> hd ids = i \<and> distinct ids \<and> signed_path objs ci ids certs)"
proof -
  from enrollment_chain_path [OF assms] obtain ids where
    ids: "hd ids = i" "ids \<noteq> []" "distinct ids" "signed_path objs ci ids certs"
    and key: "key = map_option (\<lambda>d. s_of d ''device_public_key'') (stored_body objs ci ''device'' i)"
    by auto
  note len = signed_path_length [OF ids(4)]
  have "length certs = card (set ids)" using len ids(3) by (simp add: distinct_card)
  also have "\<dots> \<le> card (o_id ` set objs)" using len by (simp add: card_mono)
  also have "\<dots> \<le> length objs" by (meson card_image_le card_length finite_set order_trans)
  finally show ?thesis using ids key by blast
qed

definition demo_device_row :: "string \<Rightarrow> string \<Rightarrow> string \<Rightarrow> object_row" where
  "demo_device_row i kind signer_id = \<lparr>o_chain = demo_b32, o_kind = ''device'', o_id = i, o_hash = ''h'',
     o_body = Some (jobj [(''device_public_key'', JStr i), (''enrollment'', jobj [(''signer_kind'', JStr kind),
       (''signer_device_id'', JStr signer_id)])]), o_log = None, o_seq = None\<rparr>"

theorem enrollment_chain_sound_witness:
  "\<exists>certs. enrollment_chain [demo_device_row ''b'' ''device'' ''a'', demo_device_row ''a'' ''admin'' []] demo_b32 [] ''b'' None []
      = Inr (Some ''b'', certs) \<and> length certs = 2
    \<and> (\<exists>ids. hd ids = ''b'' \<and> signed_path [demo_device_row ''b'' ''device'' ''a'', demo_device_row ''a'' ''admin'' []] demo_b32 ids certs)"
proof -
  let ?objs = "[demo_device_row ''b'' ''device'' ''a'', demo_device_row ''a'' ''admin'' []]"
  have "case enrollment_chain ?objs demo_b32 [] ''b'' None [] of Inr (k, certs) \<Rightarrow> k = Some ''b'' \<and> length certs = 2 | _ \<Rightarrow> False"
    by code_simp
  then obtain certs where run: "enrollment_chain ?objs demo_b32 [] ''b'' None [] = Inr (Some ''b'', certs)" "length certs = 2"
    by (auto split: sum.splits prod.splits)
  with enrollment_chain_sound [OF run(1)] show ?thesis by blast
qed

subsection \<open>What erasure removes\<close>

definition wipe :: "string \<Rightarrow> db \<Rightarrow> db" where
  "wipe ci st = st\<lparr>
     db_objects := filter (\<lambda>r. o_chain r \<noteq> ci) (db_objects st), db_log := filter (\<lambda>r. l_chain r \<noteq> ci) (db_log st),
     db_registry := filter (\<lambda>r. g_chain r \<noteq> ci) (db_registry st), db_outcomes := filter (\<lambda>r. u_chain r \<noteq> ci) (db_outcomes st),
     db_offers := filter (\<lambda>r. f_chain r \<noteq> ci) (db_offers st), db_cursors := filter (\<lambda>r. k_chain r \<noteq> ci) (db_cursors st),
     db_imports := filter (\<lambda>r. im_chain r \<noteq> ci) (db_imports st),
     db_payload_nonces := filter (\<lambda>r. pn_chain r \<noteq> ci) (db_payload_nonces st),
     db_registry_history := filter (\<lambda>r. g_chain (snd r) \<noteq> ci) (db_registry_history st),
     db_offer_history := filter (\<lambda>r. f_chain (snd r) \<noteq> ci) (db_offer_history st),
     db_handoffs := filter (\<lambda>r. hf_chain r \<noteq> ci) (db_handoffs st)\<rparr>"

lemma erase_chain_run: "erase_chain ci u st = (Inr (), wipe ci st)"
  by (simp add: erase_chain_def delete_rows_def bindM_def modify_def wipe_def)

lemma fold_erase_chain: "foldM erase_chain cs u st = (Inr (), fold wipe cs st)"
  by (induction cs arbitrary: u st) (simp_all add: bindM_def erase_chain_run ret_def)

lemma fold_wipe:
  "db_objects (fold wipe cs st) = filter (\<lambda>r. o_chain r \<notin> set cs) (db_objects st)"
  "db_log (fold wipe cs st) = filter (\<lambda>r. l_chain r \<notin> set cs) (db_log st)"
  "db_registry (fold wipe cs st) = filter (\<lambda>r. g_chain r \<notin> set cs) (db_registry st)"
  "db_outcomes (fold wipe cs st) = filter (\<lambda>r. u_chain r \<notin> set cs) (db_outcomes st)"
  "db_offers (fold wipe cs st) = filter (\<lambda>r. f_chain r \<notin> set cs) (db_offers st)"
  "db_cursors (fold wipe cs st) = filter (\<lambda>r. k_chain r \<notin> set cs) (db_cursors st)"
  "db_imports (fold wipe cs st) = filter (\<lambda>r. im_chain r \<notin> set cs) (db_imports st)"
  "db_payload_nonces (fold wipe cs st) = filter (\<lambda>r. pn_chain r \<notin> set cs) (db_payload_nonces st)"
  "db_registry_history (fold wipe cs st) = filter (\<lambda>r. g_chain (snd r) \<notin> set cs) (db_registry_history st)"
  "db_offer_history (fold wipe cs st) = filter (\<lambda>r. f_chain (snd r) \<notin> set cs) (db_offer_history st)"
  "db_handoffs (fold wipe cs st) = filter (\<lambda>r. hf_chain r \<notin> set cs) (db_handoffs st)"
  by (induction cs arbitrary: st; simp add: wipe_def; metis (no_types, lifting) filter_cong)+

lemma fold_wipe_keeps:
  "db_chains (fold wipe cs st) = db_chains st" "db_receipts (fold wipe cs st) = db_receipts st"
  "db_transparency (fold wipe cs st) = db_transparency st" "db_heads (fold wipe cs st) = db_heads st"
  "db_nonces (fold wipe cs st) = db_nonces st" "db_deletions (fold wipe cs st) = db_deletions st"
  "db_delete_versions (fold wipe cs st) = db_delete_versions st" "db_notices (fold wipe cs st) = db_notices st"
  "db_rates (fold wipe cs st) = db_rates st" "db_barrier (fold wipe cs st) = db_barrier st"
  "db_tick (fold wipe cs st) = db_tick st" "db_ids (fold wipe cs st) = db_ids st"
  by (induction cs arbitrary: st; simp add: wipe_def)+

definition open_chains :: "db \<Rightarrow> string list" where
  "open_chains st = map d_chain (filter open_deletion (db_deletions st))"

lemma erase_run:
  "erase busy st = (if open_chains st \<noteq> [] \<and> busy then Inl (err ''STORAGE_UNAVAILABLE'') else Inr (), fold wipe (open_chains st) st)"
  by (simp add: erase_def transaction_def bindM_def fold_erase_chain open_chains_def rejectM_def reject_def lift_def ret_def)


text \<open>
  C15: erasure removes, from every table that can hold a chain's content, exactly the rows of
  the chains with an open deletion, and keeps the receipts, the transparency log, the published heads,
  the spent nonces and the deletion ledger. Whether the write-ahead log could be truncated decides
  only the reported result.
\<close>

theorem erase_removes_open_chains:
  "let cs = open_chains st; st' = snd (erase busy st) in
     db_objects st' = filter (\<lambda>r. o_chain r \<notin> set cs) (db_objects st)
   \<and> db_log st' = filter (\<lambda>r. l_chain r \<notin> set cs) (db_log st)
   \<and> db_registry st' = filter (\<lambda>r. g_chain r \<notin> set cs) (db_registry st)
   \<and> db_outcomes st' = filter (\<lambda>r. u_chain r \<notin> set cs) (db_outcomes st)
   \<and> db_offers st' = filter (\<lambda>r. f_chain r \<notin> set cs) (db_offers st)
   \<and> db_cursors st' = filter (\<lambda>r. k_chain r \<notin> set cs) (db_cursors st)
   \<and> db_imports st' = filter (\<lambda>r. im_chain r \<notin> set cs) (db_imports st)
   \<and> db_payload_nonces st' = filter (\<lambda>r. pn_chain r \<notin> set cs) (db_payload_nonces st)
   \<and> db_registry_history st' = filter (\<lambda>r. g_chain (snd r) \<notin> set cs) (db_registry_history st)
   \<and> db_offer_history st' = filter (\<lambda>r. f_chain (snd r) \<notin> set cs) (db_offer_history st)
   \<and> db_handoffs st' = filter (\<lambda>r. hf_chain r \<notin> set cs) (db_handoffs st)
   \<and> db_receipts st' = db_receipts st \<and> db_transparency st' = db_transparency st \<and> db_heads st' = db_heads st
   \<and> db_nonces st' = db_nonces st \<and> db_deletions st' = db_deletions st
   \<and> fst (erase busy st) = (if cs \<noteq> [] \<and> busy then Inl (err ''STORAGE_UNAVAILABLE'') else Inr ())"
  by (simp add: erase_run Let_def fold_wipe fold_wipe_keeps)

subsection \<open>What completion records\<close>

definition ledger_ok :: "deletion_row \<Rightarrow> bool" where
  "ledger_ok r \<longleftrightarrow> is_object (d_proof r) \<and> is_object (jget (d_proof r) ''ledger'')"

lemma completed_proof_run:
  assumes "completed_proof X cfg t proof = Inr proof'" and "is_object proof" "is_object (jget proof ''ledger'')"
  shows "jget (jget proof' ''ledger'') ''completed_at_ms'' = JNat t"
    and "jget (jget proof' ''delete_receipt'') ''ledger_receipt_hash'' = jget (jget proof' ''ledger'') ''receipt_hash''"
    and "jget (jget proof' ''delete_receipt'') ''completed_at_ms'' = JNat t"
    and "\<exists>sig m. jget (jget proof' ''delete_receipt'') ''relay_signature'' = JStr sig
      \<and> signing_bytes X (jget proof' ''delete_receipt'') CTX_DELETE ''relay_signature'' = Some m
      \<and> verify_signature X (x_b64enc X (x_public_key X (cfg_key cfg))) sig m = Some True"
    and "is_object proof'" "is_object (jget proof' ''ledger'')"
proof -
  let ?l = "jset ''completed_at_ms'' (JNat t) (jget proof ''ledger'')"
  let ?ledger = "jset ''receipt_hash'' (JStr (object_hash X (jremove ''receipt_hash'' ?l))) ?l"
  let ?r = "jset ''ledger_receipt_hash'' (jget ?ledger ''receipt_hash'')
     (jset ''completed_at_ms'' (jget ?ledger ''completed_at_ms'') (jget proof ''delete_receipt''))"
  from assms(1) obtain r where r: "sign_relay X (cfg_key cfg) ?r CTX_DELETE = Some r"
    and proof': "proof' = jset ''delete_receipt'' r (jset ''ledger'' ?ledger proof)"
    by (auto simp: completed_proof_def Let_def ok_or_def split: option.splits)
  have obj: "is_object ?r" using sign_relay_is_object [OF r] by blast
  then have base: "is_object (jset ''completed_at_ms'' (jget ?ledger ''completed_at_ms'') (jget proof ''delete_receipt''))"
    by (cases "jget proof ''delete_receipt''") (simp_all add: jset_def is_object_def)
  have at: "jget (jset ''completed_at_ms'' (JNat t) v) ''completed_at_ms'' = JNat t"
    if "is_object (jset ''completed_at_ms'' (JNat t) v)" for v
    using that by (cases v) (simp_all add: jset_def is_object_def jget_def jfind_def, simp add: obj_get_def)
  show "jget (jget proof' ''ledger'') ''completed_at_ms'' = JNat t" "is_object proof'" "is_object (jget proof' ''ledger'')"
    using assms(2,3) by (simp_all add: proof')
  show "jget (jget proof' ''delete_receipt'') ''ledger_receipt_hash'' = jget (jget proof' ''ledger'') ''receipt_hash''"
    using assms(2,3) base sign_relay_jget [OF r] by (simp add: proof')
  show "jget (jget proof' ''delete_receipt'') ''completed_at_ms'' = JNat t"
    using assms(2,3) base at [of "jget proof ''delete_receipt''"] sign_relay_jget [OF r] by (simp add: proof')
  show "\<exists>sig m. jget (jget proof' ''delete_receipt'') ''relay_signature'' = JStr sig
      \<and> signing_bytes X (jget proof' ''delete_receipt'') CTX_DELETE ''relay_signature'' = Some m
      \<and> verify_signature X (x_b64enc X (x_public_key X (cfg_key cfg))) sig m = Some True"
    using assms(2) sign_relay_sound [OF r] by (auto simp: proof')
qed

lemma complete_deletion_run:
  assumes "complete_deletion X cfg row u st = (Inr x, st')"
  shows "\<exists>vs proof. st' = st\<lparr>db_delete_versions := vs, db_tick := db_tick st + 1, db_deletions :=
      map (\<lambda>r. if d_chain r = d_chain row then r\<lparr>d_proof := proof\<rparr> else r) (db_deletions st)\<rparr>
    \<and> completed_proof X cfg (x_clock X (db_tick st)) (d_proof row) = Inr proof"
  using assms by (cases st) (auto simp: complete_deletion_def bindM_run insert_ignore_def update_rows_def split: if_splits)

lemma complete_all_run:
  assumes "foldM (complete_deletion X cfg) rows () st = (Inr (), st')" and "list_all ledger_ok rows"
  shows "(\<exists>ds vs t. st' = st\<lparr>db_deletions := ds, db_delete_versions := vs, db_tick := t\<rparr>)
    \<and> map d_chain (db_deletions st') = map d_chain (db_deletions st)
    \<and> (\<forall>r \<in> set (db_deletions st'). open_deletion r \<longrightarrow> r \<in> set (db_deletions st) \<and> d_chain r \<notin> d_chain ` set rows)"
  using assms
proof (induction rows arbitrary: st)
  case Nil
  then have "st' = st\<lparr>db_deletions := db_deletions st, db_delete_versions := db_delete_versions st, db_tick := db_tick st\<rparr>"
    by simp
  moreover have "map d_chain (db_deletions st') = map d_chain (db_deletions st)
    \<and> (\<forall>r \<in> set (db_deletions st'). open_deletion r \<longrightarrow> r \<in> set (db_deletions st) \<and> d_chain r \<notin> d_chain ` set [])"
    using Nil by simp
  ultimately show ?case by blast
next
  case (Cons row rows)
  then obtain st1 where one: "complete_deletion X cfg row () st = (Inr (), st1)"
    and rest: "foldM (complete_deletion X cfg) rows () st1 = (Inr (), st')"
    by (auto simp: bindM_run)
  from complete_deletion_run [OF one] obtain vs pf where
    st1: "st1 = st\<lparr>db_delete_versions := vs, db_tick := db_tick st + 1, db_deletions :=
      map (\<lambda>r. if d_chain r = d_chain row then r\<lparr>d_proof := pf\<rparr> else r) (db_deletions st)\<rparr>"
    and pf: "completed_proof X cfg (x_clock X (db_tick st)) (d_proof row) = Inr pf" by blast
  from Cons.prems(2) have ok: "is_object (d_proof row)" "is_object (jget (d_proof row) ''ledger'')"
    by (simp_all add: ledger_ok_def)
  have closed: "\<not> open_deletion (r\<lparr>d_proof := pf\<rparr>)" for r
    using completed_proof_run(1) [OF pf ok] by (simp add: open_deletion_def)
  from Cons.IH [OF rest] Cons.prems(2) obtain ds vs' t where
    ih: "st' = st1\<lparr>db_deletions := ds, db_delete_versions := vs', db_tick := t\<rparr>"
      "map d_chain (db_deletions st') = map d_chain (db_deletions st1)"
      "\<forall>r \<in> set (db_deletions st'). open_deletion r \<longrightarrow> r \<in> set (db_deletions st1) \<and> d_chain r \<notin> d_chain ` set rows"
    by auto
  have "st' = st\<lparr>db_deletions := ds, db_delete_versions := vs', db_tick := t\<rparr>" using ih(1) by (simp add: st1)
  moreover have "map d_chain (db_deletions st1) = map d_chain (db_deletions st)" by (simp add: st1)
  moreover have "r \<in> set (db_deletions st) \<and> d_chain r \<noteq> d_chain row" if "r \<in> set (db_deletions st1)" "open_deletion r" for r
    using that closed by (auto simp: st1 split: if_splits)
  ultimately show ?case using ih(2,3) by (metis image_insert insert_iff list.simps(15))
qed

lemma mark_completed_run:
  assumes "mark_completed X cfg st = (Inr (), st')" and "list_all ledger_ok (db_deletions st)"
  shows "open_chains st' = []" and "\<exists>ds vs t. st' = st\<lparr>db_deletions := ds, db_delete_versions := vs, db_tick := t\<rparr>"
proof -
  let ?rows = "filter open_deletion (db_deletions st)"
  have run: "foldM (complete_deletion X cfg) ?rows () st = (Inr (), st')"
    using assms(1) by (auto simp: mark_completed_def transaction_def bindM_def split: prod.splits sum.splits)
  have ok: "list_all ledger_ok ?rows" using assms(2) by (auto simp: list_all_iff)
  note c = complete_all_run [OF run ok]
  show "\<exists>ds vs t. st' = st\<lparr>db_deletions := ds, db_delete_versions := vs, db_tick := t\<rparr>" using c by blast
  have "\<not> open_deletion r" if "r \<in> set (db_deletions st')" for r
    using c that by auto
  then show "open_chains st' = []" by (simp add: open_chains_def filter_empty_conv)
qed

text \<open>
  When nothing comes between its two transactions, completion leaves no deletion open, and
  every chain whose deletion was open has lost its objects, its log and its registry.
\<close>

theorem complete_deletions_erases:
  assumes "complete_deletions X cfg busy st = (Inr (), st')" and "list_all ledger_ok (db_deletions st)"
    and "ci \<in> set (open_chains st)"
  shows "open_chains st' = []
    \<and> \<not> list_ex (\<lambda>r. o_chain r = ci) (db_objects st') \<and> \<not> list_ex (\<lambda>r. l_chain r = ci) (db_log st')
    \<and> \<not> list_ex (\<lambda>r. g_chain r = ci) (db_registry st') \<and> db_receipts st' = db_receipts st
    \<and> db_transparency st' = db_transparency st"
proof -
  let ?st1 = "fold wipe (open_chains st) st"
  from assms(1) have mark: "mark_completed X cfg ?st1 = (Inr (), st')"
    by (auto simp: complete_deletions_def bindM_def erase_run split: if_splits)
  have ok: "list_all ledger_ok (db_deletions ?st1)" using assms(2) by (simp add: fold_wipe_keeps)
  from mark_completed_run(2) [OF mark ok] obtain ds vs t where
    "st' = ?st1\<lparr>db_deletions := ds, db_delete_versions := vs, db_tick := t\<rparr>" by blast
  then show ?thesis
    using mark_completed_run(1) [OF mark ok] assms(3) by (auto simp: fold_wipe fold_wipe_keeps list_ex_iff)
qed

definition demo_deletion :: deletion_row where
  "demo_deletion = \<lparr>d_chain = demo_b32, d_device = None, d_admin_key = demo_b32, d_device_key = None,
     d_proof = jobj [(''ledger'', jobj [(''completed_at_ms'', JNull)]), (''delete_receipt'', JObj [])],
     d_outcome = JNull, d_request_hash = demo_b32\<rparr>"

definition demo_deletion_db :: db where
  "demo_deletion_db = empty_db\<lparr>db_deletions := [demo_deletion], db_objects := [demo_device_row ''b'' ''device'' ''a'']\<rparr>"

lemma demo_deletion_facts:
  "list_all ledger_ok (db_deletions demo_deletion_db)" "demo_b32 \<in> set (open_chains demo_deletion_db)"
  by (simp_all add: demo_deletion_db_def demo_deletion_def ledger_ok_def open_chains_def open_deletion_def jget_jobj
      demo_device_row_def)

theorem complete_deletions_erases_witness:
  "\<exists>st'. complete_deletions demo_fast demo_cfg False demo_deletion_db = (Inr (), st')
     \<and> \<not> list_ex (\<lambda>r. o_chain r = demo_b32) (db_objects st')"
proof -
  have "is_ok (fst (complete_deletions demo_fast demo_cfg False demo_deletion_db))" by code_simp
  then obtain x st' where "complete_deletions demo_fast demo_cfg False demo_deletion_db = (Inr x, st')"
    by (blast dest: is_ok_run)
  then have run: "complete_deletions demo_fast demo_cfg False demo_deletion_db = (Inr (), st')" by simp
  from complete_deletions_erases [OF run demo_deletion_facts] run show ?thesis by blast
qed

subsection \<open>The request keeps the contract\<close>

lemma read_only_delete_authority [intro, simp]: "read_only (delete_authority X c a v)"
  unfolding delete_authority_def Let_def
  by (intro read_only_bindM read_only_cases read_only_basic read_only_checks)

lemma wps_delete_chain:
  assumes "evolves X cfg c0 st0 c st"
    and "\<And>c' r st'. evolves X cfg c0 st0 c' st' \<Longrightarrow> Q (c', r) st'"
  shows "wps (delete_chain X cfg c a v) Q st"
proof -
  have ins: "wps (insert_row db_deletions db_deletions_update clash row) Q' st1"
    if "evolves X cfg c0 st0 c' st1" "\<And>x st'. evolves X cfg c0 st0 c' st' \<Longrightarrow> Q' x st'" for clash row Q' st1 c'
    by (rule wps_other_table [OF that]) (auto simp: insert_row_def split: if_splits)
  show ?thesis
    unfolding delete_chain_def Let_def
    by (intro wp_intros ins wps_transparency_evolves [of X cfg c0 st0] wps_commit_objects [of X cfg c0 st0]
        wps_read_only handler_reads read_only_delete_authority; ((elim Pair_inject, hypsubst)?; (assumption | rule assms)?))
      (simp_all add: assms)
qed

end
