(* ===== verification/Relay_Batch.thy ===== *)
theory Relay_Batch
  imports Relay_Deletion "HOL-Library.Multiset"
begin

text \<open>
  \<^verbatim>\<open>src/api/batch.rs\<close>: the upload of records, snapshot parts, repairs and envelopes. Every item is a
  transaction of its own, so a request may be accepted in part. Starting, committing and rolling back
  a transaction can fail; \<open>faults\<close> says at which item each of them does.
\<close>

subsection \<open>Transactions whose failures are handled\<close>

record faults =
  fault_begin :: "nat \<Rightarrow> bool"
  fault_commit :: "nat \<Rightarrow> bool"
  fault_rollback :: "nat \<Rightarrow> bool"
  fault_audit_begin :: "nat \<Rightarrow> bool"
  fault_audit_commit :: "nat \<Rightarrow> bool"

datatype 'a tx_end = Committed 'a | Commit_failed | Aborted failure

text \<open>
  Run a transaction body and commit it. A failed body or commit leaves the tables as they were; a
  panic unwinds through the caller, and the transaction is rolled back when it is dropped.
\<close>

definition run_tx :: "bool \<Rightarrow> 'a tx \<Rightarrow> 'a tx_end tx" where
  "run_tx commit_fails m =
     (\<lambda>st. case m st of
        (Inr x, st') \<Rightarrow> if commit_fails then (Inr Commit_failed, rollback_to st st') else (Inr (Committed x), st')
      | (Inl Panic, st') \<Rightarrow> (Inl Panic, rollback_to st st')
      | (Inl (Err code ctx), st') \<Rightarrow> (Inr (Aborted (Err code ctx)), rollback_to st st'))"

fun failure_code :: "failure \<Rightarrow> string" where
  "failure_code (Err code ctx) = code"
| "failure_code Panic = []"

text \<open>\<^verbatim>\<open>validate(..).is_ok()\<close>\<close>

fun succeeds :: "'a res \<Rightarrow> bool res" where
  "succeeds (Inr x) = Inr True"
| "succeeds (Inl (Err code ctx)) = Inr False"
| "succeeds (Inl Panic) = Inl Panic"

subsection \<open>One item\<close>

record upload_request =
  ur_auth :: auth
  ur_chain :: string
  ur_route :: string
  ur_param :: string
  ur_body :: json

definition envelope_route :: "upload_request \<Rightarrow> bool" where
  "envelope_route u \<longleftrightarrow> ur_route u = ''envelopes_post''"

definition repair_route :: "upload_request \<Rightarrow> bool" where
  "repair_route u \<longleftrightarrow> ur_route u = ''repair''"

definition snapshot_route :: "upload_request \<Rightarrow> bool" where
  "snapshot_route u \<longleftrightarrow> ur_route u = ''parts_post''"

definition upload_key :: "upload_request \<Rightarrow> string" where
  "upload_key u = (if envelope_route u then ''envelopes'' else ''records'')"

definition id_key :: "upload_request \<Rightarrow> string" where
  "id_key u = (if envelope_route u then ''envelope_id'' else ''record_id'')"

type_synonym attempt_result = "chain \<times> json \<times> json option"

definition attempt_envelope :: "ext \<Rightarrow> config \<Rightarrow> upload_request \<Rightarrow> chain \<Rightarrow> json \<Rightarrow> attempt_result tx" where
  "attempt_envelope X cfg u c r =
     (let a = ur_auth u in
      bindM (lift (validate X r SEnvelope)) (\<lambda>_.
      bindM (rejectM (s_of r ''recipient_kind'' \<noteq> ''device'') ''ENVELOPE_ACCESS_DENIED'') (\<lambda>_.
      bindM (rejectM (show_nat (n_of r ''epoch'') \<noteq> ur_param u) ''INVALID_FIELD'') (\<lambda>_.
      bindM (rejectM (\<not> admin a \<and> a_device a \<noteq> Some (s_of r ''signer_device_id'')) ''DEVICE_KEY_MISMATCH'') (\<lambda>_.
      bindM (object (ur_chain u) ''epoch'' (ur_param u)) (\<lambda>b.
      bindM (lift (ok_or ''EPOCH_NOT_FOUND'' b)) (\<lambda>ep.
      bindM (expired c (n_of r ''epoch'')) (\<lambda>ex.
      bindM (rejectM ex ''HISTORY_KEY_EXPIRED'') (\<lambda>_.
      bindM (envelope X c r ep []) (\<lambda>_.
      bindM (append_entry X cfg c ''envelope'' r) (\<lambda>(c, _, rc).
      ret (c, JStr (s_of r (id_key u)), Some rc))))))))))))"

definition attempt_repair :: "ext \<Rightarrow> config \<Rightarrow> upload_request \<Rightarrow> nat \<Rightarrow> chain \<Rightarrow> json \<Rightarrow> attempt_result tx" where
  "attempt_repair X cfg u i c r =
     bindM (lift (validate X r SRecord)) (\<lambda>_.
     bindM (lift (bound r c)) (\<lambda>_.
     bindM (lift (unwrap (if i < length (a_of (ur_body u) ''receipts'') then Some (a_of (ur_body u) ''receipts'' ! i) else None))) (\<lambda>source.
     bindM (lift (Relay_Wire.fields X source [(''relay_seq'', ''int''), (''received_at_ms'', ''int''), (''kind'', ''record''),
        (''object'', ''object'')] [])) (\<lambda>_.
     bindM (rejectM (jget source ''object'' \<noteq> r) ''REPAIR_PROOF_REQUIRED'') (\<lambda>_.
     bindM (select_opt db_log (\<lambda>l. log_key l = (ur_chain u, s_of (ur_body u) ''source_log_id'', n_of source ''relay_seq''))) (\<lambda>row.
     bindM (rejectM ((case row of None \<Rightarrow> None | Some l \<Rightarrow> l_entry l) \<noteq> Some source) ''REPAIR_PROOF_REQUIRED'') (\<lambda>_.
     bindM (object_digest (ur_chain u) ''record'' (s_of r ''record_id'')) (\<lambda>dg.
     bindM (append_entry X cfg c ''record'' r) (\<lambda>(c, entry, rc).
     ret (c, jobj [(''record_id'', jget r ''record_id''), (''duplicate'', JBool (dg \<noteq> None)),
       (''receipt'', if entry = JNull then source else entry)], Some rc))))))))))"

definition attempt_record :: "ext \<Rightarrow> config \<Rightarrow> upload_request \<Rightarrow> chain \<Rightarrow> json \<Rightarrow> attempt_result tx" where
  "attempt_record X cfg u c r =
     bindM (rejectM (\<not> ch_writable c \<and> \<not> snapshot_route u) ''CHAIN_NOT_FOUND'') (\<lambda>_.
     bindM (count_rows db_imports (\<lambda>im. im_chain im = ur_chain u)) (\<lambda>k.
     bindM (record_check X c r (ur_auth u) (snapshot_route u) (k > 0)) (\<lambda>duplicate.
     bindM (reserve_payload_nonce c r) (\<lambda>_.
     if snapshot_route u
     then bindM (snapshot_part X cfg c r) (\<lambda>(c, rc). ret (c, JStr (s_of r (id_key u)), Some rc))
     else bindM (append_entry X cfg c ''record'' r) (\<lambda>(c, entry, rc).
          let entry = (if entry = JNull
            then jobj [(''relay_seq'', jget rc ''relay_seq''), (''received_at_ms'', jget rc ''received_at_ms''),
                   (''kind'', JStr ''record''), (''object'', r)]
            else entry) in
          ret (c, jobj [(''record_id'', jget r ''record_id''), (''duplicate'', JBool duplicate), (''receipt'', entry)],
            Some rc))))))"

definition attempt :: "ext \<Rightarrow> config \<Rightarrow> upload_request \<Rightarrow> nat \<Rightarrow> chain \<Rightarrow> json \<Rightarrow> attempt_result tx" where
  "attempt X cfg u i c r =
     bindM (write_guard X cfg) (\<lambda>_.
     bindM (deletion_proof (ur_chain u)) (\<lambda>p.
     bindM (case p of Some pf \<Rightarrow> lift (Inl (gone pf)) | None \<Rightarrow> ret ()) (\<lambda>_.
     bindM (case a_device (ur_auth u) of None \<Rightarrow> ret [] | Some d \<Rightarrow> active_device c d) (\<lambda>_.
     if envelope_route u then attempt_envelope X cfg u c r
     else if repair_route u then attempt_repair X cfg u i c r
     else attempt_record X cfg u c r))))"

definition audit_reject :: "ext \<Rightarrow> config \<Rightarrow> faults \<Rightarrow> nat \<Rightarrow> string \<Rightarrow> json \<Rightarrow> string \<Rightarrow> chain tx_end tx" where
  "audit_reject X cfg F i ci r code =
     run_tx (fault_audit_commit F i)
       (if fault_audit_begin F i then lift (Inl sql_error)
        else bindM (load ci) (\<lambda>c.
             bindM (lift (ok_or ''CHAIN_NOT_FOUND'' c)) (\<lambda>c.
             bindM (transparency X cfg c ''reject'' (object_hash X r) None (Some code)) (\<lambda>(c, _, _).
             bindM (save X cfg c) (\<lambda>_.
             ret c)))))"

subsection \<open>The loop\<close>

record upload_acc =
  up_accepted :: "json list"
  up_rejected :: "json list"
  up_receipts :: "json list"
  up_final :: "chain option"

text \<open>Every given record is answered with the same error; without an accepted record the request fails.\<close>

fun rejections :: "string \<Rightarrow> failure \<Rightarrow> json list \<Rightarrow> json list res" where
  "rejections idk e [] = Inr []"
| "rejections idk e (r # rs) =
     rbind (unwrap (rejection r idk (failure_code e))) (\<lambda>j. rbind (rejections idk e rs) (\<lambda>js. Inr (j # js)))"

definition fail_rest :: "string \<Rightarrow> failure \<Rightarrow> json list \<Rightarrow> upload_acc \<Rightarrow> (upload_acc \<times> bool) tx" where
  "fail_rest idk e rs acc =
     (if up_accepted acc = [] then lift (Inl e)
      else bindM (lift (rejections idk e rs)) (\<lambda>js.
           ret (acc\<lparr>up_rejected := up_rejected acc @ js\<rparr>, True)))"

text \<open>The answer to an item whose transaction was rolled back.\<close>

definition upload_rejected ::
    "ext \<Rightarrow> config \<Rightarrow> faults \<Rightarrow> upload_request \<Rightarrow> nat \<Rightarrow> json \<Rightarrow> json list \<Rightarrow> failure \<Rightarrow> upload_acc \<Rightarrow> (upload_acc \<times> bool) tx" where
  "upload_rejected X cfg F u i r rest e acc =
     (if up_accepted acc = [] \<and> failure_code e \<in> set [''QUOTA_EXCEEDED'', ''STORAGE_UNAVAILABLE''] then lift (Inl e)
      else
        bindM (lift (rejections (id_key u) e [r])) (\<lambda>js.
        let acc' = acc\<lparr>up_rejected := up_rejected acc @ js\<rparr> in
        bindM (if failure_code e \<in> set [''QUOTA_EXCEEDED'', ''STORAGE_UNAVAILABLE'', ''CHAIN_DELETED''] then ret False
               else lift (succeeds (validate X r (if envelope_route u then SEnvelope else SRecord)))) (\<lambda>audited.
        if \<not> audited then ret (acc', False)
        else
          bindM (audit_reject X cfg F i (ur_chain u) r (failure_code e)) (\<lambda>res.
          case res of
            Committed c \<Rightarrow> ret (acc'\<lparr>up_final := Some c\<rparr>, False)
          | Commit_failed \<Rightarrow> fail_rest (id_key u) sql_error (r # rest) acc
          | Aborted failure \<Rightarrow> fail_rest (id_key u) failure (r # rest) acc))))"

definition upload_one ::
    "ext \<Rightarrow> config \<Rightarrow> faults \<Rightarrow> upload_request \<Rightarrow> nat \<Rightarrow> json \<Rightarrow> json list \<Rightarrow> upload_acc \<Rightarrow> (upload_acc \<times> bool) tx" where
  "upload_one X cfg F u i r rest acc =
     (if fault_begin F i then fail_rest (id_key u) sql_error (r # rest) acc
      else
        bindM (load (ur_chain u)) (\<lambda>c.
        case c of
          None \<Rightarrow> fail_rest (id_key u) (err ''CHAIN_NOT_FOUND'') (r # rest) acc
        | Some c \<Rightarrow>
            (let acc = (if up_final acc = None then acc\<lparr>up_final := Some c\<rparr> else acc) in
             bindM (run_tx (fault_commit F i)
               (bindM (attempt X cfg u i c r) (\<lambda>(c, item, rc).
                bindM (save X cfg c) (\<lambda>_.
                ret (c, item, rc))))) (\<lambda>res.
             case res of
               Committed (c, item, rc) \<Rightarrow>
                 ret (acc\<lparr>up_accepted := up_accepted acc @ [item],
                   up_receipts := up_receipts acc @ (case rc of None \<Rightarrow> [] | Some x \<Rightarrow> [x]), up_final := Some c\<rparr>, False)
             | Commit_failed \<Rightarrow> fail_rest (id_key u) sql_error (r # rest) acc
             | Aborted e \<Rightarrow>
                 if fault_rollback F i then fail_rest (id_key u) sql_error (r # rest) acc
                 else upload_rejected X cfg F u i r rest e acc))))"

fun upload_loop ::
    "ext \<Rightarrow> config \<Rightarrow> faults \<Rightarrow> upload_request \<Rightarrow> nat \<Rightarrow> json list \<Rightarrow> upload_acc \<Rightarrow> upload_acc tx" where
  "upload_loop X cfg F u i [] acc = ret acc"
| "upload_loop X cfg F u i (r # rs) acc =
     bindM (upload_one X cfg F u i r rs acc) (\<lambda>(acc, stop).
     if stop then ret acc else upload_loop X cfg F u (i + 1) rs acc)"

subsection \<open>The request\<close>

text \<open>The loop over the identifiers: each is a UUID and none occurs twice.\<close>

definition check_id :: "ext \<Rightarrow> string \<Rightarrow> json \<Rightarrow> string list \<Rightarrow> string list res" where
  "check_id X idk r ids =
     rbind (reject (\<not> uuid X (s_of r idk) \<or> s_of r idk \<in> set ids) ''INVALID_FIELD'') (\<lambda>_. Inr (s_of r idk # ids))"

definition upload_checks :: "ext \<Rightarrow> config \<Rightarrow> upload_request \<Rightarrow> unit tx" where
  "upload_checks X cfg u =
     (let v = ur_body u; a = ur_auth u; records = a_of v (upload_key u);
          max = (if envelope_route u then 128 else n_of (limits cfg) ''max_records_per_upload'') in
      bindM (if repair_route u
             then bindM (lift (require_admin a)) (\<lambda>_.
                  lift (Relay_Wire.fields X v [(''source_log_id'', ''uuid''), (''records'', ''array''), (''receipts'', ''array'')] []))
             else lift (Relay_Wire.fields X v [(upload_key u, ''array'')] [])) (\<lambda>_.
      bindM (rejectM (ur_route u = ''records_post'' \<and> admin a) ''DEVICE_KEY_MISMATCH'') (\<lambda>_.
      bindM (rejectM (records = [] \<or> length records > max
         \<or> (repair_route u \<and> length (a_of v ''receipts'') \<noteq> length records)) ''INVALID_FIELD'') (\<lambda>_.
      bindM (lift (rfold (check_id X (id_key u)) records [])) (\<lambda>_.
      bindM (rejectM (cfg_max_bytes cfg = Some 0) ''QUOTA_EXCEEDED'') (\<lambda>_.
      quota X cfg (ur_chain u)))))))"

text \<open>
  Receipts in the order of the record identifiers (snapshot parts) or of the log. The closure that
  looks an identifier up panics when there is none; sorting calls it only when there is something to sort.
\<close>

definition sort_receipts :: "ext \<Rightarrow> upload_request \<Rightarrow> json list \<Rightarrow> json list res" where
  "sort_receipts X u rs =
     (if snapshot_route u
      then (let ids = map_of (rev (map (\<lambda>r. (object_hash X r, s_of r ''record_id'')) (a_of (ur_body u) (upload_key u)))) in
            if length rs > 1 \<and> list_ex (\<lambda>r. ids (s_of r ''object_hash'') = None) rs then Inl Panic
            else Inr (sort_key (\<lambda>r. case ids (s_of r ''object_hash'') of None \<Rightarrow> [] | Some i \<Rightarrow> i) rs))
      else Inr (sort_key (\<lambda>r. n_of r ''relay_seq'') rs))"

definition upload_response :: "ext \<Rightarrow> upload_request \<Rightarrow> upload_acc \<Rightarrow> json list \<Rightarrow> json tx" where
  "upload_response X u acc receipts =
     (let response = jobj [(''accepted'', JArr (up_accepted acc)), (''rejected'', JArr (up_rejected acc)),
            (''upload_receipts'', JArr receipts)] in
      if snapshot_route u \<or> envelope_route u then ret response
      else
        bindM (case up_final acc of
                 Some c \<Rightarrow> ret c
               | None \<Rightarrow> bindM (load (ur_chain u)) (\<lambda>c. lift (unwrap c))) (\<lambda>c.
        let response = jset ''head_hash'' (JStr (ch_head_hash c)) (jset ''head_seq'' (JNat (ch_head_seq c))
              (jset ''log_id'' (JStr (ch_log_id c)) (jset ''generation'' (JNat (generation c)) response))) in
        ret (if repair_route u then jset ''repair_required'' (JBool (up_rejected acc \<noteq> [])) response else response)))"

definition upload :: "ext \<Rightarrow> config \<Rightarrow> faults \<Rightarrow> upload_request \<Rightarrow> json tx" where
  "upload X cfg F u =
     bindM (upload_checks X cfg u) (\<lambda>_.
     bindM (upload_loop X cfg F u 0 (a_of (ur_body u) (upload_key u))
        \<lparr>up_accepted = [], up_rejected = [], up_receipts = [], up_final = None\<rparr>) (\<lambda>acc.
     bindM (lift (sort_receipts X u (up_receipts acc))) (\<lambda>receipts.
     upload_response X u acc receipts)))"


subsection \<open>Every record is answered once\<close>

text \<open>The identifier an accepted item or a rejection speaks about.\<close>

definition item_id :: "json \<Rightarrow> string" where
  "item_id item = (case item of JStr i \<Rightarrow> i | _ \<Rightarrow> s_of item ''record_id'')"

definition answered :: "string \<Rightarrow> upload_acc \<Rightarrow> string multiset" where
  "answered idk acc = mset (map item_id (up_accepted acc)) + mset (map (\<lambda>j. s_of j idk) (up_rejected acc))"

text \<open>Rules for the ends of a transaction.\<close>

lemma wps_run_tx:
  assumes "\<And>x st1. m st = (Inr x, st1) \<Longrightarrow> \<not> cf \<Longrightarrow> Q (Committed x) st1"
    and "\<And>st1. cf \<Longrightarrow> Q Commit_failed (rollback_to st st1)"
    and "\<And>code ctx st1. m st = (Inl (Err code ctx), st1) \<Longrightarrow> Q (Aborted (Err code ctx)) (rollback_to st st1)"
  shows "wps (run_tx cf m) Q st"
  using assms by (auto simp: wp_def run_tx_def split: prod.splits sum.splits failure.splits)

lemma wp_tx_endI:
  assumes "\<And>x. res = Committed x \<Longrightarrow> wp (f x) Q E st" and "res = Commit_failed \<Longrightarrow> wp a Q E st"
    and "\<And>e. res = Aborted e \<Longrightarrow> wp (g e) Q E st"
  shows "wp (case res of Committed x \<Rightarrow> f x | Commit_failed \<Rightarrow> a | Aborted e \<Rightarrow> g e) Q E st"
  using assms by (cases res) simp_all

lemma wps_lift: "(\<And>x. r = Inr x \<Longrightarrow> Q x st) \<Longrightarrow> wps (lift r) Q st"
  by (simp add: wp_lift split: sum.splits)

lemma item_id_record: "item_id (jobj ((''record_id'', v) # kvs)) = s_of (jobj ((''record_id'', v) # kvs)) ''record_id''"
  by (simp add: item_id_def jobj_def)

lemma s_of_eq: "jget v k = jget w k' \<Longrightarrow> s_of v k = s_of w k'"
  by (simp add: s_of_def)

lemma attempt_item:
  assumes "attempt X cfg u i c r st = (Inr (c', item, rc), st')"
  shows "item_id item = s_of r (id_key u)"
proof -
  have key: "id_key u = ''record_id''" if "\<not> envelope_route u" using that by (simp add: id_key_def)
  consider (env) "envelope_route u" "\<exists>st1. attempt_envelope X cfg u c r st1 = (Inr (c', item, rc), st')"
    | (rep) "\<not> envelope_route u" "\<exists>st1. attempt_repair X cfg u i c r st1 = (Inr (c', item, rc), st')"
    | (rcd) "\<not> envelope_route u" "\<exists>st1. attempt_record X cfg u c r st1 = (Inr (c', item, rc), st')"
    using assms by (auto simp: attempt_def bindM_run split: if_splits)
  then show ?thesis
  proof cases
    case env
    then show ?thesis by (auto simp: attempt_envelope_def bindM_run Let_def item_id_def)
  next
    case rep
    then show ?thesis
      by (auto simp: attempt_repair_def bindM_run key item_id_record intro!: s_of_eq) (simp_all add: jget_jobj)
  next
    case rcd
    then show ?thesis
      by (auto simp: attempt_record_def bindM_run Let_def key item_id_record item_id_def [of "JStr _"]
          intro!: s_of_eq split: if_splits) (simp_all add: jget_jobj)
  qed
qed

lemma id_key_cases: "id_key u = ''envelope_id'' \<or> id_key u = ''record_id''"
  by (simp add: id_key_def)

lemma rejections_ids: "rejections (id_key u) e rs = Inr js \<Longrightarrow> map (\<lambda>j. s_of j (id_key u)) js = map (\<lambda>r. s_of r (id_key u)) rs"
proof (induction rs arbitrary: js)
  case (Cons r rs)
  then obtain j js' where j: "rejection r (id_key u) (failure_code e) = Some j" "rejections (id_key u) e rs = Inr js'" "js = j # js'"
    by auto
  have "s_of j (id_key u) = s_of r (id_key u)"
    using j(1) id_key_cases [of u] by (auto simp: rejection_def jget_jobj intro!: s_of_eq split: option.splits)
  with Cons.IH j show ?case by simp
qed simp

abbreviation ids_of :: "upload_request \<Rightarrow> json list \<Rightarrow> string list" where
  "ids_of u rs \<equiv> map (\<lambda>r. s_of r (id_key u)) rs"

lemma wps_fail_rest:
  assumes "\<And>acc' st'. answered (id_key u) acc' = answered (id_key u) acc + mset (ids_of u rs) \<Longrightarrow> Q (acc', True) st'"
  shows "wps (fail_rest (id_key u) e rs acc) Q st"
  unfolding fail_rest_def
  by (intro wp_intros wps_lift assms)
    (use rejections_ids [of u e rs] in \<open>simp_all add: answered_def del: mset_map\<close>)

lemma wps_upload_rejected:
  assumes "\<And>acc' stop st'. answered (id_key u) acc' = answered (id_key u) acc + mset (ids_of u (if stop then r # rest else [r]))
    \<Longrightarrow> Q (acc', stop) st'"
  shows "wps (upload_rejected X cfg F u i r rest e acc) Q st"
proof -
  have one: "answered (id_key u) (acc\<lparr>up_rejected := up_rejected acc @ js\<rparr>) = answered (id_key u) acc + mset (ids_of u [r])"
    if "rejections (id_key u) e [r] = Inr js" for js
    using rejections_ids [OF that] by (simp add: answered_def del: mset_map)
  then have two: "answered (id_key u) (acc\<lparr>up_rejected := up_rejected acc @ js, up_final := f\<rparr>)
      = answered (id_key u) acc + mset (ids_of u [r])"
    if "rejections (id_key u) e [r] = Inr js" for js f
    using that by (simp add: answered_def)
  have aud: "wps (audit_reject X cfg F i ci r code) Q' st1" if "\<And>x st'. Q' x st'" for ci code Q' st1
    by (rule wps_run) (rule that)
  show ?thesis
    unfolding upload_rejected_def Let_def
    by (intro wp_intros wp_tx_endI aud wps_lift wps_fail_rest; (rule assms)?) (simp_all add: one two del: mset_map rejections.simps)
qed

lemma wps_upload_one:
  assumes "\<And>acc' stop st'. answered (id_key u) acc' = answered (id_key u) acc + mset (ids_of u (if stop then r # rest else [r]))
    \<Longrightarrow> Q (acc', stop) st'"
  shows "wps (upload_one X cfg F u i r rest acc) Q st"
proof -
  have same: "answered (id_key u) (if up_final acc = None then acc\<lparr>up_final := f\<rparr> else acc) = answered (id_key u) acc" for f
    by (simp add: answered_def)
  have ld: "wps (load ci) Q' st1" if "\<And>x. Q' x st1" for ci Q' st1
    unfolding load_def by (intro wp_intros wps_read_only read_only_select that)
  have ok: "answered (id_key u) (acc1\<lparr>up_accepted := up_accepted acc1 @ [item], up_receipts := rs, up_final := f\<rparr>)
      = answered (id_key u) acc1 + mset (ids_of u [r])"
    if "bindM (attempt X cfg u i c r) (\<lambda>(c, item, rc). bindM (save X cfg c) (\<lambda>_. ret (c, item, rc))) st1
      = (Inr (c', item, rc), st2)" for c c' item rc st1 st2 acc1 rs f
  proof -
    from that obtain c1 st3 where "attempt X cfg u i c r st1 = (Inr (c1, item, rc), st3)" by (auto simp: bindM_run)
    from attempt_item [OF this] show ?thesis by (simp add: answered_def)
  qed
  show ?thesis
    unfolding upload_one_def Let_def
    by (intro wp_intros ld wps_run_tx wp_tx_endI wps_fail_rest wps_upload_rejected; (rule assms)?)
      (simp_all add: same ok del: mset_map)
qed

lemma upload_loop_answers:
  assumes "upload_loop X cfg F u i rs acc st = (Inr acc', st')"
  shows "answered (id_key u) acc' = answered (id_key u) acc + mset (map (\<lambda>r. s_of r (id_key u)) rs)"
  using assms
proof (induction X cfg F u i rs acc arbitrary: st rule: upload_loop.induct)
  case (2 X cfg F u i r rs acc)
  from 2(2) obtain acc1 stop st1 where one: "upload_one X cfg F u i r rs acc st = (Inr (acc1, stop), st1)"
    and rest: "if stop then acc' = acc1 \<and> st' = st1 else upload_loop X cfg F u (i + 1) rs acc1 st1 = (Inr acc', st')"
    by (auto simp: bindM_run split: if_splits)
  have "wps (upload_one X cfg F u i r rs acc)
     (\<lambda>(acc', stop) _. answered (id_key u) acc' = answered (id_key u) acc + mset (ids_of u (if stop then r # rs else [r]))) st"
    by (rule wps_upload_one) (simp del: mset_map)
  from wp_run [OF this one] rest 2(1) [of stop acc1 st1] show ?case
    by (cases stop) auto
qed simp


lemma check_id_run: "check_id X idk r ids = Inr ids' \<longleftrightarrow> uuid X (s_of r idk) \<and> s_of r idk \<notin> set ids \<and> ids' = s_of r idk # ids"
  by (auto simp: check_id_def)

lemma check_ids_distinct:
  assumes "rfold (check_id X idk) rs ids = Inr ids'" and "distinct ids"
  shows "distinct (rev (map (\<lambda>r. s_of r idk) rs) @ ids)"
  using assms
proof (induction rs arbitrary: ids)
  case (Cons r rs)
  from Cons.prems have "rfold (check_id X idk) rs (s_of r idk # ids) = Inr ids'" "s_of r idk \<notin> set ids"
    by (auto simp: check_id_run)
  from Cons.IH [OF this(1)] this(2) Cons.prems(2) show ?case by auto
qed simp

lemma upload_response_members:
  assumes "upload_response X u acc receipts st = (Inr response, st')"
  shows "a_of response ''accepted'' = up_accepted acc" "a_of response ''rejected'' = up_rejected acc"
    "a_of response ''upload_receipts'' = receipts"
  using assms
  by (auto simp: upload_response_def bindM_run Let_def a_of_def as_array_def jget_jobj split: if_splits)

text \<open>
  C14: a request that is answered at all answers every record exactly once, as accepted or as
  rejected: the record identifiers are distinct, and those of the two lists together are those of the
  request, whatever fails on the way (a record, the audit entry of a rejection, or the storage at the start
  or the end of any of the transactions).
\<close>

theorem upload_answers_every_record:
  assumes "upload X cfg F u st = (Inr response, st')"
  shows "distinct (map (\<lambda>r. s_of r (id_key u)) (a_of (ur_body u) (upload_key u)))
    \<and> mset (map item_id (a_of response ''accepted'')) + mset (map (\<lambda>j. s_of j (id_key u)) (a_of response ''rejected''))
      = mset (map (\<lambda>r. s_of r (id_key u)) (a_of (ur_body u) (upload_key u)))"
proof -
  let ?rs = "a_of (ur_body u) (upload_key u)"
  let ?acc0 = "\<lparr>up_accepted = [], up_rejected = [], up_receipts = [], up_final = None\<rparr>"
  from assms obtain st1 acc st2 receipts st3 where
    checks: "upload_checks X cfg u st = (Inr (), st1)" and
    loop: "upload_loop X cfg F u 0 ?rs ?acc0 st1 = (Inr acc, st2)" and
    resp: "upload_response X u acc receipts st3 = (Inr response, st')"
    by (auto simp: upload_def bindM_run)
  from checks obtain ids where "rfold (check_id X (id_key u)) ?rs [] = Inr ids"
    by (auto simp: upload_checks_def bindM_run Let_def)
  from check_ids_distinct [OF this] have "distinct (map (\<lambda>r. s_of r (id_key u)) ?rs)" by simp
  moreover have "answered (id_key u) acc = mset (map (\<lambda>r. s_of r (id_key u)) ?rs)"
    using upload_loop_answers [OF loop] by (simp add: answered_def)
  ultimately show ?thesis using upload_response_members [OF resp] by (simp add: answered_def)
qed

text \<open>A chain with one active device, and an upload of a well-formed and a malformed envelope.\<close>

definition demo_open_chain :: chain where
  "demo_open_chain = demo_chain\<lparr>ch_parameters := jobj [(''generation'', JNat 0), (''admin_public_key'', JStr demo_b32),
       (''policy'', jobj [(''metadata_profile'', JStr ''private'')])],
     ch_epoch := jobj [(''epoch'', JNat 0)]\<rparr>"

definition demo_open_db :: db where
  "demo_open_db = empty_db\<lparr>db_chains := [demo_open_chain],
     db_objects := [\<lparr>o_chain = demo_b32, o_kind = ''device'', o_id = ''144'', o_hash = ''h'',
       o_body = Some (jobj [(''generation'', JNat 0), (''device_public_key'', JStr demo_b32),
         (''device_kex_public_key'', JStr demo_b32)]), o_log = None, o_seq = None\<rparr>,
       \<lparr>o_chain = demo_b32, o_kind = ''epoch'', o_id = ''0'', o_hash = ''h'',
       o_body = Some (jobj [(''chain_id'', JStr demo_b32), (''generation'', JNat 0), (''epoch'', JNat 0),
         (''epoch_commitment'', JStr demo_b32)]), o_log = None, o_seq = None\<rparr>],
     db_registry := [\<lparr>g_chain = demo_b32, g_device = ''144'', g_generation = 0, g_status = ''active'', g_enrolled = 1,
       g_revoked = None\<rparr>]\<rparr>"

definition demo_limits_cfg :: config where
  "demo_limits_cfg = demo_cfg\<lparr>cfg_privacy := jobj [(''limits'', jobj [(''max_records_per_upload'', JNat 100), (''max_devices'', JNat 9)])]\<rparr>"

definition demo_envelope :: "string \<Rightarrow> json" where
  "demo_envelope i = jobj [(''envelope_id'', JStr i), (''chain_id'', JStr demo_b32), (''generation'', JNat 0), (''epoch'', JNat 0),
     (''previous_epoch_hash'', JNull), (''epoch_commitment'', JStr demo_b32), (''recipient_kind'', JStr ''device''),
     (''recipient_device_id'', JStr ''144''), (''recipient_key_hash'', JStr demo_b32), (''signer_kind'', JStr ''admin''),
     (''signer_device_id'', JNull), (''enc'', JStr demo_b32), (''nonce'', JNull), (''ciphertext'', JStr ''C''),
     (''signature'', JStr demo_b64)]"

definition demo_upload :: upload_request where
  "demo_upload = \<lparr>ur_auth = \<lparr>a_token = JNull, a_device = None\<rparr>, ur_chain = demo_b32, ur_route = ''envelopes_post'',
     ur_param = ''0'', ur_body = jobj [(''envelopes'', JArr [demo_envelope ''e1'', jobj [(''envelope_id'', JStr ''e2'')]])]\<rparr>"

definition no_faults :: faults where
  "no_faults = \<lparr>fault_begin = \<lambda>_. False, fault_commit = \<lambda>_. False, fault_rollback = \<lambda>_. False,
     fault_audit_begin = \<lambda>_. False, fault_audit_commit = \<lambda>_. False\<rparr>"

lemma demo_upload_run:
  obtains response st' where "upload demo_fast demo_limits_cfg no_faults demo_upload demo_open_db = (Inr response, st')"
    "map item_id (a_of response ''accepted'') = [''e1'']"
proof -
  have "case upload demo_fast demo_limits_cfg no_faults demo_upload demo_open_db of
      (Inr response, st') \<Rightarrow> map item_id (a_of response ''accepted'') = [''e1''] | _ \<Rightarrow> False"
    by code_simp
  then show ?thesis using that by (auto split: prod.splits sum.splits)
qed

theorem upload_answers_every_record_witness:
  "\<exists>response st'. upload demo_fast demo_limits_cfg no_faults demo_upload demo_open_db = (Inr response, st')
     \<and> mset (map item_id (a_of response ''accepted''))
       + mset (map (\<lambda>j. s_of j (id_key demo_upload)) (a_of response ''rejected''))
       = mset (map (\<lambda>r. s_of r (id_key demo_upload)) (a_of (ur_body demo_upload) (upload_key demo_upload)))"
proof -
  obtain response st' where run: "upload demo_fast demo_limits_cfg no_faults demo_upload demo_open_db = (Inr response, st')"
    by (rule demo_upload_run)
  from upload_answers_every_record [OF run] run show ?thesis by blast
qed

end
