(* ===== verification/Relay_Read.thy ===== *)
theory Relay_Read
  imports Relay_Batch
begin

text \<open>
  \<^verbatim>\<open>src/api/read.rs\<close>: pages of the data log, of stored objects and of the transparency log, with the
  cursors that continue a listing on the cut of the chain it began with.
\<close>

definition RESPONSE_MAX :: nat where "RESPONSE_MAX = 8 * 1024 * 1024"
definition PAGE_BYTES :: nat where "PAGE_BYTES = RESPONSE_MAX - 32768"

definition pruned :: "chain \<Rightarrow> failure" where
  "pruned c =
     (let context = jobj [(''min_available_seq'', JNat (ch_min_available_seq c)), (''log_id'', JStr (ch_log_id c))] in
      Err ''LOG_PRUNED'' (Some (case ch_boundary_compaction_id c of
        None \<Rightarrow> context | Some i \<Rightarrow> jset ''compaction_id'' (JStr i) context)))"

subsection \<open>Queries\<close>

type_synonym query_list = "(string \<times> string) list"

definition query :: "query_list \<Rightarrow> string \<Rightarrow> string option" where
  "query q name = map_option snd (find (\<lambda>(k, _). k = name) q)"

definition decimal :: "string \<Rightarrow> nat \<Rightarrow> nat \<Rightarrow> nat res" where
  "decimal t lo hi =
     rbind (reject (t = [] \<or> \<not> list_all ascii_digit t) ''INVALID_FIELD'') (\<lambda>_.
     ok_or ''INVALID_FIELD'' (case parse_u64 t of
       None \<Rightarrow> None | Some n \<Rightarrow> if lo \<le> n \<and> n \<le> hi then Some n else None))"

text \<open>\<^verbatim>\<open>query(..).map(|s| decimal(..)).transpose()?\<close>\<close>

definition decimal_opt :: "string option \<Rightarrow> nat \<Rightarrow> nat \<Rightarrow> nat option res" where
  "decimal_opt t lo hi = (case t of None \<Rightarrow> Inr None | Some w \<Rightarrow> rbind (decimal w lo hi) (\<lambda>n. Inr (Some n)))"

definition allowed :: "query_list \<Rightarrow> string list \<Rightarrow> unit res" where
  "allowed q names = reject (list_ex (\<lambda>(k, _). k \<notin> set names) q) ''FILTER_NOT_ALLOWED''"

definition u32_max :: nat where "u32_max = 2 ^ 32 - 1"

subsection \<open>The state of a listing\<close>

text \<open>
  \<^verbatim>\<open>Chain\<close> as \<^verbatim>\<open>serde\<close> writes and reads it: a cursor stores the cut of its listing. (The reader
  also takes the members of a structure as an array; a stored state is always an object.)
\<close>

definition chain_json :: "chain \<Rightarrow> json" where
  "chain_json c = jobj [(''chain_id'', JStr (ch_id c)), (''parameters'', ch_parameters c), (''epoch'', ch_epoch c),
     (''log_id'', JStr (ch_log_id c)), (''head_seq'', JNat (ch_head_seq c)), (''head_hash'', JStr (ch_head_hash c)),
     (''min_available_seq'', JNat (ch_min_available_seq c)),
     (''boundary_compaction_id'', jopt JStr (ch_boundary_compaction_id c)),
     (''transparency_id'', JStr (ch_transparency_id c)), (''transparency_index'', JNat (ch_transparency_index c)),
     (''transparency_hash'', JStr (ch_transparency_hash c)), (''writable'', JBool (ch_writable c)),
     (''notice_id'', JStr (ch_notice_id c))]"

definition as_bool :: "json \<Rightarrow> bool option" where
  "as_bool v = (case v of JBool b \<Rightarrow> Some b | _ \<Rightarrow> None)"

definition as_opt_str :: "json option \<Rightarrow> string option option" where
  "as_opt_str v = (case v of None \<Rightarrow> Some None | Some JNull \<Rightarrow> Some None | Some (JStr t) \<Rightarrow> Some (Some t) | _ \<Rightarrow> None)"

definition chain_of_json :: "json \<Rightarrow> chain option" where
  "chain_of_json v =
     (case (as_str (jget v ''chain_id''), jfind v ''parameters'', jfind v ''epoch'', as_str (jget v ''log_id''),
        as_u64 (jget v ''head_seq''), as_str (jget v ''head_hash'')) of
        (Some ci, Some ps, Some ep, Some lg, Some hs, Some hh) \<Rightarrow>
          (case (as_u64 (jget v ''min_available_seq''), as_opt_str (jfind v ''boundary_compaction_id''),
             as_str (jget v ''transparency_id''), as_u64 (jget v ''transparency_index''),
             as_str (jget v ''transparency_hash''), as_bool (jget v ''writable''), as_str (jget v ''notice_id'')) of
             (Some ms, Some bc, Some ti, Some tx, Some th, Some wr, Some nt) \<Rightarrow>
               Some \<lparr>ch_id = ci, ch_parameters = ps, ch_epoch = ep, ch_log_id = lg, ch_head_seq = hs, ch_head_hash = hh,
                 ch_min_available_seq = ms, ch_boundary_compaction_id = bc, ch_transparency_id = ti,
                 ch_transparency_index = tx, ch_transparency_hash = th, ch_writable = wr, ch_notice_id = nt\<rparr>
           | _ \<Rightarrow> None)
      | _ \<Rightarrow> None)"

record Page =
  pg_cut :: chain
  pg_position :: nat
  pg_key :: string
  pg_limit :: nat
  pg_resource :: string
  pg_filters :: json
  pg_expires :: nat
  pg_extra :: json

definition binding :: "ext \<Rightarrow> config \<Rightarrow> string \<Rightarrow> json \<Rightarrow> string" where
  "binding X cfg resource filters = canonicalize_json X
     (jobj [(''origin'', JStr (cfg_origin cfg)), (''resource'', JStr resource), (''filters'', filters)])"

definition page_limit :: "config \<Rightarrow> query_list \<Rightarrow> nat res" where
  "page_limit cfg q =
     (let most = n_of (limits cfg) ''page_limit'' in
      rbind (decimal_opt (query q ''limit'') 1 most) (\<lambda>l.
      Inr (case l of Some n \<Rightarrow> n | None \<Rightarrow> min 200 most)))"

text \<open>The page a cursor continues.\<close>

definition page_resume ::
    "ext \<Rightarrow> config \<Rightarrow> chain \<Rightarrow> string \<Rightarrow> json \<Rightarrow> nat \<Rightarrow> string \<Rightarrow> Page tx" where
  "page_resume X cfg c resource filters limit token =
     bindM (rejectM (length token > 2048 \<or> decode X token None = None) ''CURSOR_INVALID'') (\<lambda>_.
     bindM (select_opt db_cursors (\<lambda>r. k_cursor r = token)) (\<lambda>row.
     bindM (lift (ok_or ''CURSOR_INVALID'' row)) (\<lambda>r.
     bindM (rejectM (k_chain r \<noteq> ch_id c \<or> k_binding r \<noteq> binding X cfg resource filters) ''CURSOR_INVALID'') (\<lambda>_.
     bindM (now X) (\<lambda>t.
     bindM (rejectM (t > k_expires r) ''CURSOR_EXPIRED'') (\<lambda>_.
     let state = k_state r in
     bindM (lift (unwrap (chain_of_json (jget state ''cut'')))) (\<lambda>cut.
     bindM (rejectM (ch_log_id cut \<noteq> ch_log_id c \<or> generation cut \<noteq> generation c) ''LOG_ID_MISMATCH'') (\<lambda>_.
     bindM (rejectM (ch_transparency_id cut \<noteq> ch_transparency_id c) ''TRANSPARENCY_ID_MISMATCH'') (\<lambda>_.
     ret \<lparr>pg_cut = cut, pg_position = n_of state ''position'', pg_key = s_of state ''key'', pg_limit = limit,
          pg_resource = resource, pg_filters = filters, pg_expires = k_expires r, pg_extra = jget state ''extra''\<rparr>)))))))))"

text \<open>\<^verbatim>\<open>SELECT COALESCE(MAX(id),0)\<close> over the history rows of a chain.\<close>

definition max_id :: "('r \<Rightarrow> bool) \<Rightarrow> (nat \<times> 'r) list \<Rightarrow> nat" where
  "max_id p rows = fold max (map fst (filter (\<lambda>r. p (snd r)) rows)) 0"

definition page :: "ext \<Rightarrow> config \<Rightarrow> chain \<Rightarrow> string \<Rightarrow> query_list \<Rightarrow> json \<Rightarrow> Page tx" where
  "page X cfg c resource q filters =
     bindM (lift (page_limit cfg q)) (\<lambda>limit.
     bindM (rejectM (query q ''cursor'' \<noteq> None \<and> query q ''after_seq'' \<noteq> None) ''CURSOR_INVALID'') (\<lambda>_.
     case query q ''cursor'' of
       Some token \<Rightarrow> page_resume X cfg c resource filters limit token
     | None \<Rightarrow>
         bindM (lift (decimal_opt (query q ''after_seq'') 0 MAX_INTEGER)) (\<lambda>position.
         bindM (gets (\<lambda>st. max_id (\<lambda>r. g_chain r = ch_id c) (db_registry_history st))) (\<lambda>registry_version.
         bindM (gets (\<lambda>st. max_id (\<lambda>r. f_chain r = ch_id c) (db_offer_history st))) (\<lambda>offer_version.
         bindM (now X) (\<lambda>t.
         ret \<lparr>pg_cut = c, pg_position = (case position of None \<Rightarrow> 0 | Some p \<Rightarrow> p), pg_key = [], pg_limit = limit,
              pg_resource = resource, pg_filters = filters, pg_expires = t + 86400000,
              pg_extra = jobj [(''registry_version'', JNat registry_version), (''offer_version'', JNat offer_version)]\<rparr>))))))"

definition new_uuid :: "ext \<Rightarrow> bytes tx" where
  "new_uuid X = (\<lambda>st. (Inr (x_fresh X (db_ids st)), st\<lparr>db_ids := db_ids st + 1\<rparr>))"

definition cursor :: "ext \<Rightarrow> config \<Rightarrow> Page \<Rightarrow> string tx" where
  "cursor X cfg p =
     bindM (new_uuid X) (\<lambda>u1.
     bindM (new_uuid X) (\<lambda>u2.
     let token = x_b64enc X (u1 @ u2);
         state = jobj [(''cut'', chain_json (pg_cut p)), (''position'', JNat (pg_position p)), (''key'', JStr (pg_key p)),
           (''extra'', pg_extra p)] in
     bindM (insert_row db_cursors db_cursors_update (same k_cursor)
        \<lparr>k_cursor = token, k_chain = ch_id (pg_cut p), k_binding = binding X cfg (pg_resource p) (pg_filters p),
         k_state = state, k_expires = pg_expires p\<rparr>) (\<lambda>_.
     bindM (quota X cfg (ch_id (pg_cut p))) (\<lambda>_.
     ret token))))"

definition next_cursor :: "ext \<Rightarrow> config \<Rightarrow> Page \<Rightarrow> bool \<Rightarrow> string option tx" where
  "next_cursor X cfg p has_more = (if has_more then bindM (cursor X cfg p) (\<lambda>token. ret (Some token)) else ret None)"

definition finish :: "ext \<Rightarrow> config \<Rightarrow> Page \<Rightarrow> json list \<Rightarrow> bool \<Rightarrow> bool \<Rightarrow> json tx" where
  "finish X cfg p items has_more logged =
     bindM (next_cursor X cfg p has_more) (\<lambda>token.
     let v = jobj [(''items'', JArr items), (''next_cursor'', jopt JStr token), (''has_more'', JBool has_more),
           (''log_id'', JStr (ch_log_id (pg_cut p))), (''generation'', JNat (generation (pg_cut p))),
           (''head_seq'', JNat (ch_head_seq (pg_cut p)))] in
     ret (if logged then jset ''scan_through_seq'' (JNat (pg_position p)) (jset ''head_hash'' (JStr (ch_head_hash (pg_cut p))) v)
          else v))"

text \<open>The bytes of the page after one more item, unless it no longer fits.\<close>

definition fits :: "ext \<Rightarrow> nat \<Rightarrow> json \<Rightarrow> nat option" where
  "fits X bytes v = (let size = text_len X v + 1 in if bytes + size > PAGE_BYTES then None else Some (bytes + size))"

subsection \<open>The data log\<close>

record log_filter =
  lf_route :: string
  lf_tag :: "string option"
  lf_epoch :: "nat option"

definition include_entry :: "log_filter \<Rightarrow> json \<Rightarrow> bool" where
  "include_entry f entry \<longleftrightarrow>
     lf_route f = ''log''
   \<or> (s_of entry ''kind'' = ''record''
      \<and> (lf_tag f = None
         \<or> (jget (jget entry ''object'') ''collection_tag'' = jopt JStr (lf_tag f)
            \<and> Some (n_of (jget entry ''object'') ''epoch'') = lf_epoch f)))"

definition recovery_entry :: "json \<Rightarrow> bool" where
  "recovery_entry entry \<longleftrightarrow>
     s_of entry ''kind'' = ''envelope'' \<and> jget (jget entry ''object'') ''recipient_kind'' = JStr ''recovery''"

text \<open>The loop over the rows with its variables \<^verbatim>\<open>items\<close>, \<^verbatim>\<open>bytes\<close> and \<^verbatim>\<open>p.position\<close>.\<close>

fun log_loop ::
    "ext \<Rightarrow> chain \<Rightarrow> auth \<Rightarrow> log_filter \<Rightarrow> nat \<Rightarrow> json list \<Rightarrow> nat \<Rightarrow> nat \<Rightarrow> log_row list \<Rightarrow> (json list \<times> nat) res" where
  "log_loop X c a f limit items bytes position [] = Inr (items, position)"
| "log_loop X c a f limit items bytes position (r # rs) =
     (case l_entry r of
        None \<Rightarrow> Inl (pruned c)
      | Some entry \<Rightarrow>
          if include_entry f entry then
            (if length items \<ge> limit then Inr (items, position)
             else case fits X bytes entry of
               None \<Rightarrow> Inr (items, position)
             | Some bytes' \<Rightarrow>
                 if \<not> admin a \<and> recovery_entry entry then Inl (err ''ENVELOPE_ACCESS_DENIED'')
                 else log_loop X c a f limit (items @ [entry]) bytes' (l_seq r) rs)
          else log_loop X c a f limit items bytes (l_seq r) rs)"

definition log_scan :: "chain \<Rightarrow> nat \<Rightarrow> nat \<Rightarrow> db \<Rightarrow> log_row list" where
  "log_scan c position head st = take 1000 (sort_key l_seq
     (filter (\<lambda>r. l_chain r = ch_id c \<and> l_log r = ch_log_id c \<and> position < l_seq r \<and> l_seq r \<le> head) (db_log st)))"

definition entry_len :: "ext \<Rightarrow> json option \<Rightarrow> nat" where
  "entry_len X e = (case e of None \<Rightarrow> 0 | Some v \<Rightarrow> text_len X v)"

definition log_checks :: "ext \<Rightarrow> chain \<Rightarrow> string \<Rightarrow> query_list \<Rightarrow> log_filter res" where
  "log_checks X c route q =
     rbind (allowed q (if route = ''records_get'' then [''after_seq'', ''cursor'', ''limit'', ''collection_tag'', ''epoch'']
        else [''after_seq'', ''cursor'', ''limit''])) (\<lambda>_.
     let tag = query q ''collection_tag''; epoch = query q ''epoch'' in
     rbind (reject ((tag = None) \<noteq> (epoch = None)
        \<or> (tag \<noteq> None \<and> jget (policy_of c) ''metadata_profile'' \<noteq> JStr ''queryable'')) ''FILTER_NOT_ALLOWED'') (\<lambda>_.
     rbind (case tag of None \<Rightarrow> Inr () | Some t \<Rightarrow> reject (decode X t (Some 16) = None) ''INVALID_FIELD'') (\<lambda>_.
     rbind (decimal_opt epoch 0 u32_max) (\<lambda>ep.
     Inr \<lparr>lf_route = route, lf_tag = tag, lf_epoch = ep\<rparr>))))"

definition log_page :: "ext \<Rightarrow> config \<Rightarrow> chain \<Rightarrow> auth \<Rightarrow> string \<Rightarrow> query_list \<Rightarrow> json tx" where
  "log_page X cfg c a route q =
     bindM (lift (log_checks X c route q)) (\<lambda>f.
     bindM (page X cfg c route q
        (jobj [(''collection_tag'', jopt JStr (lf_tag f)), (''epoch'', jopt JNat (lf_epoch f))])) (\<lambda>p.
     if pg_position p < ch_min_available_seq c - 1 then lift (Inl (pruned c))
     else
       bindM (gets (log_scan c (pg_position p) (ch_head_seq (pg_cut p)))) (\<lambda>scan.
       bindM (lift (bounded_rows (\<lambda>r. entry_len X (l_entry r)) scan)) (\<lambda>rows.
       bindM (lift (log_loop X c a f (pg_limit p) [] 0 (pg_position p) rows)) (\<lambda>(items, position).
       let p = p\<lparr>pg_position := position\<rparr> in
       finish X cfg p items (position < ch_head_seq (pg_cut p)) True)))))"

subsection \<open>Stored objects\<close>

text \<open>\<^verbatim>\<open>CAST(key AS INTEGER)\<close> of an epoch number or of the start key \<^verbatim>\<open>-1\<close>.\<close>

definition cast_key :: "string \<Rightarrow> int" where
  "cast_key t = (case t of [] \<Rightarrow> 0 | ch # ds \<Rightarrow>
     if ch = CHR ''-'' then - int (cast_integer ds) else int (cast_integer t))"

definition objects_kind :: "string \<Rightarrow> string option" where
  "objects_kind route =
     (if route = ''devices'' then Some ''device'' else if route = ''epochs_get'' then Some ''epoch''
      else if route = ''snapshots_get'' then Some ''compaction'' else if route = ''own_envelopes'' then Some ''envelope''
      else None)"

definition after_key :: "string \<Rightarrow> string \<Rightarrow> string \<Rightarrow> bool" where
  "after_key kind key oid \<longleftrightarrow> (if kind = ''epoch'' then cast_key oid > cast_key key else oid > key)"

definition listed :: "chain \<Rightarrow> nat \<Rightarrow> string \<Rightarrow> string \<Rightarrow> object_row \<Rightarrow> bool" where
  "listed c head kind key r \<longleftrightarrow>
     o_chain r = ch_id c \<and> o_kind r = kind \<and> after_key kind key (o_id r) \<and> o_body r \<noteq> None
   \<and> (o_log r = None \<or> o_log r \<noteq> Some (ch_log_id c) \<or> (case o_seq r of None \<Rightarrow> False | Some q \<Rightarrow> q \<le> head))"

definition in_order :: "string \<Rightarrow> object_row list \<Rightarrow> object_row list" where
  "in_order kind rows = (if kind = ''epoch'' then sort_key (\<lambda>r. cast_key (o_id r)) rows else sort_key o_id rows)"

definition objects_scan :: "chain \<Rightarrow> nat \<Rightarrow> string \<Rightarrow> string \<Rightarrow> db \<Rightarrow> object_row list" where
  "objects_scan c head kind key st = take 1001 (in_order kind (filter (listed c head kind key) (db_objects st)))"

text \<open>The join of an epoch with its log entry; \<open>None\<close> in a column is \<^verbatim>\<open>NULL\<close>.\<close>

definition epoch_wrapper :: "ext \<Rightarrow> chain \<Rightarrow> json \<Rightarrow> json tx" where
  "epoch_wrapper X c epoch =
     bindM (select_one db_objects (\<lambda>r. object_key r = (ch_id c, ''epoch'', show_nat (n_of epoch ''epoch'')))) (\<lambda>o'.
     bindM (select_opt db_log (\<lambda>l. l_chain l = o_chain o' \<and> Some (l_log l) = o_log o' \<and> Some (l_seq l) = o_seq o')) (\<lambda>l.
     bindM (lift (ok_or ''REPAIR_PROOF_REQUIRED'' (case l of None \<Rightarrow> None | Some r \<Rightarrow> l_entry r))) (\<lambda>entry.
     bindM (lift (unwrap (o_seq o'))) (\<lambda>seq.
     ret (jobj [(''epoch'', epoch), (''epoch_hash'', JStr (object_hash X epoch)),
       (''committed_at_ms'', JNat (n_of entry ''committed_at_ms'')), (''relay_seq'', JNat seq)])))))"

text \<open>The last row of the registry's history for a device, up to the version the listing began with.\<close>

definition registry_as_of :: "chain \<Rightarrow> string \<Rightarrow> nat \<Rightarrow> registry_row tx" where
  "registry_as_of c dev version =
     (\<lambda>st. case sort_key fst (filter (\<lambda>h. g_chain (snd h) = ch_id c \<and> g_device (snd h) = dev \<and> fst h \<le> version)
              (db_registry_history st)) of
        [] \<Rightarrow> (Inl sql_error, st)
      | h # hs \<Rightarrow> (Inr (snd (last (h # hs))), st))"

definition device_item :: "chain \<Rightarrow> Page \<Rightarrow> string \<Rightarrow> json \<Rightarrow> json tx" where
  "device_item c p oid body =
     bindM (registry_as_of c oid (n_of (pg_extra p) ''registry_version'')) (\<lambda>r.
     let revoked = (case g_revoked r of None \<Rightarrow> None | Some q \<Rightarrow> if q \<le> ch_head_seq (pg_cut p) then Some q else None) in
     ret (jobj [(''device_record'', body), (''status'', JStr (if revoked \<noteq> None then ''revoked'' else g_status r)),
       (''enrolled_seq'', JNat (g_enrolled r)), (''revoked_seq'', jopt JNat revoked)]))"

definition skip_envelope :: "string \<Rightarrow> string \<Rightarrow> nat option \<Rightarrow> json \<Rightarrow> bool" where
  "skip_envelope route param epoch body \<longleftrightarrow>
     route = ''own_envelopes''
   \<and> (jget body ''recipient_kind'' \<noteq> JStr ''device'' \<or> s_of body ''recipient_device_id'' \<noteq> param
      \<or> (case epoch of None \<Rightarrow> False | Some e \<Rightarrow> n_of body ''epoch'' \<noteq> e))"

definition object_item :: "ext \<Rightarrow> chain \<Rightarrow> Page \<Rightarrow> string \<Rightarrow> string \<Rightarrow> json \<Rightarrow> json tx" where
  "object_item X c p route oid body =
     (if route = ''devices'' then device_item c p oid body
      else if route = ''epochs_get'' then epoch_wrapper X c body
      else ret body)"

text \<open>The loop over the rows; its result is the page with its new key, the items and \<^verbatim>\<open>more\<close>.\<close>

fun objects_loop ::
    "ext \<Rightarrow> chain \<Rightarrow> string \<Rightarrow> string \<Rightarrow> nat option \<Rightarrow> Page \<Rightarrow> json list \<Rightarrow> nat \<Rightarrow> object_row list \<Rightarrow>
     (Page \<times> json list \<times> bool) tx" where
  "objects_loop X c route param epoch p items bytes [] = ret (p, items, False)"
| "objects_loop X c route param epoch p items bytes (r # rs) =
     bindM (lift (unwrap (o_body r))) (\<lambda>body.
     if skip_envelope route param epoch body
     then objects_loop X c route param epoch (p\<lparr>pg_key := o_id r\<rparr>) items bytes rs
     else
       bindM (object_item X c p route (o_id r) body) (\<lambda>item.
       case (if length items \<ge> pg_limit p then None else fits X bytes item) of
         None \<Rightarrow> if items = [] then lift (Inl (err ''PAYLOAD_TOO_LARGE'')) else ret (p, items, True)
       | Some bytes' \<Rightarrow> objects_loop X c route param epoch (p\<lparr>pg_key := o_id r\<rparr>) (items @ [item]) bytes' rs))"

definition objects_page :: "ext \<Rightarrow> config \<Rightarrow> chain \<Rightarrow> auth \<Rightarrow> string \<Rightarrow> string \<Rightarrow> query_list \<Rightarrow> json tx" where
  "objects_page X cfg c a route param q =
     bindM (lift (allowed q (if route = ''own_envelopes'' then [''epoch'', ''cursor'', ''limit''] else [''cursor'', ''limit'']))) (\<lambda>_.
     bindM (rejectM (route = ''own_envelopes'' \<and> \<not> owns a param) ''ENVELOPE_ACCESS_DENIED'') (\<lambda>_.
     bindM (lift (decimal_opt (query q ''epoch'') 0 u32_max)) (\<lambda>epoch.
     bindM (case epoch of None \<Rightarrow> ret False | Some e \<Rightarrow> expired c e) (\<lambda>gone.
     bindM (rejectM gone ''HISTORY_KEY_EXPIRED'') (\<lambda>_.
     bindM (page X cfg c route q (jobj [(''device_id'', JStr param), (''epoch'', jopt JNat epoch),
        (''requester'', if route = ''requests_get'' then jopt JStr (a_device a) else JNull)])) (\<lambda>p.
     let p = (if route = ''epochs_get'' \<and> pg_key p = [] then p\<lparr>pg_key := ''-1''\<rparr> else p) in
     bindM (lift (unwrap (objects_kind route))) (\<lambda>kind.
     bindM (gets (objects_scan c (ch_head_seq (pg_cut p)) kind (pg_key p))) (\<lambda>scan.
     bindM (lift (bounded_rows (\<lambda>r. entry_len X (o_body r)) scan)) (\<lambda>rows.
     bindM (objects_loop X c route param epoch p [] 0 rows) (\<lambda>(p, items, left).
     bindM (if left then ret True
            else bindM (count_rows db_objects (listed c (ch_head_seq (pg_cut p)) kind (pg_key p))) (\<lambda>k. ret (k > 0))) (\<lambda>has_more.
     finish X cfg p items has_more False)))))))))))"

subsection \<open>The transparency log\<close>

fun audit_loop :: "ext \<Rightarrow> json list \<Rightarrow> nat \<Rightarrow> nat \<Rightarrow> json list \<Rightarrow> json list \<times> nat" where
  "audit_loop X items bytes position [] = (items, position)"
| "audit_loop X items bytes position (entry # es) =
     (case fits X bytes entry of
        None \<Rightarrow> (items, position)
      | Some bytes' \<Rightarrow> audit_loop X (items @ [entry]) bytes' (n_of entry ''entry_index'') es)"

definition audit_scan :: "chain \<Rightarrow> string \<Rightarrow> nat \<Rightarrow> nat \<Rightarrow> nat \<Rightarrow> db \<Rightarrow> json list" where
  "audit_scan c tid position last_index limit st = map t_entry (take limit (sort_key t_idx
     (filter (\<lambda>r. t_chain r = ch_id c \<and> t_id r = tid \<and> position < t_idx r \<and> t_idx r \<le> last_index) (db_transparency st))))"

definition audit_start :: "chain \<Rightarrow> string \<Rightarrow> nat \<Rightarrow> nat option \<Rightarrow> Page \<Rightarrow> Page tx" where
  "audit_start c tid after through p =
     (let through = (case through of None \<Rightarrow> ch_transparency_index c | Some t \<Rightarrow> t) in
      bindM (rejectM (after > through \<or> through > ch_transparency_index c) ''TRANSPARENCY_RANGE_UNAVAILABLE'') (\<lambda>_.
      bindM (select_opt db_heads (\<lambda>r. head_key r = (ch_id c, tid, through))) (\<lambda>head.
      bindM (lift (ok_or ''TRANSPARENCY_RANGE_UNAVAILABLE'' (map_option hd_head head))) (\<lambda>extra.
      ret (p\<lparr>pg_extra := extra, pg_position := after\<rparr>)))))"

definition anchor_hash :: "ext \<Rightarrow> config \<Rightarrow> chain \<Rightarrow> string \<Rightarrow> nat \<Rightarrow> string tx" where
  "anchor_hash X cfg c tid anchor =
     (if anchor = 0 then lift (initial_hash X CTX_TLOG (ch_id c) tid (Some (cfg_key_id cfg)))
      else bindM (select_opt db_transparency (\<lambda>r. transparency_key r = (ch_id c, tid, anchor))) (\<lambda>row.
           lift (ok_or ''TRANSPARENCY_RANGE_UNAVAILABLE'' (map_option t_hash row))))"

text \<open>The page from its position on, once the listing is set up.\<close>

definition audit_answer :: "ext \<Rightarrow> config \<Rightarrow> chain \<Rightarrow> string \<Rightarrow> Page \<Rightarrow> json tx" where
  "audit_answer X cfg c tid p =
     (let anchor = pg_position p; last_index = n_of (pg_extra p) ''entry_index'' in
      bindM (anchor_hash X cfg c tid anchor) (\<lambda>hash.
      bindM (gets (audit_scan c tid (pg_position p) last_index (pg_limit p))) (\<lambda>rows.
      let (items, position) = audit_loop X [] 0 (pg_position p) rows; p = p\<lparr>pg_position := position\<rparr> in
      bindM (rejectM (items = [] \<and> position < last_index) ''TRANSPARENCY_RANGE_UNAVAILABLE'') (\<lambda>_.
      bindM (next_cursor X cfg p (position < last_index)) (\<lambda>token.
      ret (jobj [(''items'', JArr items), (''head'', pg_extra p), (''anchor_index'', JNat anchor), (''anchor_hash'', JStr hash),
        (''next_cursor'', jopt JStr token), (''has_more'', JBool (position < last_index))]))))))"

definition transparency_page :: "ext \<Rightarrow> config \<Rightarrow> chain \<Rightarrow> query_list \<Rightarrow> json tx" where
  "transparency_page X cfg c q =
     bindM (lift (allowed q [''transparency_id'', ''after_index'', ''through_index'', ''cursor'', ''limit''])) (\<lambda>_.
     bindM (lift (ok_or ''INVALID_FIELD'' (query q ''transparency_id''))) (\<lambda>tid.
     bindM (rejectM (\<not> uuid X tid) ''INVALID_FIELD'') (\<lambda>_.
     bindM (rejectM (tid \<noteq> ch_transparency_id c) ''TRANSPARENCY_ID_MISMATCH'') (\<lambda>_.
     bindM (lift (decimal_opt (query q ''after_index'') 0 MAX_INTEGER)) (\<lambda>after.
     let after = (case after of None \<Rightarrow> 0 | Some n \<Rightarrow> n) in
     bindM (lift (decimal_opt (query q ''through_index'') 0 MAX_INTEGER)) (\<lambda>through.
     bindM (page X cfg c ''transparency'' q (jobj [(''transparency_id'', JStr tid), (''after_index'', JNat after),
        (''through_index'', jopt JNat through)])) (\<lambda>p.
     bindM (if query q ''cursor'' = None then audit_start c tid after through p else ret p) (\<lambda>p.
     audit_answer X cfg c tid p))))))))"

subsection \<open>A page of the log\<close>

definition log_range :: "chain \<Rightarrow> nat \<Rightarrow> nat \<Rightarrow> db \<Rightarrow> log_row list" where
  "log_range c lo hi st = sort_key l_seq (filter (\<lambda>r. lo < l_seq r \<and> l_seq r \<le> hi) (log_rows c st))"

lemma fits_Some: "fits X bytes v = Some b \<longleftrightarrow> b = bytes + text_len X v + 1 \<and> b \<le> PAGE_BYTES"
  by (auto simp: fits_def Let_def)

text \<open>What one run of the loop adds to the items: the included entries of the rows it passed.\<close>

lemma log_loop_run:
  assumes "log_loop X c a f limit items bytes position rows = Inr (items', position')" and "length items \<le> limit"
  shows "\<exists>n \<le> length rows. list_all (\<lambda>r. l_entry r \<noteq> None) (take n rows)
     \<and> items' = items @ filter (include_entry f) (map (the \<circ> l_entry) (take n rows))
     \<and> position' = last (position # map l_seq (take n rows)) \<and> length items' \<le> limit
     \<and> (\<not> admin a \<longrightarrow> list_all (\<lambda>e. \<not> recovery_entry e) (drop (length items) items'))"
  using assms
proof (induction rows arbitrary: items bytes position)
  case Nil
  then show ?case by simp
next
  case (Cons r rows)
  have stop: ?case if "items' = items" "position' = position"
    using that Cons.prems(2) by (intro exI [of _ 0]) simp
  have go: ?case
    if step: "log_loop X c a f limit (items @ new) b (l_seq r) rows = Inr (items', position')" "length (items @ new) \<le> limit"
      and new: "l_entry r = Some e" "new = filter (include_entry f) [e]" "\<not> admin a \<Longrightarrow> list_all (\<lambda>e. \<not> recovery_entry e) new"
    for new b e
  proof -
    from Cons.IH [OF step] obtain n where n: "n \<le> length rows" "list_all (\<lambda>r. l_entry r \<noteq> None) (take n rows)"
      "items' = (items @ new) @ filter (include_entry f) (map (the \<circ> l_entry) (take n rows))"
      "position' = last (l_seq r # map l_seq (take n rows))" "length items' \<le> limit"
      "\<not> admin a \<longrightarrow> list_all (\<lambda>e. \<not> recovery_entry e) (drop (length (items @ new)) items')" by blast
    then have "list_all (\<lambda>e. \<not> recovery_entry e) (drop (length items) items')" if "\<not> admin a"
      using that new(3) by simp
    with n new(1,2) show ?thesis by (intro exI [of _ "Suc n"]) (auto simp: comp_def)
  qed
  from Cons.prems(1) obtain e where e: "l_entry r = Some e" by (auto split: option.splits)
  show ?case
  proof (cases "include_entry f e")
    case False
    with Cons.prems e show ?thesis by (intro go [of "[]"]) auto
  next
    case True
    show ?thesis
    proof (cases "length items \<ge> limit \<or> fits X bytes e = None")
      case True
      with Cons.prems e \<open>include_entry f e\<close> show ?thesis by (intro stop) (auto split: if_splits)
    next
      case False
      then obtain b where "fits X bytes e = Some b" by auto
      with False Cons.prems(1) e True show ?thesis by (intro go [of "[e]" b e]) (auto split: if_splits)
    qed
  qed
qed

lemma sorted_strict_take:
  fixes key :: "'b \<Rightarrow> 'c :: linorder"
  assumes "sorted_wrt (<) (map key xs)" and "n \<le> length xs" and "0 < n"
  shows "take n xs = filter (\<lambda>x. key x \<le> key (xs ! (n - 1))) xs"
  using assms
proof (induction xs arbitrary: n)
  case (Cons x xs)
  show ?case
  proof (cases "n = 1")
    case True
    with Cons.prems(1) have "filter (\<lambda>y. key y \<le> key x) xs = []" by (auto simp: filter_empty_conv not_le)
    with True show ?thesis by simp
  next
    case False
    with Cons.prems have n: "0 < n - 1" "n - 1 \<le> length xs" "sorted_wrt (<) (map key xs)" by auto
    have "xs ! (n - 2) \<in> set xs" using n False Cons.prems by auto
    with Cons.prems(1) have "key x < key (xs ! (n - 2))" by simp
    with Cons.IH [OF n(3,2,1)] n show ?thesis by (cases n) (auto simp: numeral_2_eq_2 nth_Cons' less_imp_le)
  qed
qed simp

lemma sort_key_strict: "distinct (map key xs) \<Longrightarrow> sorted_wrt (<) (map key (sort_key key xs))"
  for key :: "'b \<Rightarrow> 'c :: linorder"
  by (simp add: strict_sorted_iff distinct_map)

lemma log_rows_distinct: "keyed log_key (db_log st) \<Longrightarrow> distinct (map l_seq (log_rows c st))"
  unfolding keyed_def log_rows_def distinct_map
  by (auto simp: inj_on_def log_key_def distinct_filter)

text \<open>The rows a scan reads up to its last row are all the rows of that range.\<close>

lemma log_scan_prefix:
  assumes "keyed log_key (db_log st)" and "n \<le> length (log_scan c lo head st)"
  defines "hi \<equiv> last (lo # map l_seq (take n (log_scan c lo head st)))"
  shows "take n (log_scan c lo head st) = log_range c lo hi st" and "lo \<le> hi" and "hi \<le> max lo head"
proof -
  let ?rows = "log_range c lo head st"
  have scan: "log_scan c lo head st = take 1000 ?rows"
    by (simp add: log_scan_def log_range_def log_rows_def conj_ac)
  then have n: "n \<le> length ?rows" "take n (log_scan c lo head st) = take n ?rows" using assms(2) by auto
  have "distinct (map l_seq (filter (\<lambda>r. lo < l_seq r \<and> l_seq r \<le> head) (log_rows c st)))"
    using log_rows_distinct [OF assms(1), of c] by (simp add: distinct_map_filter)
  then have strict: "sorted_wrt (<) (map l_seq ?rows)" unfolding log_range_def by (rule sort_key_strict)
  have mem: "r \<in> set ?rows \<Longrightarrow> lo < l_seq r \<and> l_seq r \<le> head" for r by (auto simp: log_range_def)
  show "take n (log_scan c lo head st) = log_range c lo hi st"
  proof (cases "n = 0")
    case True
    then have "hi = lo" by (simp add: hi_def)
    then show ?thesis using True by (simp add: log_range_def)
  next
    case False
    then have hi: "hi = l_seq (?rows ! (n - 1))" using n by (cases ?rows) (auto simp: hi_def last_conv_nth)
    with False n mem [of "?rows ! (n - 1)"] have le: "hi \<le> head" by auto
    have "take n ?rows = filter (\<lambda>r. l_seq r \<le> hi) ?rows"
      unfolding hi using sorted_strict_take [OF strict n(1)] False by simp
    also have "\<dots> = log_range c lo hi st" using le by (simp add: log_range_def filter_sort conj_ac) (meson order_trans)
    finally show ?thesis using n(2) by simp
  qed
  have "hi \<in> set (lo # map l_seq (take n ?rows))" unfolding hi_def n(2) by (rule last_in_set) simp
  then have "hi = lo \<or> (\<exists>r \<in> set ?rows. hi = l_seq r)" by (auto dest: in_set_takeD)
  then show "lo \<le> hi" "hi \<le> max lo head" using mem by fastforce+
qed

lemma bounded_rows_prefix: "bounded_rows len rs = Inr out \<Longrightarrow> \<exists>rest. rs = out @ rest"
  using bounded_loop_Inr [of len 0 "[]" rs out] by (auto simp: bounded_rows_def)

text \<open>What the last step of a listing answers.\<close>

lemma finish_fields:
  assumes "finish X cfg p items has_more logged st = (Inr v, st')"
  shows "jget v ''items'' = JArr items" and "jget v ''has_more'' = JBool has_more"
    and "jget v ''head_seq'' = JNat (ch_head_seq (pg_cut p))"
    and "logged \<Longrightarrow> jget v ''scan_through_seq'' = JNat (pg_position p)"
    and "\<exists>token. jget v ''next_cursor'' = jopt JStr token \<and> next_cursor X cfg p has_more st = (Inr token, st')"
  using assms by (auto simp: finish_def bindM_run Let_def jget_jobj)

text \<open>
  C19: an answered page of the log that began at a position lists exactly the included entries
  from there up to the number it reports as scanned, in order and within the limit of the page. There
  is more exactly when that number lies below the head the listing began with, and only the
  administrator is shown the recovery envelopes.
\<close>

theorem log_page_lists_range:
  assumes "keyed log_key (db_log st1)"
    and "log_page X cfg c a route q st = (Inr v, st')" and "log_checks X c route q = Inr f"
    and "page X cfg c route q (jobj [(''collection_tag'', jopt JStr (lf_tag f)), (''epoch'', jopt JNat (lf_epoch f))]) st = (Inr p, st1)"
  shows "\<exists>through items. jget v ''scan_through_seq'' = JNat through \<and> jget v ''items'' = JArr items
     \<and> pg_position p \<le> through \<and> through \<le> max (pg_position p) (ch_head_seq (pg_cut p))
     \<and> list_all (\<lambda>r. l_entry r \<noteq> None) (log_range c (pg_position p) through st1)
     \<and> items = filter (include_entry f) (map (the \<circ> l_entry) (log_range c (pg_position p) through st1))
     \<and> length items \<le> pg_limit p
     \<and> jget v ''has_more'' = JBool (through < ch_head_seq (pg_cut p))
     \<and> (\<not> admin a \<longrightarrow> list_all (\<lambda>e. \<not> recovery_entry e) items)"
proof -
  let ?scan = "log_scan c (pg_position p) (ch_head_seq (pg_cut p)) st1"
  from assms(2-4) obtain rows items through where
    rows: "bounded_rows (\<lambda>r. entry_len X (l_entry r)) ?scan = Inr rows" and
    loop: "log_loop X c a f (pg_limit p) [] 0 (pg_position p) rows = Inr (items, through)" and
    fin: "finish X cfg (p\<lparr>pg_position := through\<rparr>) items (through < ch_head_seq (pg_cut p)) True st1 = (Inr v, st')"
    by (auto simp: log_page_def bindM_run Let_def split: if_splits)
  from bounded_rows_prefix [OF rows] obtain rest where scan: "?scan = rows @ rest" by blast
  from log_loop_run [OF loop] obtain n where n: "n \<le> length rows" "list_all (\<lambda>r. l_entry r \<noteq> None) (take n rows)"
    "items = filter (include_entry f) (map (the \<circ> l_entry) (take n rows))"
    "through = last (pg_position p # map l_seq (take n rows))" "length items \<le> pg_limit p"
    "\<not> admin a \<longrightarrow> list_all (\<lambda>e. \<not> recovery_entry e) items"
    unfolding append_Nil drop_0 list.size by blast
  have take: "take n rows = take n ?scan" "n \<le> length ?scan" using n(1) scan by simp_all
  note pre = log_scan_prefix [OF assms(1) take(2)] 
  have "take n rows = log_range c (pg_position p) through st1" using pre(1) n(4) take(1) by simp
  with n pre(2,3) take(1) finish_fields [OF fin] show ?thesis by auto
qed

text \<open>A log of two records read one at a time.\<close>

definition demo_read_chain :: chain where
  "demo_read_chain = demo_open_chain\<lparr>ch_head_seq := 2\<rparr>"

definition demo_log_row :: "nat \<Rightarrow> log_row" where
  "demo_log_row i = \<lparr>l_chain = demo_b32, l_log = ch_log_id demo_chain, l_seq = i,
     l_entry = Some (jobj [(''kind'', JStr ''record''), (''relay_seq'', JNat i)]), l_hash = ''h''\<rparr>"

definition demo_read_db :: db where
  "demo_read_db = empty_db\<lparr>db_chains := [demo_read_chain], db_log := [demo_log_row 1, demo_log_row 2]\<rparr>"

definition demo_read_cfg :: config where
  "demo_read_cfg = demo_cfg\<lparr>cfg_privacy := jobj [(''limits'', jobj [(''page_limit'', JNat 1)])]\<rparr>"

definition demo_reader :: auth where
  "demo_reader = \<lparr>a_token = JNull, a_device = Some ''144''\<rparr>"

theorem log_page_lists_range_witness:
  "\<exists>v st'. log_page demo_fast demo_read_cfg demo_read_chain demo_reader ''records_get'' [] demo_read_db = (Inr v, st')
     \<and> jget v ''items'' = JArr [jobj [(''kind'', JStr ''record''), (''relay_seq'', JNat 1)]]
     \<and> jget v ''has_more'' = JBool True"
proof -
  let ?f = "\<lparr>lf_route = ''records_get'', lf_tag = None, lf_epoch = None\<rparr>"
  have "case log_page demo_fast demo_read_cfg demo_read_chain demo_reader ''records_get'' [] demo_read_db of
      (Inr v, st') \<Rightarrow> jget v ''scan_through_seq'' = JNat 1 | _ \<Rightarrow> False" by code_simp
  then obtain v st' where run: "log_page demo_fast demo_read_cfg demo_read_chain demo_reader ''records_get'' [] demo_read_db = (Inr v, st')"
    and one: "jget v ''scan_through_seq'' = JNat 1" by (auto split: prod.splits sum.splits)
  have checks: "log_checks demo_fast demo_read_chain ''records_get'' [] = Inr ?f" by code_simp
  have "case page demo_fast demo_read_cfg demo_read_chain ''records_get'' []
        (jobj [(''collection_tag'', jopt JStr (lf_tag ?f)), (''epoch'', jopt JNat (lf_epoch ?f))]) demo_read_db of
      (Inr p, st1) \<Rightarrow> pg_position p = 0 \<and> ch_head_seq (pg_cut p) = 2 \<and> db_log st1 = db_log demo_read_db | _ \<Rightarrow> False" by code_simp
  then obtain p st1 where p: "page demo_fast demo_read_cfg demo_read_chain ''records_get'' []
        (jobj [(''collection_tag'', jopt JStr (lf_tag ?f)), (''epoch'', jopt JNat (lf_epoch ?f))]) demo_read_db = (Inr p, st1)"
    "pg_position p = 0" "ch_head_seq (pg_cut p) = 2" "db_log st1 = db_log demo_read_db" by (auto split: prod.splits sum.splits)
  have "keyed log_key (db_log st1)" unfolding p(4) by code_simp
  from log_page_lists_range [OF this run checks p(1)] one p(2-4)
  have "jget v ''items'' = JArr (filter (include_entry ?f) (map (the \<circ> l_entry) (log_range demo_read_chain 0 1 demo_read_db)))"
    "jget v ''has_more'' = JBool True" by (auto simp: log_range_def log_rows_def)
  moreover have "filter (include_entry ?f) (map (the \<circ> l_entry) (log_range demo_read_chain 0 1 demo_read_db))
      = [jobj [(''kind'', JStr ''record''), (''relay_seq'', JNat 1)]]" by code_simp
  ultimately show ?thesis using run by auto
qed

subsection \<open>Cursors\<close>

definition chain_u64 :: "chain \<Rightarrow> bool" where
  "chain_u64 c \<longleftrightarrow> ch_head_seq c < 2 ^ 64 \<and> ch_min_available_seq c < 2 ^ 64 \<and> ch_transparency_index c < 2 ^ 64"

lemma as_value_simps [simp]:
  "as_str (JStr t) = Some t" "as_u64 (JNat n) = (if n < 2 ^ 64 then Some n else None)"
  by (auto simp: as_str_def as_u64_def)

lemma as_opt_str_jopt [simp]: "as_opt_str (Some (jopt JStr opt)) = Some opt"
  by (cases opt) (simp_all add: as_opt_str_def jopt_def)

lemma quota_state: "quota X cfg ci st = (r, st') \<Longrightarrow> st' = st"
  by (auto simp: quota_def bindM_def split: if_splits)

text \<open>Reading a stored chain back gives the chain.\<close>

lemma chain_json_roundtrip: "chain_u64 c \<Longrightarrow> chain_of_json (chain_json c) = Some c"
  by (cases c) (simp add: chain_of_json_def chain_json_def jget_jobj jfind_jobj as_bool_def chain_u64_def)

text \<open>
  C22: a cursor continues the listing it was made for: as long as it is stored and has not expired,
  and the chain has kept its log, generation and transparency log, it gives back the cut, the position
  and the versions of the page it was made from.
\<close>

theorem cursor_resumes:
  assumes "ext_ok X" and "cursor X cfg p st = (Inr token, st1)"
    and "row_at k_cursor token (db_cursors st2) = row_at k_cursor token (db_cursors st1)"
    and "length token \<le> 2048" and "chain_u64 (pg_cut p)" and "pg_position p < 2 ^ 64"
    and "ch_id c = ch_id (pg_cut p)" and "ch_log_id c = ch_log_id (pg_cut p)" and "generation c = generation (pg_cut p)"
    and "ch_transparency_id c = ch_transparency_id (pg_cut p)" and "x_clock X (db_tick st2) \<le> pg_expires p"
  shows "page_resume X cfg c (pg_resource p) (pg_filters p) limit token st2
     = (Inr (p\<lparr>pg_limit := limit\<rparr>), st2\<lparr>db_tick := db_tick st2 + 1\<rparr>)"
proof -
  let ?state = "jobj [(''cut'', chain_json (pg_cut p)), (''position'', JNat (pg_position p)), (''key'', JStr (pg_key p)),
           (''extra'', pg_extra p)]"
  let ?row = "\<lparr>k_cursor = token, k_chain = ch_id (pg_cut p), k_binding = binding X cfg (pg_resource p) (pg_filters p),
         k_state = ?state, k_expires = pg_expires p\<rparr>"
  from assms(2) obtain st0 where ins: "insert_row db_cursors db_cursors_update (same k_cursor) ?row st0 = (Inr (), st1)"
    and token: "\<exists>b. token = x_b64enc X b"
    by (auto simp: cursor_def bindM_run Let_def new_uuid_def dest!: quota_state)
  from cursors.insert_lookup [OF ins, of token] assms(3)
  have row: "find (\<lambda>r. k_cursor r = token) (db_cursors st2) = Some ?row" by (simp add: row_at_def)
  have dec: "decode X token None \<noteq> None" using token assms(1) by auto
  have state: "chain_of_json (jget ?state ''cut'') = Some (pg_cut p)" "n_of ?state ''position'' = pg_position p"
    "s_of ?state ''key'' = pg_key p" "jget ?state ''extra'' = pg_extra p"
    using assms(5,6) chain_json_roundtrip by (simp_all add: jget_jobj n_of_def s_of_def)
  show ?thesis
    using assms(4,7-11) row dec state
    by (cases p) (simp add: page_resume_def bindM_def rejectM_def reject_def Let_def)
qed

definition demo_page :: Page where
  "demo_page = \<lparr>pg_cut = demo_chain, pg_position = 7, pg_key = ''k'', pg_limit = 1, pg_resource = ''log'', pg_filters = JNull,
     pg_expires = 86400000, pg_extra = JNull\<rparr>"

theorem cursor_resumes_witness:
  "\<exists>token st1. cursor demo_ext demo_cfg demo_page empty_db = (Inr token, st1)
     \<and> page_resume demo_ext demo_cfg demo_chain ''log'' JNull 5 token st1
       = (Inr (demo_page\<lparr>pg_limit := 5\<rparr>), st1\<lparr>db_tick := db_tick st1 + 1\<rparr>)"
proof -
  let ?token = "oct_enc (be64 0 @ be64 0 @ be64 0 @ be64 1)"
  obtain st1 where run: "cursor demo_ext demo_cfg demo_page empty_db = (Inr ?token, st1)" and tick: "db_tick st1 = 0"
    by (auto simp: cursor_def bindM_def Let_def new_uuid_def insert_row_def quota_def empty_db_def demo_ext_def demo_cfg_def
        demo_fresh_def)
  have "length ?token \<le> 2048" by code_simp
  moreover have "chain_u64 demo_chain" by (simp add: chain_u64_def demo_chain_def)
  ultimately show ?thesis
    using cursor_resumes [OF demo_ext_ok run refl, of demo_chain 5] run tick
    by (auto simp: demo_page_def demo_ext_def demo_clock_def)
qed

subsection \<open>Own envelopes\<close>

lemma objects_loop_own:
  assumes "objects_loop X c ''own_envelopes'' param epoch p items bytes rows st = (Inr (p', items', left), st')"
    and "list_all (\<lambda>e. \<not> skip_envelope ''own_envelopes'' param epoch e) items"
  shows "list_all (\<lambda>e. \<not> skip_envelope ''own_envelopes'' param epoch e) items'"
  using assms
proof (induction rows arbitrary: p items bytes st)
  case (Cons r rows)
  from Cons.prems(1) obtain body where body: "o_body r = Some body" by (auto simp: bindM_run)
  show ?case
  proof (cases "skip_envelope ''own_envelopes'' param epoch body")
    case True
    with Cons body show ?thesis by (auto simp: bindM_run)
  next
    case False
    with Cons.prems body consider "items' = items"
      | b where "objects_loop X c ''own_envelopes'' param epoch (p\<lparr>pg_key := o_id r\<rparr>) (items @ [body]) b rows st = (Inr (p', items', left), st')"
      by (auto simp: bindM_run object_item_def split: if_splits option.splits)
    then show ?thesis using Cons.prems(2) Cons.IH False by cases auto
  qed
qed simp

text \<open>
  C24: a listing of the envelopes of a device answers only the administrator or that device, and every
  item is an envelope addressed to it, of the epoch asked for.
\<close>

theorem own_envelopes_addressed:
  assumes "objects_page X cfg c a ''own_envelopes'' param q st = (Inr v, st')"
  shows "owns a param \<and> (\<exists>epoch. decimal_opt (query q ''epoch'') 0 u32_max = Inr epoch
    \<and> list_all (\<lambda>e. jget e ''recipient_kind'' = JStr ''device'' \<and> s_of e ''recipient_device_id'' = param
        \<and> (epoch = None \<or> epoch = Some (n_of e ''epoch''))) (a_of v ''items''))"
proof -
  from assms obtain epoch p p' rows items left st1 st2 st3 has_more where
    own: "owns a param" and ep: "decimal_opt (query q ''epoch'') 0 u32_max = Inr epoch" and
    loop: "objects_loop X c ''own_envelopes'' param epoch p [] 0 rows st1 = (Inr (p', items, left), st2)" and
    fin: "finish X cfg p' items has_more False st3 = (Inr v, st')"
    by (auto simp: objects_page_def bindM_run Let_def)
  have "list_all (\<lambda>e. \<not> skip_envelope ''own_envelopes'' param epoch e) items"
    using objects_loop_own [OF loop] by simp
  moreover have "a_of v ''items'' = items" using finish_fields(1) [OF fin] by (simp add: a_of_def as_array_def)
  ultimately show ?thesis using own ep by (auto simp: skip_envelope_def list_all_iff split: option.splits)
qed

definition demo_envelopes_db :: db where
  "demo_envelopes_db = empty_db\<lparr>db_objects := map (\<lambda>(i, dev). \<lparr>o_chain = demo_b32, o_kind = ''envelope'', o_id = i, o_hash = ''h'',
     o_body = Some (jobj [(''envelope_id'', JStr i), (''recipient_kind'', JStr ''device''), (''recipient_device_id'', JStr dev)]),
     o_log = None, o_seq = None\<rparr>) [(''e1'', ''144''), (''e2'', ''145'')]\<rparr>"

theorem own_envelopes_addressed_witness:
  "\<exists>v st'. objects_page demo_fast demo_read_cfg demo_read_chain demo_reader ''own_envelopes'' ''144'' [] demo_envelopes_db = (Inr v, st')
     \<and> map (\<lambda>e. s_of e ''envelope_id'') (a_of v ''items'') = [''e1'']
     \<and> list_all (\<lambda>e. s_of e ''recipient_device_id'' = ''144'') (a_of v ''items'')"
proof -
  have "case objects_page demo_fast demo_read_cfg demo_read_chain demo_reader ''own_envelopes'' ''144'' [] demo_envelopes_db of
      (Inr v, st') \<Rightarrow> map (\<lambda>e. s_of e ''envelope_id'') (a_of v ''items'') = [''e1''] | _ \<Rightarrow> False" by code_simp
  then obtain v st' where
    run: "objects_page demo_fast demo_read_cfg demo_read_chain demo_reader ''own_envelopes'' ''144'' [] demo_envelopes_db = (Inr v, st')"
    and ids: "map (\<lambda>e. s_of e ''envelope_id'') (a_of v ''items'') = [''e1'']" by (auto split: prod.splits sum.splits)
  from own_envelopes_addressed [OF run] have "list_all (\<lambda>e. s_of e ''recipient_device_id'' = ''144'') (a_of v ''items'')"
    by (auto simp: list_all_iff)
  with run ids show ?thesis by (intro exI conjI)
qed

subsection \<open>A page of the transparency log\<close>

lemma audit_loop_prefix:
  assumes "audit_loop X items bytes position es = (items', position')"
  shows "\<exists>k \<le> length es. items' = items @ take k es
     \<and> position' = last (position # map (\<lambda>e. n_of e ''entry_index'') (take k es))"
  using assms
proof (induction es arbitrary: items bytes position)
  case (Cons e es)
  show ?case
  proof (cases "fits X bytes e")
    case None
    with Cons.prems show ?thesis by (intro exI [of _ 0]) simp
  next
    case (Some b)
    with Cons.prems Cons.IH [of "items @ [e]" b "n_of e ''entry_index''"] obtain k where
      "k \<le> length es" "items' = (items @ [e]) @ take k es"
      "position' = last (n_of e ''entry_index'' # map (\<lambda>e. n_of e ''entry_index'') (take k es))" by auto
    then show ?thesis by (intro exI [of _ "Suc k"]) simp
  qed
qed simp

lemma filter_consecutive:
  assumes "map key xs = [Suc a..<Suc a + length xs]"
  shows "filter (\<lambda>x. lo < key x \<and> key x \<le> hi) xs = drop (lo - a) (take (hi - a) xs)"
  using assms
proof (induction xs arbitrary: a)
  case (Cons x xs)
  then have x: "key x = Suc a" and xs: "map key xs = [Suc (Suc a)..<Suc (Suc a) + length xs]" by (auto simp: upt_rec)
  have later: "key y > Suc a" if "y \<in> set xs" for y
  proof -
    from that have "key y \<in> set (map key xs)" by simp
    then show ?thesis unfolding xs by auto
  qed
  show ?case
  proof (cases "hi \<le> a")
    case True
    with later x have "filter (\<lambda>x. lo < key x \<and> key x \<le> hi) (x # xs) = []" by (fastforce simp: filter_empty_conv)
    with True show ?thesis by simp
  next
    case False
    then have hi: "hi - a = Suc (hi - Suc a)" by simp
    show ?thesis
    proof (cases "lo \<le> a")
      case True
      with Cons.IH [OF xs] x False hi show ?thesis by simp
    next
      case nle: False
      then have "lo - a = Suc (lo - Suc a)" by simp
      with Cons.IH [OF xs] x nle hi show ?thesis by simp
    qed
  qed
qed simp

lemma sort_key_sorted: "sorted (map key xs) \<Longrightarrow> sort_key key xs = xs"
  by (metis sorted_sort_id sort_key_id_if_sorted)

text \<open>The rows of the transparency log, numbered from one, and the entries a page reads of them.\<close>

lemma audit_rows_numbered:
  assumes "audit_ok X cfg c st"
  shows "map t_idx (audit_rows c st) = [Suc 0..<Suc 0 + length (audit_rows c st)]"
proof -
  from assms obtain h0 where "linked (\<lambda>h i e. link_hash X h i e CTX_TLINK) h0 1 (map audit_link (audit_rows c st))"
    by (auto simp: audit_ok_def)
  from linked_numbers [OF this] show ?thesis by (simp add: audit_link_def comp_def)
qed

lemma audit_scan_rows:
  assumes "audit_ok X cfg c st"
  shows "audit_scan c (ch_transparency_id c) lo hi limit st = map t_entry (take limit (drop lo (take hi (audit_rows c st))))"
proof -
  let ?in = "\<lambda>r. lo < t_idx r \<and> t_idx r \<le> hi"
  have "filter (\<lambda>r. t_chain r = ch_id c \<and> t_id r = ch_transparency_id c \<and> lo < t_idx r \<and> t_idx r \<le> hi) (db_transparency st)
      = filter ?in (audit_rows c st)" by (simp add: audit_rows_def conj_ac)
  moreover have "sorted (map t_idx (audit_rows c st))" unfolding audit_rows_numbered [OF assms] by (rule sorted_upt)
  then have "sort_key t_idx (filter ?in (audit_rows c st)) = filter ?in (audit_rows c st)"
    by (intro sort_key_sorted sorted_filter)
  moreover have "filter ?in (audit_rows c st) = drop lo (take hi (audit_rows c st))"
    using filter_consecutive [OF audit_rows_numbered [OF assms], of lo hi] by simp
  ultimately show ?thesis unfolding audit_scan_def by (simp only:)
qed

text \<open>Starting or resuming a listing reads the clock at most once and writes nothing.\<close>

lemma page_state:
  assumes "page X cfg c resource q filters st = (Inr p, st')"
  shows "\<exists>t. st' = st\<lparr>db_tick := t\<rparr>"
  using assms by (auto simp: page_def page_resume_def bindM_run Let_def split: option.splits)

lemma anchor_hash_run:
  assumes "anchor_hash X cfg c (ch_transparency_id c) anchor st = (Inr hash, st')" and "audit_ok X cfg c st"
    and "initial_hash X CTX_TLOG (ch_id c) (ch_transparency_id c) (Some (cfg_key_id cfg)) = Inr h0"
  shows "anchor \<le> length (audit_rows c st)" and "hash = head_of h0 (map audit_link (take anchor (audit_rows c st)))" and "st' = st"
proof -
  let ?rows = "audit_rows c st"
  from assms(1) show "st' = st" by (auto simp: anchor_hash_def bindM_run split: if_splits)
  have "anchor \<le> length ?rows \<and> hash = head_of h0 (map audit_link (take anchor ?rows))"
  proof (cases "anchor = 0")
    case True
    with assms(1,3) show ?thesis by (simp add: anchor_hash_def)
  next
    case False
    with assms(1) obtain r where r: "find (\<lambda>r. transparency_key r = (ch_id c, ch_transparency_id c, anchor)) (db_transparency st) = Some r"
      "hash = t_hash r" by (auto simp: anchor_hash_def bindM_run)
    then have "r \<in> set ?rows" "t_idx r = anchor" by (auto simp: find_Some_iff transparency_key_def audit_rows_def)
    then obtain i where i: "i < length ?rows" "?rows ! i = r" by (auto simp: in_set_conv_nth)
    have "map t_idx ?rows ! i = [Suc 0..<Suc 0 + length ?rows] ! i" by (simp only: audit_rows_numbered [OF assms(2)])
    then have "anchor = Suc i" using i \<open>t_idx r = anchor\<close> by (simp del: upt_Suc)
    with i r(2) show ?thesis by (simp add: take_Suc_conv_app_nth audit_link_def)
  qed
  then show "anchor \<le> length ?rows" "hash = head_of h0 (map audit_link (take anchor ?rows))" by blast+
qed

lemma transparency_page_run:
  assumes "transparency_page X cfg c q st = (Inr v, st')"
  obtains p tick where "audit_answer X cfg c (ch_transparency_id c) p (st\<lparr>db_tick := tick\<rparr>) = (Inr v, st')"
proof -
  have start: "st'' = st0" if "audit_start c tid after through p st0 = (Inr x, st'')" for tid after through p x st0 st''
    using that by (auto simp: audit_start_def bindM_run Let_def)
  from assms obtain filters after through p0 st1 p st2 where
    page: "page X cfg c ''transparency'' q filters st = (Inr p0, st1)" and
    p: "(if query q ''cursor'' = None then audit_start c (ch_transparency_id c) after through p0 else ret p0) st1 = (Inr p, st2)" and
    answer: "audit_answer X cfg c (ch_transparency_id c) p st2 = (Inr v, st')"
    unfolding transparency_page_def by (auto simp: bindM_run Let_def split del: if_split)
  have "st2 = st1" using p start by (auto split: if_splits)
  with page_state [OF page] answer show ?thesis using that by blast
qed

lemma audit_answer_run:
  assumes "audit_answer X cfg c tid p st = (Inr v, st')"
  obtains hash items position where "anchor_hash X cfg c tid (pg_position p) st = (Inr hash, st)"
    "audit_loop X [] 0 (pg_position p) (audit_scan c tid (pg_position p) (n_of (pg_extra p) ''entry_index'') (pg_limit p) st)
       = (items, position)"
    "jget v ''items'' = JArr items" "jget v ''anchor_index'' = JNat (pg_position p)" "jget v ''anchor_hash'' = JStr hash"
    "jget v ''head'' = pg_extra p" "jget v ''has_more'' = JBool (position < n_of (pg_extra p) ''entry_index'')"
proof -
  have "read_only (anchor_hash X cfg c tid anchor)" for anchor
    unfolding anchor_hash_def by (auto simp: read_only_def bindM_def split: prod.splits sum.splits option.splits)
  then have ro: "anchor_hash X cfg c tid anchor st = (Inr hash, st1) \<Longrightarrow> st1 = st" for anchor hash st1
    by (rule read_onlyD)
  obtain items position where loop: "audit_loop X [] 0 (pg_position p)
      (audit_scan c tid (pg_position p) (n_of (pg_extra p) ''entry_index'') (pg_limit p) st) = (items, position)"
    by fastforce
  from assms obtain hash st1 where hash: "anchor_hash X cfg c tid (pg_position p) st = (Inr hash, st1)"
    by (auto simp: audit_answer_def bindM_run Let_def)
  with ro have "anchor_hash X cfg c tid (pg_position p) st = (Inr hash, st)" by metis
  with assms loop show ?thesis
    by (intro that [of hash items position]) (auto simp: audit_answer_def bindM_run Let_def jget_jobj)
qed

lemma audit_links_zip:
  "map t_idx rs = ns \<Longrightarrow> map audit_link rs = zip ns (zip (map Some (map t_entry rs)) (map t_hash rs))"
  by (induction rs arbitrary: ns) (auto simp: audit_link_def)

text \<open>A block of rows of the log that follows \<open>a\<close> rows: its numbers, and its links from the hash before it.\<close>

lemma audit_block:
  fixes m :: nat
  assumes "audit_ok X cfg c st" and "a \<le> length (audit_rows c st)"
    and "initial_hash X CTX_TLOG (ch_id c) (ch_transparency_id c) (Some (cfg_key_id cfg)) = Inr h0"
  defines "block \<equiv> take m (drop a (audit_rows c st))"
  shows "linked (\<lambda>h i e. link_hash X h i e CTX_TLINK) (head_of h0 (map audit_link (take a (audit_rows c st)))) (a + 1)
      (map audit_link block)"
    and "map t_idx block = [a + 1..<a + 1 + length block]"
    and "map (\<lambda>r. n_of (t_entry r) ''entry_index'') block = map t_idx block"
proof -
  let ?rows = "audit_rows c st"
  have "?rows = take a ?rows @ block @ drop m (drop a ?rows)" unfolding block_def by (simp only: append_take_drop_id)
  then have "map audit_link ?rows = map audit_link (take a ?rows) @ map audit_link block @ map audit_link (drop m (drop a ?rows))"
    by (metis map_append)
  moreover have "linked (\<lambda>h i e. link_hash X h i e CTX_TLINK) h0 1 (map audit_link ?rows)"
    using assms(1,3) by (auto simp: audit_ok_def)
  ultimately show linked: "linked (\<lambda>h i e. link_hash X h i e CTX_TLINK) (head_of h0 (map audit_link (take a ?rows))) (a + 1)
      (map audit_link block)" using assms(2) by (simp add: linked_append)
  from linked_numbers [OF linked] show "map t_idx block = [a + 1..<a + 1 + length block]"
    by (simp add: audit_link_def comp_def)
  have "set block \<subseteq> set ?rows" unfolding block_def by (meson in_set_dropD in_set_takeD subsetI)
  with assms(1) show "map (\<lambda>r. n_of (t_entry r) ''entry_index'') block = map t_idx block" by (auto simp: audit_ok_def)
qed

text \<open>
  C18: an answered page of the transparency log starts at the hash of its anchor and holds the
  entries that follow it without a gap: they hash, one after the other, from the anchor to the stored hash
  of the last entry of the page. There is more exactly when the page ends before the published head.
\<close>

theorem transparency_page_links:
  assumes "audit_ok X cfg c st" and "transparency_page X cfg c q st = (Inr v, st')"
  shows "\<exists>items anchor hash hashes. jget v ''items'' = JArr items \<and> jget v ''anchor_index'' = JNat anchor
     \<and> jget v ''anchor_hash'' = JStr hash \<and> length hashes = length items
     \<and> linked (\<lambda>h i e. link_hash X h i e CTX_TLINK) hash (anchor + 1)
         (zip [anchor + 1..<anchor + 1 + length items] (zip (map Some items) hashes))
     \<and> hashes = map t_hash (take (length items) (drop anchor (audit_rows c st)))
     \<and> jget v ''has_more'' = JBool (anchor + length items < n_of (jget v ''head'') ''entry_index'')"
proof -
  let ?rows = "audit_rows c st"
  from assms(2) obtain p tick where "audit_answer X cfg c (ch_transparency_id c) p (st\<lparr>db_tick := tick\<rparr>) = (Inr v, st')"
    by (rule transparency_page_run)
  then obtain hash items position where
    anchor: "anchor_hash X cfg c (ch_transparency_id c) (pg_position p) (st\<lparr>db_tick := tick\<rparr>) = (Inr hash, st\<lparr>db_tick := tick\<rparr>)" and
    loop: "audit_loop X [] 0 (pg_position p) (audit_scan c (ch_transparency_id c) (pg_position p)
        (n_of (pg_extra p) ''entry_index'') (pg_limit p) (st\<lparr>db_tick := tick\<rparr>)) = (items, position)" and
    v: "jget v ''items'' = JArr items" "jget v ''anchor_index'' = JNat (pg_position p)" "jget v ''anchor_hash'' = JStr hash"
      "jget v ''head'' = pg_extra p" "jget v ''has_more'' = JBool (position < n_of (pg_extra p) ''entry_index'')"
    by (rule audit_answer_run)
  let ?a = "pg_position p" and ?e = "n_of (pg_extra p) ''entry_index''"
  have rows: "audit_rows c (st\<lparr>db_tick := tick\<rparr>) = ?rows" by (simp add: audit_rows_def)
  then have ok: "audit_ok X cfg c (st\<lparr>db_tick := tick\<rparr>)" using assms(1) audit_ok_cong [OF rows refl refl refl refl] by blast
  obtain h0 where h0: "initial_hash X CTX_TLOG (ch_id c) (ch_transparency_id c) (Some (cfg_key_id cfg)) = Inr h0"
    using assms(1) by (auto simp: audit_ok_def)
  note anc = anchor_hash_run [OF anchor ok h0, unfolded rows]
  from audit_loop_prefix [OF loop] obtain k where
    items: "items = map t_entry (take k (take (pg_limit p) (drop ?a (take ?e ?rows))))" and
    position: "position = last (?a # map (\<lambda>e. n_of e ''entry_index'') items)"
    unfolding audit_scan_rows [OF ok] rows append_Nil take_map by blast
  define n where "n = length items"
  define block where "block = take n (drop ?a ?rows)"
  have "take k (take (pg_limit p) (drop ?a (take ?e ?rows))) = block"
    unfolding block_def n_def items by (simp add: drop_take min_def)
  with items have block: "items = map t_entry block" "length block = n" by (simp_all add: n_def)
  note blk = audit_block [OF assms(1) anc(1) h0, where m = n, folded block_def]
  have "map (\<lambda>e. n_of e ''entry_index'') items = [?a + 1..<?a + 1 + n]"
    using blk(2,3) unfolding block by (simp add: comp_def)
  then have pos: "position = ?a + n" unfolding position by (cases "n = 0") simp_all
  have links: "map audit_link block = zip [?a + 1..<?a + 1 + n] (zip (map Some items) (map t_hash block))"
    using audit_links_zip [OF blk(2)] unfolding block .
  show ?thesis
    unfolding v n_def [symmetric] pos
    by (intro exI [of _ items] exI [of _ ?a] exI [of _ hash] exI [of _ "map t_hash block"] conjI refl)
      (use blk(1) anc(2) links in \<open>simp_all add: block(2) n_def [symmetric]\<close>, simp add: block_def)
qed

text \<open>A chain with two audited operations and its published head.\<close>

definition demo_audited :: "chain \<times> db" where
  "demo_audited =
     (case bindM (transparency demo_fast demo_read_cfg demo_chain ''accept'' demo_b32 None None) (\<lambda>(c, _, _).
           bindM (transparency demo_fast demo_read_cfg c ''accept'' demo_b32 None None) (\<lambda>(c, _, _).
           bindM (save demo_fast demo_read_cfg c) (\<lambda>_. ret c))) empty_db of
        (Inr c, st) \<Rightarrow> (c, st) | (Inl e, st) \<Rightarrow> (demo_chain, st))"

lemma demo_audited_ok: "audit_ok demo_fast demo_read_cfg (fst demo_audited) (snd demo_audited)"
proof -
  have "initial_hash demo_fast CTX_TLOG (ch_id (fst demo_audited)) (ch_transparency_id (fst demo_audited))
      (Some (cfg_key_id demo_read_cfg)) = Inr demo_b32" by code_simp
  moreover have "linked (\<lambda>h i e. link_hash demo_fast h i e CTX_TLINK) demo_b32 1
      (map audit_link (audit_rows (fst demo_audited) (snd demo_audited)))" by code_simp
  moreover have "ch_transparency_hash (fst demo_audited) = head_of demo_b32 (map audit_link (audit_rows (fst demo_audited) (snd demo_audited)))"
    by code_simp
  moreover have "length (audit_rows (fst demo_audited) (snd demo_audited)) = ch_transparency_index (fst demo_audited)"
    "ch_transparency_index (fst demo_audited) \<le> MAX_INTEGER" by code_simp+
  moreover have "\<forall>r \<in> set (audit_rows (fst demo_audited) (snd demo_audited)). n_of (t_entry r) ''entry_index'' = t_idx r" by code_simp
  ultimately show ?thesis unfolding audit_ok_def by blast
qed

theorem transparency_page_links_witness:
  "\<exists>v st'. transparency_page demo_fast demo_read_cfg (fst demo_audited) [(''transparency_id'', ch_transparency_id demo_chain)]
       (snd demo_audited) = (Inr v, st')
     \<and> (\<exists>items hash. jget v ''items'' = JArr items \<and> length items = 1 \<and> jget v ''anchor_hash'' = JStr hash
        \<and> link_hash demo_fast hash 1 (items ! 0) CTX_TLINK = Inr demo_b32)
     \<and> jget v ''has_more'' = JBool True"
proof -
  let ?q = "[(''transparency_id'', ch_transparency_id demo_chain)]"
  have "case transparency_page demo_fast demo_read_cfg (fst demo_audited) ?q (snd demo_audited) of
      (Inr v, st') \<Rightarrow> length (a_of v ''items'') = 1 \<and> jget v ''anchor_index'' = JNat 0 \<and> n_of (jget v ''head'') ''entry_index'' = 2
    | _ \<Rightarrow> False" by code_simp
  then obtain v st' where run: "transparency_page demo_fast demo_read_cfg (fst demo_audited) ?q (snd demo_audited) = (Inr v, st')"
    and v: "length (a_of v ''items'') = 1" "jget v ''anchor_index'' = JNat 0" "n_of (jget v ''head'') ''entry_index'' = 2"
    by (auto split: prod.splits sum.splits)
  have hash: "map t_hash (take 1 (drop 0 (audit_rows (fst demo_audited) (snd demo_audited)))) = [demo_b32]" by code_simp
  from transparency_page_links [OF demo_audited_ok run] obtain items anchor hash hashes where
    p: "jget v ''items'' = JArr items" "jget v ''anchor_index'' = JNat anchor" "jget v ''anchor_hash'' = JStr hash"
    "linked (\<lambda>h i e. link_hash demo_fast h i e CTX_TLINK) hash (anchor + 1)
       (zip [anchor + 1..<anchor + 1 + length items] (zip (map Some items) hashes))"
    "hashes = map t_hash (take (length items) (drop anchor (audit_rows (fst demo_audited) (snd demo_audited))))"
    "jget v ''has_more'' = JBool (anchor + length items < n_of (jget v ''head'') ''entry_index'')" by blast
  have "anchor = 0" using v(2) p(2) by simp
  from v(1) p(1) obtain e where items: "items = [e]" by (auto simp: a_of_def as_array_def length_Suc_conv)
  then have "hashes = [demo_b32]" using p(5) hash \<open>anchor = 0\<close> by simp
  with p(4) items \<open>anchor = 0\<close> have "link_hash demo_fast hash 1 (items ! 0) CTX_TLINK = Inr demo_b32" by simp
  moreover have "jget v ''has_more'' = JBool True" using p(6) v(3) items \<open>anchor = 0\<close> by simp
  ultimately show ?thesis using run p(1,3) items by auto
qed

end
