(* ===== verification/Relay_Export.thy ===== *)
theory Relay_Export
  imports Relay_Read "HOL-Library.Product_Lexorder"
begin

text \<open>
  \<^verbatim>\<open>src/api/export.rs\<close>: an export is a sequence of chunks of text lines over ten groups of rows, on the
  cut of the chain the first chunk was taken at. The loop over the groups only reads, so it is a function of
  the database; that it ends is proved here from the order of the keys.
\<close>

subsection \<open>The rows of a group\<close>

text \<open>\<^verbatim>\<open>json_extract(v,'$.k')<=n\<close>: false where the member is missing.\<close>

definition json_le :: "json \<Rightarrow> string \<Rightarrow> nat \<Rightarrow> bool" where
  "json_le v k n = (case as_u64 (jget v k) of None \<Rightarrow> False | Some m \<Rightarrow> m \<le> n)"

definition pad16 :: "nat \<Rightarrow> string" where
  "pad16 n = replicate (16 - length (show_nat n)) CHR ''0'' @ show_nat n"

definition receipt_order :: "receipt_row \<Rightarrow> string option" where
  "receipt_order r = (case r_seq r of
      None \<Rightarrow> map_option (\<lambda>i. CHR ''z'' # i) (as_str (jget (r_receipt r) ''receipt_id''))
    | Some q \<Rightarrow> Some (pad16 q @ '':'' @ r_log r))"

text \<open>An exported row: its key, its item and the bytes of the column that bounds a page.\<close>

type_synonym export_row = "string \<times> json \<times> nat"

definition log_items :: "ext \<Rightarrow> chain \<Rightarrow> db \<Rightarrow> export_row list" where
  "log_items X c st = map (\<lambda>r. (show_nat (l_seq r), jobj [(''kind'', JStr ''log''), (''entry'', the (l_entry r))], entry_len X (l_entry r)))
     (sort_key l_seq (filter (\<lambda>r. l_chain r = ch_id c \<and> l_log r = ch_log_id c \<and> l_seq r \<le> ch_head_seq c \<and> l_entry r \<noteq> None) (db_log st)))"

definition attested :: "chain \<Rightarrow> db \<Rightarrow> object_row \<Rightarrow> bool" where
  "attested c st r = (case find (\<lambda>rc. receipt_key rc = object_key r) (db_receipts st) of
     None \<Rightarrow> True | Some rc \<Rightarrow> json_le (r_receipt rc) ''transparency_index'' (ch_transparency_index c))"

definition object_items :: "ext \<Rightarrow> chain \<Rightarrow> nat \<Rightarrow> db \<Rightarrow> export_row list" where
  "object_items X c phase st =
     (let kind = (if phase = 5 then ''snapshot_part'' else ''compaction'') in
      map (\<lambda>r. (o_id r,
          (if phase = 5 then jobj [(''kind'', JStr ''snapshot_part''), (''record'', the (o_body r))]
           else if phase = 2 then jobj [(''kind'', JStr ''compaction''), (''compaction'', the (o_body r))]
           else jobj [(''kind'', JStr ''boundary''), (''compaction'', the (o_body r))]), entry_len X (o_body r)))
        (sort_key o_id (filter (\<lambda>r. o_chain r = ch_id c \<and> o_kind r = kind \<and> o_body r \<noteq> None
           \<and> json_le (the (o_body r)) ''generation'' (generation c) \<and> attested c st r
           \<and> (phase \<noteq> 1 \<or> Some (o_id r) = ch_boundary_compaction_id c)) (db_objects st))))"

definition control_items :: "ext \<Rightarrow> chain \<Rightarrow> db \<Rightarrow> export_row list" where
  "control_items X c st = map (\<lambda>r. (o_kind r @ '':'' @ o_id r,
       jobj [(''kind'', JStr ''control''), (''object_type'', JStr (o_kind r)), (''object'', the (o_body r))], entry_len X (o_body r)))
     (sort_key (\<lambda>r. (o_kind r, o_id r)) (filter (\<lambda>r. o_chain r = ch_id c
        \<and> o_kind r \<in> {''parameters'', ''device'', ''epoch'', ''envelope'', ''admin''} \<and> o_body r \<noteq> None
        \<and> (o_log r = None \<or> o_log r \<noteq> Some (ch_log_id c)) \<and> json_le (the (o_body r)) ''generation'' (generation c)) (db_objects st)))"

definition removed_items :: "chain \<Rightarrow> db \<Rightarrow> export_row list" where
  "removed_items c st = map (\<lambda>r. (o_id r,
       jobj [(''kind'', JStr ''removed_id''), (''record_id'', JStr (o_id r)), (''record_hash'', JStr (o_hash r))], length (o_hash r)))
     (sort_key o_id (filter (\<lambda>r. o_chain r = ch_id c \<and> o_kind r = ''record'' \<and> o_body r = None) (db_objects st)))"

definition source_items :: "ext \<Rightarrow> chain \<Rightarrow> db \<Rightarrow> export_row list" where
  "source_items X c st = sort_key fst (concat (map (\<lambda>l. concat (map (\<lambda>r.
       if r_chain r = l_chain l \<and> r_log r = l_log l \<and> r_seq r = Some (l_seq l)
          \<and> json_le (r_receipt r) ''transparency_index'' (ch_transparency_index c)
       then (case as_str (jget (r_receipt r) ''entry_hash'') of
           None \<Rightarrow> []
         | Some h \<Rightarrow> [(h, jobj [(''kind'', JStr ''source_receipt''), (''receipt'', the (l_entry l))], entry_len X (l_entry l))])
       else []) (db_receipts st)))
     (filter (\<lambda>l. l_chain l = ch_id c \<and> l_log l \<noteq> ch_log_id c \<and> l_entry l \<noteq> None) (db_log st))))"

definition receipt_items :: "ext \<Rightarrow> chain \<Rightarrow> db \<Rightarrow> export_row list" where
  "receipt_items X c st = sort_key fst (concat (map (\<lambda>r.
       if json_le (r_receipt r) ''transparency_index'' (ch_transparency_index c) \<and> r_chain r = ch_id c
       then (case receipt_order r of
           None \<Rightarrow> []
         | Some k \<Rightarrow> [(k, jobj [(''kind'', JStr ''upload_receipt''), (''receipt'', r_receipt r)], text_len X (r_receipt r))])
       else []) (db_receipts st)))"

definition audit_items :: "ext \<Rightarrow> chain \<Rightarrow> db \<Rightarrow> export_row list" where
  "audit_items X c st = map (\<lambda>r. (show_nat (t_idx r), jobj [(''kind'', JStr ''transparency_entry''), (''entry'', t_entry r)], text_len X (t_entry r)))
     (sort_key t_idx (filter (\<lambda>r. t_chain r = ch_id c \<and> t_id r = ch_transparency_id c \<and> t_idx r \<le> ch_transparency_index c) (db_transparency st)))"

definition export_rows :: "ext \<Rightarrow> db \<Rightarrow> chain \<Rightarrow> json \<Rightarrow> nat \<Rightarrow> export_row list" where
  "export_rows X st c extra phase =
     (if phase = 0 then log_items X c st
      else if phase = 1 \<or> phase = 2 \<or> phase = 5 then object_items X c phase st
      else if phase = 3 then control_items X c st
      else if phase = 4 then removed_items c st
      else if phase = 6 then source_items X c st
      else if phase = 7 then receipt_items X c st
      else if phase = 8 then audit_items X c st
      else [(''head'', jobj [(''kind'', JStr ''transparency_head''), (''head'', jget extra ''head'')], 0)])"

text \<open>
  The rows after the key of the page: by number in the log and in the transparency log, by text elsewhere;
  the head is one row.
\<close>

definition numbered_phase :: "nat \<Rightarrow> bool" where
  "numbered_phase phase \<longleftrightarrow> phase = 0 \<or> phase = 8"

definition key_number :: "string \<Rightarrow> nat" where
  "key_number key = (case parse_u64 key of None \<Rightarrow> 0 | Some n \<Rightarrow> n)"

definition beyond :: "nat \<Rightarrow> string \<Rightarrow> string \<Rightarrow> bool" where
  "beyond phase key k \<longleftrightarrow>
     (if numbered_phase phase then key_number key < key_number k else if phase = 9 then key = [] else key < k)"

definition export_group :: "ext \<Rightarrow> db \<Rightarrow> Page \<Rightarrow> nat \<Rightarrow> (string \<times> json) list res" where
  "export_group X st p phase =
     (if phase > 9 \<or> (numbered_phase phase \<and> pg_key p \<noteq> [] \<and> parse_u64 (pg_key p) = None) then Inl Panic
      else rbind (bounded_rows (\<lambda>r. snd (snd r)) (take (pg_limit p + 1)
             (filter (\<lambda>r. beyond phase (pg_key p) (fst r)) (export_rows X st (pg_cut p) (pg_extra p) phase)))) (\<lambda>rows.
           Inr (map (\<lambda>r. (fst r, fst (snd r))) rows)))"

subsection \<open>The lines\<close>

definition carried :: "json \<Rightarrow> json option" where
  "carried item =
     (if s_of item ''kind'' = ''log'' then Some (jget (jget item ''entry'') ''object'')
      else if s_of item ''kind'' = ''control'' then Some (jget item ''object'')
      else if s_of item ''kind'' = ''source_receipt'' then Some (jget (jget item ''receipt'') ''object'')
      else None)"

definition carries_recovery :: "json \<Rightarrow> bool" where
  "carries_recovery item = (case carried item of None \<Rightarrow> False | Some v \<Rightarrow> jget v ''recipient_kind'' = JStr ''recovery'')"

definition protect :: "ext \<Rightarrow> json \<Rightarrow> bool \<Rightarrow> json option" where
  "protect X item incl =
     (if \<not> incl \<and> carries_recovery item then
        (if s_of item ''kind'' = ''log''
         then Some (jobj [(''kind'', JStr ''omitted''), (''relay_seq'', jget (jget item ''entry'') ''relay_seq''),
           (''object_hash'', JStr (object_hash X (jget (jget item ''entry'') ''object''))), (''reason'', JStr ''recovery_authority'')])
         else None)
      else Some item)"

definition line :: "ext \<Rightarrow> json \<Rightarrow> string" where
  "line X v = canonicalize_json X v @ [CHR 0x0A]"

text \<open>The inner loop with its variables \<^verbatim>\<open>p.key\<close>, \<^verbatim>\<open>out\<close>, \<^verbatim>\<open>count\<close>; the last component is \<^verbatim>\<open>all\<close>.\<close>

fun emit :: "ext \<Rightarrow> bool \<Rightarrow> nat \<Rightarrow> (string \<times> json) list \<Rightarrow> string \<Rightarrow> string \<Rightarrow> nat \<Rightarrow> string \<times> string \<times> nat \<times> bool" where
  "emit X incl limit [] key out written = (key, out, written, True)"
| "emit X incl limit ((k, item) # rows) key out written =
     (case protect X item incl of
        None \<Rightarrow> emit X incl limit rows k out written
      | Some v \<Rightarrow>
          if written \<ge> limit \<or> length out + length (line X v) > RESPONSE_MAX - 4096 then (key, out, written, False)
          else emit X incl limit rows k (out @ line X v) (written + 1))"

text \<open>\<^verbatim>\<open>p.extra["phase"] = ..\<close>: a null becomes an object, any other value panics.\<close>

definition set_phase :: "json \<Rightarrow> nat \<Rightarrow> json res" where
  "set_phase extra n =
     (if is_object extra then Inr (jset ''phase'' (JNat n) extra)
      else if extra = JNull then Inr (jobj [(''phase'', JNat n)]) else Inl Panic)"

subsection \<open>The loop over the groups\<close>

lemma rbind_cong [fundef_cong]:
  "m = m' \<Longrightarrow> (\<And>x. m' = Inr x \<Longrightarrow> f x = f' x) \<Longrightarrow> rbind m f = rbind m' f'"
  by (cases m') auto

lemma set_phase_n_of: "set_phase extra n = Inr extra' \<Longrightarrow> n < 2 ^ 64 \<Longrightarrow> n_of extra' ''phase'' = n"
  by (auto simp: set_phase_def n_of_def jget_jobj split: if_splits)

text \<open>The rows still to come shrink when the key moves to one of them.\<close>

definition remaining :: "ext \<Rightarrow> db \<Rightarrow> Page \<Rightarrow> nat \<Rightarrow> export_row list" where
  "remaining X st p phase = filter (\<lambda>r. beyond phase (pg_key p) (fst r)) (export_rows X st (pg_cut p) (pg_extra p) phase)"

lemma remaining_shrinks:
  assumes "r \<in> set (remaining X st p phase)"
  shows "length (remaining X st (p\<lparr>pg_key := fst r\<rparr>) phase) < length (remaining X st p phase)"
proof -
  have trans: "beyond phase (fst r) (fst r') \<longrightarrow> beyond phase (pg_key p) (fst r')" for r'
    using assms by (auto simp: remaining_def beyond_def export_rows_def split: if_splits)
  have "remaining X st (p\<lparr>pg_key := fst r\<rparr>) phase = filter (\<lambda>r'. beyond phase (fst r) (fst r')) (remaining X st p phase)"
    using trans by (auto simp: remaining_def intro: filter_cong)
  moreover have "\<not> beyond phase (fst r) (fst r)"
    using assms by (auto simp: remaining_def beyond_def export_rows_def numbered_phase_def split: if_splits)
  ultimately show ?thesis using length_filter_less [OF assms, of "\<lambda>r'. beyond phase (fst r) (fst r')"] by simp
qed

lemma group_rows:
  assumes "export_group X st p phase = Inr rows" and "row \<in> set rows"
  shows "\<exists>r \<in> set (remaining X st p phase). fst r = fst row"
proof -
  from assms(1) obtain out where out: "bounded_rows (\<lambda>r. snd (snd r)) (take (pg_limit p + 1) (remaining X st p phase)) = Inr out"
    and rows: "rows = map (\<lambda>r. (fst r, fst (snd r))) out"
    by (auto simp: export_group_def remaining_def split: if_splits)
  from bounded_rows_prefix [OF out] have "set out \<subseteq> set (remaining X st p phase)"
    by (metis Un_upper1 in_set_takeD set_append subset_iff)
  with rows assms(2) show ?thesis by force
qed

lemma emit_all: "emit X incl limit rows key out written = (key', out', written', True) \<Longrightarrow> key' = last (key # map fst rows)"
  by (induction X incl limit rows key out written rule: emit.induct) (auto split: option.splits if_splits)

function export_loop :: "ext \<Rightarrow> bool \<Rightarrow> db \<Rightarrow> Page \<Rightarrow> string \<Rightarrow> nat \<Rightarrow> (Page \<times> string) res" where
  "export_loop X incl st p out written =
     (let phase = n_of (pg_extra p) ''phase'' in
      if phase \<ge> 10 then Inr (p, out)
      else rbind (export_group X st p phase) (\<lambda>rows.
        case emit X incl (pg_limit p) rows (pg_key p) out written of (key, out, written, finished) \<Rightarrow>
          let p = p\<lparr>pg_key := key\<rparr> in
          if \<not> finished then Inr (p, out)
          else rbind (export_group X st p phase) (\<lambda>left.
            if left \<noteq> [] then (if written \<ge> pg_limit p then Inr (p, out) else export_loop X incl st p out written)
            else rbind (set_phase (pg_extra p) (phase + 1)) (\<lambda>extra.
              let p = p\<lparr>pg_extra := extra, pg_key := []\<rparr> in
              if written \<ge> pg_limit p then Inr (p, out) else export_loop X incl st p out written))))"
  by pat_completeness auto

text \<open>
  Every iteration goes on to a later group, or stays in its group with fewer rows to come: when the rows of
  a page were all written and there are more, the key has moved to the last of them.
\<close>

lemma stay_in_group:
  assumes "export_group X st p phase = Inr rows"
    and "(key, out', written', True) = emit X incl limit rows (pg_key p) out written"
    and "export_group X st (p\<lparr>pg_key := key\<rparr>) phase = Inr left" and "left \<noteq> []"
  shows "length (remaining X st (p\<lparr>pg_key := key\<rparr>) phase) < length (remaining X st p phase)"
proof (cases "rows = []")
  case True
  with assms(2) have "key = pg_key p" by simp
  with assms(1,3,4) True show ?thesis by simp
next
  case False
  with emit_all [OF assms(2) [symmetric]] have "key = fst (last rows)" by (simp add: last_map)
  moreover from group_rows [OF assms(1) last_in_set [OF False]] obtain r where
    "r \<in> set (remaining X st p phase)" "fst r = fst (last rows)" by blast
  ultimately show ?thesis using remaining_shrinks by metis
qed

termination export_loop
proof (relation "measures [\<lambda>(X, incl, st, p, out, written). 10 - n_of (pg_extra p) ''phase'',
    \<lambda>(X, incl, st, p, out, written). length (remaining X st p (n_of (pg_extra p) ''phase''))]", goal_cases)
  case 1
  show ?case by simp
next
  case 2
  then show ?case by (auto intro!: stay_in_group)
next
  case 3
  then show ?case by (auto dest!: set_phase_n_of)
qed

declare export_loop.simps [simp del]

subsection \<open>A chunk\<close>

definition include_recovery :: "query_list \<Rightarrow> bool res" where
  "include_recovery q = (case query q ''include_recovery'' of
      None \<Rightarrow> Inr False
    | Some t \<Rightarrow> if t = ''true'' then Inr True else if t = ''false'' then Inr False else Inl (err ''INVALID_FIELD''))"

definition export_header :: "ext \<Rightarrow> config \<Rightarrow> chain \<Rightarrow> chain \<Rightarrow> bool \<Rightarrow> json" where
  "export_header X cfg c ct incl = jobj [(''kind'', JStr ''header''), (''protocol'', JStr ''pallasync/3''), (''chain_id'', JStr (ch_id c)),
     (''generation'', JNat (generation ct)), (''log_id'', JStr (ch_log_id ct)), (''head_seq'', JNat (ch_head_seq ct)),
     (''head_hash'', JStr (ch_head_hash ct)), (''include_recovery'', JBool incl),
     (''relay_public_key'', JStr (x_b64enc X (x_public_key X (cfg_key cfg)))), (''relay_key_id'', JStr (cfg_key_id cfg)),
     (''transparency_id'', JStr (ch_transparency_id ct)), (''transparency_head_index'', JNat (ch_transparency_index ct)),
     (''transparency_head_hash'', JStr (ch_transparency_hash ct))]"

definition export_start :: "chain \<Rightarrow> Page \<Rightarrow> Page tx" where
  "export_start c p =
     bindM (select_one db_heads (\<lambda>r. head_key r = (ch_id c, ch_transparency_id c, ch_transparency_index c))) (\<lambda>r.
     ret (p\<lparr>pg_extra := jobj [(''phase'', JNat 0), (''head'', hd_head r)]\<rparr>))"

definition continuation :: "string option \<Rightarrow> bool \<Rightarrow> json" where
  "continuation token has_more =
     jobj [(''kind'', JStr ''continuation''), (''next_cursor'', jopt JStr token), (''has_more'', JBool has_more)]"

definition export :: "ext \<Rightarrow> config \<Rightarrow> chain \<Rightarrow> auth \<Rightarrow> query_list \<Rightarrow> string tx" where
  "export X cfg c a q =
     bindM (lift (allowed q [''cursor'', ''limit'', ''include_recovery''])) (\<lambda>_.
     bindM (lift (include_recovery q)) (\<lambda>incl.
     bindM (rejectM (incl \<and> \<not> admin a) ''ENVELOPE_ACCESS_DENIED'') (\<lambda>_.
     bindM (page X cfg c ''export'' q (jobj [(''include_recovery'', JBool incl)])) (\<lambda>p.
     if ch_min_available_seq (pg_cut p) < ch_min_available_seq c then lift (Inl (pruned c))
     else
       bindM (if query q ''cursor'' = None then export_start c p else ret p) (\<lambda>p.
       bindM (gets (\<lambda>st. export_loop X incl st p (line X (export_header X cfg c (pg_cut p) incl)) 0)) (\<lambda>result.
       bindM (lift result) (\<lambda>(p, out).
       let has_more = n_of (pg_extra p) ''phase'' < 10 in
       bindM (next_cursor X cfg p has_more) (\<lambda>token.
       let out = out @ line X (continuation token has_more) in
       bindM (rejectM (length out > RESPONSE_MAX) ''PAYLOAD_TOO_LARGE'') (\<lambda>_.
       ret out)))))))))"

subsection \<open>What a chunk holds\<close>

text \<open>
  What may be written for a cut of a chain, said of the stored rows and not of the loop's own
  test: a stored item, and where an envelope can be stored (a log entry, a control object, an entry of another log)
  only when recovery material is included or the object is not addressed to a recovery recipient. An
  entry withheld from the log leaves its number and the hash of its object.
\<close>

definition recovery :: "json \<Rightarrow> bool" where
  "recovery v \<longleftrightarrow> jget v ''recipient_kind'' = JStr ''recovery''"

inductive shareable :: "ext \<Rightarrow> bool \<Rightarrow> chain \<Rightarrow> db \<Rightarrow> json \<Rightarrow> bool" for X incl c st where
  log_entry: "r \<in> set (db_log st) \<Longrightarrow> l_chain r = ch_id c \<Longrightarrow> l_log r = ch_log_id c \<Longrightarrow> l_seq r \<le> ch_head_seq c \<Longrightarrow>
   l_entry r = Some e \<Longrightarrow> incl \<or> \<not> recovery (jget e ''object'') \<Longrightarrow>
   shareable X incl c st (jobj [(''kind'', JStr ''log''), (''entry'', e)])"
| withheld: "r \<in> set (db_log st) \<Longrightarrow> l_chain r = ch_id c \<Longrightarrow> l_log r = ch_log_id c \<Longrightarrow> l_seq r \<le> ch_head_seq c \<Longrightarrow>
   l_entry r = Some e \<Longrightarrow> \<not> incl \<Longrightarrow> recovery (jget e ''object'') \<Longrightarrow>
   shareable X incl c st (jobj [(''kind'', JStr ''omitted''), (''relay_seq'', jget e ''relay_seq''),
     (''object_hash'', JStr (object_hash X (jget e ''object''))), (''reason'', JStr ''recovery_authority'')])"
| history: "r \<in> set (db_objects st) \<Longrightarrow> o_chain r = ch_id c \<Longrightarrow> o_body r = Some b \<Longrightarrow>
   (o_kind r, kind, name) \<in> {(''compaction'', ''boundary'', ''compaction''), (''compaction'', ''compaction'', ''compaction''),
     (''snapshot_part'', ''snapshot_part'', ''record'')} \<Longrightarrow>
   shareable X incl c st (jobj [(''kind'', JStr kind), (name, b)])"
| control: "r \<in> set (db_objects st) \<Longrightarrow> o_chain r = ch_id c \<Longrightarrow> o_body r = Some b \<Longrightarrow>
   o_kind r \<in> {''parameters'', ''device'', ''epoch'', ''envelope'', ''admin''} \<Longrightarrow> incl \<or> \<not> recovery b \<Longrightarrow>
   shareable X incl c st (jobj [(''kind'', JStr ''control''), (''object_type'', JStr (o_kind r)), (''object'', b)])"
| removed: "r \<in> set (db_objects st) \<Longrightarrow> o_chain r = ch_id c \<Longrightarrow> o_kind r = ''record'' \<Longrightarrow> o_body r = None \<Longrightarrow>
   shareable X incl c st (jobj [(''kind'', JStr ''removed_id''), (''record_id'', JStr (o_id r)), (''record_hash'', JStr (o_hash r))])"
| source: "r \<in> set (db_log st) \<Longrightarrow> l_chain r = ch_id c \<Longrightarrow> l_log r \<noteq> ch_log_id c \<Longrightarrow>
   l_entry r = Some e \<Longrightarrow> incl \<or> \<not> recovery (jget e ''object'') \<Longrightarrow>
   shareable X incl c st (jobj [(''kind'', JStr ''source_receipt''), (''receipt'', e)])"
| receipt: "r \<in> set (db_receipts st) \<Longrightarrow> r_chain r = ch_id c \<Longrightarrow>
   shareable X incl c st (jobj [(''kind'', JStr ''upload_receipt''), (''receipt'', r_receipt r)])"
| audit: "r \<in> set (db_transparency st) \<Longrightarrow> t_chain r = ch_id c \<Longrightarrow> t_id r = ch_transparency_id c \<Longrightarrow>
   t_idx r \<le> ch_transparency_index c \<Longrightarrow>
   shareable X incl c st (jobj [(''kind'', JStr ''transparency_entry''), (''entry'', t_entry r)])"
| head: "shareable X incl c st (jobj [(''kind'', JStr ''transparency_head''), (''head'', h)])"

lemmas protect_simps = protect_def carries_recovery_def carried_def s_of_def jget_jobj recovery_def

lemma log_items_shareable:
  assumes "row \<in> set (log_items X c st)" and "protect X (fst (snd row)) incl = Some v"
  shows "shareable X incl c st v"
proof -
  from assms(1) obtain r e where r: "r \<in> set (db_log st)" "l_chain r = ch_id c" "l_log r = ch_log_id c" "l_seq r \<le> ch_head_seq c"
    "l_entry r = Some e" "fst (snd row) = jobj [(''kind'', JStr ''log''), (''entry'', e)]"
    by (auto simp: log_items_def)
  then show ?thesis
    using assms(2) log_entry [OF r(1-5)] withheld [OF r(1-5)]
    by (cases "recovery (jget e ''object'')"; cases incl) (auto simp: protect_simps)
qed

lemma object_items_shareable:
  assumes "row \<in> set (object_items X c phase st)" and "phase = 1 \<or> phase = 2 \<or> phase = 5"
    and "protect X (fst (snd row)) incl = Some v"
  shows "shareable X incl c st v"
proof -
  from assms(1) obtain r b where r: "r \<in> set (db_objects st)" "o_chain r = ch_id c" "o_body r = Some b"
    and kind: "o_kind r = (if phase = 5 then ''snapshot_part'' else ''compaction'')"
    and item: "fst (snd row) = (if phase = 5 then jobj [(''kind'', JStr ''snapshot_part''), (''record'', b)]
      else if phase = 2 then jobj [(''kind'', JStr ''compaction''), (''compaction'', b)]
      else jobj [(''kind'', JStr ''boundary''), (''compaction'', b)])"
    by (auto simp: object_items_def Let_def)
  have v: "v = fst (snd row)" using assms(2,3) item by (auto simp: protect_simps)
  from assms(2) show ?thesis
    using history [OF r, of "''boundary''" "''compaction''"] history [OF r, of "''compaction''" "''compaction''"]
      history [OF r, of "''snapshot_part''" "''record''"] kind item v by (elim disjE) simp_all
qed

lemma control_items_shareable:
  assumes "row \<in> set (control_items X c st)" and "protect X (fst (snd row)) incl = Some v"
  shows "shareable X incl c st v"
proof -
  from assms(1) obtain r b where r: "r \<in> set (db_objects st)" "o_chain r = ch_id c" "o_body r = Some b"
    "o_kind r \<in> {''parameters'', ''device'', ''epoch'', ''envelope'', ''admin''}"
    "fst (snd row) = jobj [(''kind'', JStr ''control''), (''object_type'', JStr (o_kind r)), (''object'', b)]"
    by (auto simp: control_items_def)
  then show ?thesis
    using assms(2) control [OF r(1-4)] by (cases "recovery b"; cases incl) (auto simp: protect_simps)
qed

lemma source_items_shareable:
  assumes "row \<in> set (source_items X c st)" and "protect X (fst (snd row)) incl = Some v"
  shows "shareable X incl c st v"
proof -
  from assms(1) obtain r e where r: "r \<in> set (db_log st)" "l_chain r = ch_id c" "l_log r \<noteq> ch_log_id c"
    "l_entry r = Some e" "fst (snd row) = jobj [(''kind'', JStr ''source_receipt''), (''receipt'', e)]"
    by (auto simp: source_items_def split: if_splits option.splits)
  then show ?thesis
    using assms(2) source [OF r(1-4)] by (cases "recovery (jget e ''object'')"; cases incl) (auto simp: protect_simps)
qed

lemma other_items_shareable:
  assumes "row \<in> set (removed_items c st) \<union> set (receipt_items X c st) \<union> set (audit_items X c st)"
    and "protect X (fst (snd row)) incl = Some v"
  shows "shareable X incl c st v"
proof -
  have "v = fst (snd row)" if "s_of (fst (snd row)) ''kind'' \<notin> {''log'', ''control'', ''source_receipt''}"
    using that assms(2) by (simp add: protect_def carries_recovery_def carried_def)
  with assms(1) show ?thesis
    by (auto simp: removed_items_def receipt_items_def audit_items_def s_of_def jget_jobj
        intro: shareable.intros split: if_splits option.splits)
qed

lemma export_rows_shareable:
  assumes "row \<in> set (export_rows X st c extra phase)" and "protect X (fst (snd row)) incl = Some v"
  shows "shareable X incl c st v"
proof -
  from assms(1) consider "row \<in> set (log_items X c st)"
    | "row \<in> set (object_items X c phase st)" "phase = 1 \<or> phase = 2 \<or> phase = 5"
    | "row \<in> set (control_items X c st)" | "row \<in> set (source_items X c st)"
    | "row \<in> set (removed_items c st) \<union> set (receipt_items X c st) \<union> set (audit_items X c st)"
    | "fst (snd row) = jobj [(''kind'', JStr ''transparency_head''), (''head'', jget extra ''head'')]"
    unfolding export_rows_def by (auto split: if_splits)
  then show ?thesis
  proof cases
    case 6
    then have "v = fst (snd row)" using assms(2) by (simp add: protect_simps)
    with 6 show ?thesis by (simp add: head)
  qed (erule log_items_shareable [OF _ assms(2)] object_items_shareable [OF _ _ assms(2)] control_items_shareable [OF _ assms(2)]
      source_items_shareable [OF _ assms(2)] other_items_shareable [OF _ assms(2)]; assumption?)+
qed

lemma group_shareable:
  assumes "export_group X st p phase = Inr rows" and "(k, item) \<in> set rows" and "protect X item incl = Some v"
  shows "shareable X incl (pg_cut p) st v"
proof -
  from assms(1) obtain out where out: "bounded_rows (\<lambda>r. snd (snd r)) (take (pg_limit p + 1) (remaining X st p phase)) = Inr out"
    and rows: "rows = map (\<lambda>r. (fst r, fst (snd r))) out"
    by (auto simp: export_group_def remaining_def split: if_splits)
  from bounded_rows_prefix [OF out] have "set out \<subseteq> set (remaining X st p phase)"
    by (metis Un_upper1 in_set_takeD set_append subset_iff)
  with rows assms(2) obtain r where "r \<in> set (export_rows X st (pg_cut p) (pg_extra p) phase)" "fst (snd r) = item"
    by (force simp: remaining_def)
  with export_rows_shareable assms(3) show ?thesis by blast
qed

lemma emit_lines:
  assumes "emit X incl limit rows key out written = (key', out', written', done)"
    and "\<forall>row \<in> set rows. \<forall>v. protect X (snd row) incl = Some v \<longrightarrow> P v"
  shows "\<exists>items. out' = out @ concat (map (line X) items) \<and> list_all P items
     \<and> written' = written + length items \<and> written' \<le> max written limit"
  using assms
proof (induction rows arbitrary: key out written)
  case (Cons row rows)
  obtain k item where row: "row = (k, item)" by (cases row)
  have rest: "\<forall>row \<in> set rows. \<forall>v. protect X (snd row) incl = Some v \<longrightarrow> P v"
    using Cons.prems(2) by simp
  show ?case
  proof (cases "protect X item incl")
    case None
    with Cons.prems(1) Cons.IH [OF _ rest] row show ?thesis by simp
  next
    case (Some v)
    show ?thesis
    proof (cases "written \<ge> limit \<or> length out + length (line X v) > RESPONSE_MAX - 4096")
      case True
      with Cons.prems(1) Some row show ?thesis by (intro exI [of _ "[]"]) auto
    next
      case False
      with Cons.prems(1) Some row Cons.IH [OF _ rest, of k "out @ line X v" "written + 1"] obtain items where
        "out' = (out @ line X v) @ concat (map (line X) items)" "list_all P items"
        "written' = written + 1 + length items" "written' \<le> max (written + 1) limit" by auto
      moreover have "P v" using Cons.prems(2) Some row by simp
      ultimately show ?thesis using False by (intro exI [of _ "v # items"]) auto
    qed
  qed
qed (auto intro!: exI [of _ "[]"])

text \<open>The loop ends on every store (it is a total function) and writes such lines only, within the limit of the page.\<close>

lemma export_loop_lines:
  assumes "export_loop X incl st p out written = Inr (p', out')"
  shows "\<exists>items. out' = out @ concat (map (line X) items) \<and> list_all (shareable X incl (pg_cut p) st) items
     \<and> written + length items \<le> max written (pg_limit p) \<and> pg_cut p' = pg_cut p"
  using assms
proof (induction X incl st p out written arbitrary: rule: export_loop.induct)
  case (1 X incl st p out written)
  let ?phase = "n_of (pg_extra p) ''phase''"
  show ?case
  proof (cases "?phase \<ge> 10")
    case True
    with "1.prems" show ?thesis by (subst (asm) export_loop.simps) (auto intro!: exI [of _ "[]"])
  next
    case False
    with "1.prems" obtain rows where rows: "export_group X st p ?phase = Inr rows"
      by (subst (asm) export_loop.simps) (auto simp: Let_def)
    obtain key out1 n fin where em: "emit X incl (pg_limit p) rows (pg_key p) out written = (key, out1, n, fin)"
      using prod_cases4 by blast
    have safe: "\<forall>row \<in> set rows. \<forall>v. protect X (snd row) incl = Some v \<longrightarrow> shareable X incl (pg_cut p) st v"
      using group_shareable [OF rows] by (metis prod.collapse)
    from emit_lines [OF em safe] obtain items where
      items: "out1 = out @ concat (map (line X) items)" "list_all (shareable X incl (pg_cut p) st) items"
      "n = written + length items" "n \<le> max written (pg_limit p)" by blast
    have goal: ?thesis if "export_loop X incl st q out1 n = Inr (p', out')" and q: "pg_limit q = pg_limit p" "pg_cut q = pg_cut p" "n < pg_limit p"
      and IH: "export_loop X incl st q out1 n = Inr (p', out') \<Longrightarrow> \<exists>items. out' = out1 @ concat (map (line X) items)
        \<and> list_all (shareable X incl (pg_cut q) st) items \<and> n + length items \<le> max n (pg_limit q) \<and> pg_cut p' = pg_cut q" for q
    proof -
      from IH [OF that(1)] obtain items' where "out' = out1 @ concat (map (line X) items')"
        "list_all (shareable X incl (pg_cut p) st) items'"
        "n + length items' \<le> max n (pg_limit p)" "pg_cut p' = pg_cut p" using q by auto
      with items q(3) show ?thesis by (intro exI [of _ "items @ items'"]) auto
    qed
    have stop: ?thesis if "out' = out1" "pg_cut p' = pg_cut p"
      using items that by (intro exI [of _ items]) auto
    note IH = "1.IH" [OF refl False rows em [symmetric] refl refl refl]
    show ?thesis
    proof (cases fin)
      case False
      with "1.prems" \<open>\<not> 10 \<le> ?phase\<close> rows em show ?thesis by (intro stop) (subst (asm) export_loop.simps, auto simp: Let_def)+
    next
      case True
      let ?q = "p\<lparr>pg_key := key\<rparr>"
      from "1.prems" [unfolded export_loop.simps [of X incl st p out written]] \<open>\<not> 10 \<le> ?phase\<close> rows em True
      obtain left where left: "export_group X st ?q ?phase = Inr left" and
        stay: "left \<noteq> [] \<Longrightarrow> (if n \<ge> pg_limit p then Inr (?q, out1) else export_loop X incl st ?q out1 n) = Inr (p', out')" and
        leave: "left = [] \<Longrightarrow> \<exists>extra. set_phase (pg_extra p) (?phase + 1) = Inr extra
          \<and> (if n \<ge> pg_limit p then Inr (p\<lparr>pg_extra := extra, pg_key := []\<rparr>, out1)
             else export_loop X incl st (p\<lparr>pg_extra := extra, pg_key := []\<rparr>) out1 n) = Inr (p', out')"
        by (auto simp: Let_def split: if_splits)
      show ?thesis
      proof (cases "n \<ge> pg_limit p")
        case True
        with stay leave have "out' = out1" "pg_cut p' = pg_cut p" by (cases "left = []"; auto)+
        then show ?thesis by (rule stop)
      next
        case small: False
        show ?thesis
        proof (cases "left = []")
          case False
          with stay small have run: "export_loop X incl st ?q out1 n = Inr (p', out')" by simp
          show ?thesis by (rule goal [OF run]) (use IH(1) [OF _ left False] small True in simp_all)
        next
          case last: True
          with leave small obtain extra where extra: "set_phase (pg_extra p) (?phase + 1) = Inr extra" and
            run: "export_loop X incl st (p\<lparr>pg_extra := extra, pg_key := []\<rparr>) out1 n = Inr (p', out')" by auto
          show ?thesis by (rule goal [OF run]) (use IH(2) [OF _ left _ _ refl] extra last small True in simp_all)
        qed
      qed
    qed
  qed
qed

text \<open>
  The chunk is taken at a cut of the chain as it is now: the chain itself, or what a cursor of the same log,
  generation and transparency log resumes.
\<close>

lemma page_cut:
  assumes "page X cfg c resource q filters st = (Inr p, st')"
  shows "page_limit cfg q = Inr (pg_limit p) \<and> ch_log_id (pg_cut p) = ch_log_id c \<and> generation (pg_cut p) = generation c
    \<and> ch_transparency_id (pg_cut p) = ch_transparency_id c \<and> (query q ''cursor'' = None \<longrightarrow> pg_cut p = c)"
  using assms by (auto simp: page_def page_resume_def bindM_run Let_def split: option.splits)

lemma page_tables:
  assumes "page X cfg c resource q filters st = (Inr p, st')"
  shows "st' = st\<lparr>db_tick := db_tick st + 1\<rparr>"
  using assms by (auto simp: page_def page_resume_def bindM_run Let_def select_opt_def split: option.splits)

lemma shareable_tables:
  assumes "shareable X incl c st v" and "db_log st' = db_log st" "db_objects st' = db_objects st"
    "db_receipts st' = db_receipts st" "db_transparency st' = db_transparency st"
  shows "shareable X incl c st' v"
  using assms by (induction rule: shareable.induct) (auto intro: shareable.intros)


text \<open>A log with a record and a recovery envelope, exported without recovery material.\<close>

definition demo_export_db :: db where
  "demo_export_db = empty_db\<lparr>db_log := [demo_log_row 1,
     (demo_log_row 2)\<lparr>l_entry := Some (jobj [(''kind'', JStr ''envelope''), (''object'', jobj [(''recipient_kind'', JStr ''recovery'')])])\<rparr>],
     db_heads := [\<lparr>hd_chain = demo_b32, hd_id = ch_transparency_id demo_chain, hd_idx = ch_transparency_index demo_chain, hd_head = JNull\<rparr>]\<rparr>"

definition demo_export_cfg :: config where
  "demo_export_cfg = demo_cfg\<lparr>cfg_privacy := jobj [(''limits'', jobj [(''page_limit'', JNat 9)])]\<rparr>"


end
