(* ===== verification/Relay_Import.thy ===== *)
theory Relay_Import
  imports Relay_Export
begin

text \<open>
  \<^verbatim>\<open>src/api/import.rs\<close>: staging the signed history of a chain, and the reseed that makes it live under a new
  generation and a new data log.
\<close>

subsection \<open>Staging: parameters and devices\<close>

definition stage_lists :: "(schema \<times> string) list" where
  "stage_lists = [(SParameters, ''parameters_history''), (SEpoch, ''epoch_history''), (SDevice, ''device_history''),
     (SEnvelope, ''envelopes''), (SCompaction, ''compactions'')]"

definition stage_valid :: "ext \<Rightarrow> string \<Rightarrow> json \<Rightarrow> unit res" where
  "stage_valid X chain v =
     rall (\<lambda>(schema, key). rall (\<lambda>obj.
       rbind (validate X obj schema) (\<lambda>_. reject (s_of obj ''chain_id'' \<noteq> chain) ''IMPORT_CONFLICT'')) (a_of v key)) stage_lists"

text \<open>The predecessor of an object in its numbered history, when it is stored, must have the hash the object names.\<close>

definition check_previous :: "ext \<Rightarrow> string \<Rightarrow> string \<Rightarrow> string \<Rightarrow> string \<Rightarrow> string \<Rightarrow> json \<Rightarrow> unit tx" where
  "check_previous X chain kind number hash_key code v =
     (if n_of v number > 0
      then bindM (object chain kind (show_nat (n_of v number - 1))) (\<lambda>prev.
           rejectM (case prev of None \<Rightarrow> False | Some p \<Rightarrow> s_of v hash_key \<noteq> object_hash X p) code)
      else ret ())"

definition stage_parameters :: "ext \<Rightarrow> string \<Rightarrow> string \<Rightarrow> json \<Rightarrow> unit \<Rightarrow> unit tx" where
  "stage_parameters X chain adm p u =
     bindM (rejectM (s_of p ''admin_public_key'' \<noteq> adm) ''IMPORT_CONFLICT'') (\<lambda>_.
     bindM (lift (verify X p adm CTX_PARAMETERS)) (\<lambda>_.
     bindM (check_previous X chain ''parameters'' ''generation'' ''previous_parameters_hash'' ''IMPORT_CONFLICT'' p) (\<lambda>_.
     bindM (put_object X chain ''parameters'' p None) (\<lambda>_.
     ret ()))))"

text \<open>
  One pass over the devices whose signer is not known yet, with its variables \<^verbatim>\<open>verified\<close> (the latest entry of
  a key first) and \<^verbatim>\<open>next\<close>.
\<close>

type_synonym pass_acc = "(string \<times> json) list \<times> json list"

definition signer_key :: "string \<Rightarrow> string \<Rightarrow> (string \<times> json) list \<Rightarrow> json \<Rightarrow> string option tx" where
  "signer_key chain adm verified d =
     (let cert = jget d ''enrollment''; sid = s_of cert ''signer_device_id'' in
      if s_of cert ''signer_kind'' = ''admin'' then ret (Some adm)
      else case map_of verified sid of
        Some sg \<Rightarrow>
          bindM (rejectM (n_of sg ''generation'' \<noteq> n_of d ''generation'') ''IMPORT_CONFLICT'') (\<lambda>_.
          ret (Some (s_of sg ''device_public_key'')))
      | None \<Rightarrow>
          bindM (object chain ''device'' sid) (\<lambda>d2.
          ret (case d2 of None \<Rightarrow> None
             | Some d2 \<Rightarrow> if n_of d2 ''generation'' = n_of d ''generation'' then Some (s_of d2 ''device_public_key'') else None)))"

definition stage_device :: "ext \<Rightarrow> string \<Rightarrow> string \<Rightarrow> json \<Rightarrow> pass_acc \<Rightarrow> pass_acc tx" where
  "stage_device X chain adm d acc =
     (case acc of (verified, todo) \<Rightarrow>
      bindM (signer_key chain adm verified d) (\<lambda>key.
      case key of
        None \<Rightarrow> ret (verified, todo @ [d])
      | Some k \<Rightarrow>
          bindM (map_errM ''ENROLLMENT_CERTIFICATE_INVALID'' (lift (verify X (jget d ''enrollment'') k CTX_ENROLLMENT))) (\<lambda>_.
          bindM (lift (verify X d (s_of d ''device_public_key'') CTX_DEVICE_RECORD)) (\<lambda>_.
          bindM (put_object X chain ''device'' d None) (\<lambda>_.
          ret ((s_of d ''device_id'', d) # verified, todo))))))"

lemma stage_device_later:
  "stage_device X chain adm d (verified, todo) st = (Inr (verified', todo'), st') \<Longrightarrow> todo' = todo \<or> todo' = todo @ [d]"
  by (auto simp: stage_device_def bindM_run split: option.splits)

lemma stage_pass_length:
  "foldM (stage_device X chain adm) ds (verified, todo) st = (Inr (verified', todo'), st') \<Longrightarrow>
     length todo' \<le> length todo + length ds"
proof (induction ds arbitrary: verified todo st)
  case (Cons d ds)
  from Cons.prems obtain v1 l1 st1 where one: "stage_device X chain adm d (verified, todo) st = (Inr (v1, l1), st1)"
    and rest: "foldM (stage_device X chain adm) ds (v1, l1) st1 = (Inr (verified', todo'), st')"
    by (auto simp: bindM_run)
  from Cons.IH [OF rest] stage_device_later [OF one] show ?case by auto
qed simp

text \<open>The passes: each one leaves fewer devices, or the remaining certificates lead nowhere.\<close>

function resolve_devices :: "ext \<Rightarrow> string \<Rightarrow> string \<Rightarrow> json list \<Rightarrow> (string \<times> json) list \<Rightarrow> (string \<times> json) list tx" where
  "resolve_devices X chain adm unresolved verified st =
     (if unresolved = [] then (Inr verified, st)
      else case foldM (stage_device X chain adm) unresolved (verified, []) st of
        (Inl e, st') \<Rightarrow> (Inl e, st')
      | (Inr (verified', todo), st') \<Rightarrow>
          if length todo = length unresolved then (Inl (err ''ENROLLMENT_CERTIFICATE_INVALID''), st')
          else resolve_devices X chain adm todo verified' st')"
  by pat_completeness auto

termination resolve_devices
  by (relation "measure (\<lambda>(X, chain, adm, unresolved, verified, st). length unresolved)")
    (auto dest!: stage_pass_length [OF sym])

declare resolve_devices.simps [simp del]

subsection \<open>Staging: epochs, envelopes and compactions\<close>

definition historical_key :: "string \<Rightarrow> string \<Rightarrow> json \<Rightarrow> string tx" where
  "historical_key chain adm v =
     (if s_of v ''signer_kind'' = ''admin'' then ret adm
      else
        bindM (object chain ''device'' (s_of v ''signer_device_id'')) (\<lambda>b.
        bindM (lift (ok_or ''IMPORT_CONFLICT'' b)) (\<lambda>d.
        bindM (rejectM (n_of d ''generation'' \<noteq> n_of v ''generation'') ''IMPORT_CONFLICT'') (\<lambda>_.
        ret (s_of d ''device_public_key'')))))"

definition check_member :: "string \<Rightarrow> json \<Rightarrow> json \<Rightarrow> unit \<Rightarrow> unit tx" where
  "check_member chain epoch i u =
     bindM (lift (unwrap (as_str i))) (\<lambda>dev.
     bindM (object chain ''device'' dev) (\<lambda>d.
     rejectM (case d of None \<Rightarrow> False | Some d \<Rightarrow> n_of d ''generation'' \<noteq> n_of epoch ''generation'') ''IMPORT_CONFLICT''))"

definition check_epoch :: "ext \<Rightarrow> string \<Rightarrow> json \<Rightarrow> unit tx" where
  "check_epoch X chain epoch =
     check_previous X chain ''epoch'' ''epoch'' ''previous_epoch_hash'' ''EPOCH_CHAIN_INVALID'' epoch"

definition stage_epoch :: "ext \<Rightarrow> string \<Rightarrow> string \<Rightarrow> json \<Rightarrow> unit \<Rightarrow> unit tx" where
  "stage_epoch X chain adm epoch u =
     bindM (check_epoch X chain epoch) (\<lambda>_.
     bindM (historical_key chain adm epoch) (\<lambda>key.
     bindM (lift (verify X epoch key CTX_EPOCH)) (\<lambda>_.
     bindM (foldM (check_member chain epoch) (a_of epoch ''members'') ()) (\<lambda>_.
     bindM (put_object X chain ''epoch'' epoch None) (\<lambda>_.
     ret ())))))"

definition stage_envelope :: "ext \<Rightarrow> string \<Rightarrow> string \<Rightarrow> json \<Rightarrow> unit \<Rightarrow> unit tx" where
  "stage_envelope X chain adm env u =
     bindM (object chain ''epoch'' (show_nat (n_of env ''epoch''))) (\<lambda>b.
     bindM (lift (ok_or ''IMPORT_CONFLICT'' b)) (\<lambda>epoch.
     bindM (rejectM (list_ex (\<lambda>k. jget env k \<noteq> jget epoch k)
        [''generation'', ''epoch'', ''epoch_commitment'', ''previous_epoch_hash'']) ''IMPORT_CONFLICT'') (\<lambda>_.
     bindM (rejectM (s_of env ''recipient_kind'' = ''recovery'' \<and> object_hash X env \<noteq> s_of epoch ''recovery_envelope_hash'')
        ''IMPORT_CONFLICT'') (\<lambda>_.
     bindM (historical_key chain adm env) (\<lambda>key.
     bindM (lift (verify X env key CTX_ENVELOPE)) (\<lambda>_.
     bindM (put_object X chain ''envelope'' env None) (\<lambda>_.
     ret ())))))))"

definition stage_compaction :: "ext \<Rightarrow> string \<Rightarrow> json \<Rightarrow> unit \<Rightarrow> unit tx" where
  "stage_compaction X chain cmp u =
     bindM (object chain ''device'' (s_of cmp ''device_id'')) (\<lambda>b.
     bindM (lift (ok_or ''IMPORT_CONFLICT'' b)) (\<lambda>d.
     bindM (lift (verify X cmp (s_of d ''device_public_key'') CTX_COMPACTION)) (\<lambda>_.
     bindM (put_object X chain ''compaction'' cmp None) (\<lambda>_.
     ret ()))))"

text \<open>The bodies of the staged objects of a kind; a missing body is a decoding error.\<close>

definition staged_bodies :: "string \<Rightarrow> string \<Rightarrow> json list tx" where
  "staged_bodies chain kind =
     bindM (select_all db_objects (\<lambda>r. o_chain r = chain \<and> o_kind r = kind \<and> o_log r = None)) (\<lambda>rows.
     if list_ex (\<lambda>r. o_body r = None) rows then lift (Inl sql_error) else ret (map (the \<circ> o_body) rows))"

definition recheck_parameters :: "ext \<Rightarrow> string \<Rightarrow> json \<Rightarrow> unit \<Rightarrow> unit tx" where
  "recheck_parameters X chain p u =
     check_previous X chain ''parameters'' ''generation'' ''previous_parameters_hash'' ''IMPORT_CONFLICT'' p"

definition recheck_epoch :: "ext \<Rightarrow> string \<Rightarrow> json \<Rightarrow> unit \<Rightarrow> unit tx" where
  "recheck_epoch X chain epoch u =
     bindM (check_epoch X chain epoch) (\<lambda>_. foldM (check_member chain epoch) (a_of epoch ''members'') ())"

definition stage_history :: "ext \<Rightarrow> string \<Rightarrow> string \<Rightarrow> json \<Rightarrow> unit tx" where
  "stage_history X chain adm v =
     bindM (foldM (stage_parameters X chain adm) (a_of v ''parameters_history'') ()) (\<lambda>_.
     bindM (resolve_devices X chain adm (a_of v ''device_history'') []) (\<lambda>_.
     bindM (foldM (stage_epoch X chain adm) (a_of v ''epoch_history'') ()) (\<lambda>_.
     bindM (foldM (stage_envelope X chain adm) (a_of v ''envelopes'') ()) (\<lambda>_.
     bindM (foldM (stage_compaction X chain) (a_of v ''compactions'') ()) (\<lambda>_.
     bindM (staged_bodies chain ''parameters'') (\<lambda>ps.
     bindM (foldM (recheck_parameters X chain) ps ()) (\<lambda>_.
     bindM (staged_bodies chain ''epoch'') (\<lambda>es.
     foldM (recheck_epoch X chain) es ()))))))))"

definition stage :: "ext \<Rightarrow> config \<Rightarrow> json \<Rightarrow> (json \<times> chain) tx" where
  "stage X cfg v =
     bindM (lift (Relay_Wire.fields X v [(''parameters_history'', ''array''), (''epoch_history'', ''array''),
        (''device_history'', ''array''), (''envelopes'', ''array''), (''compactions'', ''array'')] [])) (\<lambda>_.
     bindM (rejectM (a_of v ''parameters_history'' = [] \<or> a_of v ''epoch_history'' = []) ''IMPORT_CONFLICT'') (\<lambda>_.
     let p = last (a_of v ''parameters_history''); e = last (a_of v ''epoch_history'');
         chain = s_of p ''chain_id''; adm = s_of p ''admin_public_key'' in
     bindM (load chain) (\<lambda>current.
     bindM (rejectM (case current of None \<Rightarrow> False
        | Some c \<Rightarrow> parameters_hash X c \<noteq> object_hash X p \<or> epoch_hash X c \<noteq> object_hash X e
            \<or> s_of (ch_parameters c) ''admin_public_key'' \<noteq> adm) ''IMPORT_CONFLICT'') (\<lambda>_.
     bindM (select_opt db_imports (\<lambda>r. im_chain r = chain)) (\<lambda>staged_head.
     bindM (rejectM (case staged_head of None \<Rightarrow> False | Some r \<Rightarrow> im_parameters r \<noteq> p \<or> im_epoch r \<noteq> e) ''IMPORT_CONFLICT'') (\<lambda>_.
     bindM (lift (stage_valid X chain v)) (\<lambda>_.
     bindM (stage_history X chain adm v) (\<lambda>_.
     bindM (select_opt db_imports (\<lambda>r. im_chain r = chain)) (\<lambda>staged.
     bindM (case staged of Some r \<Rightarrow> ret (im_log r) | None \<Rightarrow> new_id X) (\<lambda>log_id.
     bindM (insert_ignore db_imports db_imports_update (same im_chain)
        \<lparr>im_chain = chain, im_log = log_id, im_parameters = p, im_epoch = e\<rparr>) (\<lambda>_.
     bindM (case current of Some c \<Rightarrow> ret c | None \<Rightarrow> chain_new X cfg p e (Some log_id)) (\<lambda>c.
     bindM (load chain) (\<lambda>stored.
     bindM (if stored = None
            then (let c = c\<lparr>ch_writable := False\<rparr> in bindM (save X cfg c) (\<lambda>_. ret c))
            else ret c) (\<lambda>c.
     bindM (quota X cfg chain) (\<lambda>_.
     ret (jobj [(''chain_id'', JStr chain), (''state'', JStr ''staged''), (''log_id'', JStr log_id)], c))))))))))))))))"

subsection \<open>Reseed\<close>

definition reseed_device :: "ext \<Rightarrow> chain \<Rightarrow> json \<Rightarrow> unit \<Rightarrow> unit tx" where
  "reseed_device X c d u =
     bindM (device X c d None True) (\<lambda>_.
     rejectM (s_of (jget d ''enrollment'') ''signer_kind'' \<noteq> ''admin'') ''ENROLLMENT_CERTIFICATE_INVALID'')"

text \<open>Some stored epoch lists the device as revoked.\<close>

definition revoked_by_epoch :: "string \<Rightarrow> string \<Rightarrow> db \<Rightarrow> bool" where
  "revoked_by_epoch chain dev st =
     list_ex (\<lambda>r. o_chain r = chain \<and> o_kind r = ''epoch''
        \<and> (case o_body r of None \<Rightarrow> False | Some b \<Rightarrow> JStr dev \<in> set (a_of b ''revoked_device_ids''))) (db_objects st)"

definition reseed_object :: "ext \<Rightarrow> config \<Rightarrow> chain \<Rightarrow> string \<Rightarrow> string \<Rightarrow> chain \<times> json list \<Rightarrow> (chain \<times> json list) tx" where
  "reseed_object X cfg old kind oid acc =
     (case acc of (c, rs) \<Rightarrow>
      bindM (object (ch_id old) kind oid) (\<lambda>b.
      bindM (lift (unwrap b)) (\<lambda>obj.
      bindM (append_entry X cfg c kind obj) (\<lambda>(c, entry, r).
      bindM (if kind = ''device''
             then bindM (gets (revoked_by_epoch (ch_id old) oid)) (\<lambda>revoked.
                  register c obj (n_of entry ''relay_seq'')
                    (if revoked \<or> n_of obj ''generation'' \<noteq> generation old then ''revoked'' else ''active''))
             else ret ()) (\<lambda>_.
      ret (c, rs @ [r]))))))"

definition staged_ids :: "string \<Rightarrow> string \<Rightarrow> db \<Rightarrow> string list" where
  "staged_ids chain kind st =
     (let ids = map o_id (filter (\<lambda>r. o_chain r = chain \<and> o_kind r = kind \<and> o_log r = None) (db_objects st)) in
      if kind = ''parameters'' \<or> kind = ''epoch'' then sort_key cast_key ids else sort ids)"

definition reseed_kind :: "ext \<Rightarrow> config \<Rightarrow> chain \<Rightarrow> string \<Rightarrow> chain \<times> json list \<Rightarrow> (chain \<times> json list) tx" where
  "reseed_kind X cfg old kind acc =
     bindM (gets (staged_ids (ch_id old) kind)) (\<lambda>ids. foldM (reseed_object X cfg old kind) ids acc)"

definition reseed_checks :: "ext \<Rightarrow> config \<Rightarrow> chain \<Rightarrow> json \<Rightarrow> import_row tx" where
  "reseed_checks X cfg old v =
     (let p = jget v ''parameters'' in
      bindM (admin_operation X old (jget v ''admin_operation'') ''reseed''
         (target v [''parameters'', ''epoch'', ''envelopes'', ''compaction'', ''device_records''])) (\<lambda>_.
      bindM (rejectM (s_of p ''chain_id'' \<noteq> ch_id old \<or> s_of p ''admin_public_key'' \<noteq> s_of (ch_parameters old) ''admin_public_key''
         \<or> n_of p ''generation'' \<noteq> generation old + 1 \<or> s_of p ''previous_parameters_hash'' \<noteq> parameters_hash X old)
         ''GENERATION_MISMATCH'') (\<lambda>_.
      bindM (lift (verify X p (s_of p ''admin_public_key'') CTX_PARAMETERS)) (\<lambda>_.
      bindM (rejectM (a_of v ''device_records'' = [] \<or> length (a_of v ''device_records'') > n_of (limits cfg) ''max_devices'')
         ''MEMBER_SET_MISMATCH'') (\<lambda>_.
      bindM (select_opt db_imports (\<lambda>r. im_chain r = ch_id old)) (\<lambda>row.
      bindM (lift (ok_or ''IMPORT_CONFLICT'' row)) (\<lambda>imported.
      bindM (rejectM (im_parameters imported \<noteq> ch_parameters old \<or> im_epoch imported \<noteq> ch_epoch old) ''CAS_MISMATCH'') (\<lambda>_.
      ret imported))))))))"

text \<open>The new generation on the new log; the transparency log goes on where the old chain left it.\<close>

definition reseed_chain :: "ext \<Rightarrow> config \<Rightarrow> chain \<Rightarrow> json \<Rightarrow> string \<Rightarrow> chain tx" where
  "reseed_chain X cfg old p log_id =
     bindM (chain_new X cfg p (ch_epoch old) (Some log_id)) (\<lambda>c.
     ret (c\<lparr>ch_transparency_id := ch_transparency_id old, ch_transparency_index := ch_transparency_index old,
            ch_transparency_hash := ch_transparency_hash old\<rparr>))"

definition reseed_commit :: "ext \<Rightarrow> config \<Rightarrow> chain \<Rightarrow> json \<Rightarrow> chain \<Rightarrow> (chain \<times> json list) tx" where
  "reseed_commit X cfg old v c =
     bindM (foldM (reseed_kind X cfg old) [''parameters'', ''device'', ''envelope'', ''epoch'', ''admin''] (c, [])) (\<lambda>(c, rs).
     bindM (rejectM (s_of (jget v ''epoch'') ''reason'' \<noteq> ''reseed'') ''EPOCH_CHAIN_INVALID'') (\<lambda>_.
     bindM (bundle_check X c (jget v ''epoch'') (a_of v ''envelopes'') (a_of v ''device_records'') False True) (\<lambda>_.
     bindM (append_entry X cfg c ''parameters'' (jget v ''parameters'')) (\<lambda>(c, _, r1).
     bindM (commit_epoch X cfg c \<lparr>ec_epoch = jget v ''epoch'', ec_envelopes = a_of v ''envelopes'',
        ec_staged = a_of v ''device_records'', ec_admin = Some (jget v ''admin_operation''), ec_genesis = False\<rparr>) (\<lambda>(c, _, r2).
     let cmp = jget v ''compaction'' in
     bindM (rejectM (n_of cmp ''covered_through_seq'' \<noteq> 0) ''COMPACTION_UNSAFE'') (\<lambda>_.
     bindM (compaction X c cmp (a_of v ''device_records'')) (\<lambda>_.
     bindM (append_entry X cfg c ''compaction'' cmp) (\<lambda>(c, _, r3).
     ret (c, rs @ [r1] @ r2 @ [r3])))))))))"

definition reseed :: "ext \<Rightarrow> config \<Rightarrow> chain \<Rightarrow> auth \<Rightarrow> json \<Rightarrow> (chain \<times> json) tx" where
  "reseed X cfg old a v =
     bindM (lift (require_admin a)) (\<lambda>_.
     bindM (lift (Relay_Wire.fields X v [(''parameters'', ''object''), (''epoch'', ''object''), (''envelopes'', ''array''),
        (''compaction'', ''object''), (''admin_operation'', ''object''), (''device_records'', ''array'')] [])) (\<lambda>_.
     let p = jget v ''parameters''; oid = s_of (jget v ''admin_operation'') ''operation_id'' in
     bindM (lift (validate X p SParameters)) (\<lambda>_.
     bindM (outcomes X (ch_id old) ''reseed'' oid v) (\<lambda>known.
     case known of
       Some r \<Rightarrow> ret (old, r)
     | None \<Rightarrow>
         bindM (reseed_checks X cfg old v) (\<lambda>imported.
         bindM (reseed_chain X cfg old p (im_log imported)) (\<lambda>c.
         bindM (foldM (reseed_device X c) (a_of v ''device_records'') ()) (\<lambda>_.
         bindM (reseed_commit X cfg old v c) (\<lambda>(c, rs).
         let response = jset ''upload_receipts'' (JArr rs) (chain_result X c) in
         bindM (outcome X (ch_id c) ''reseed'' oid v response) (\<lambda>_.
         bindM (delete_rows db_imports_update (\<lambda>r. im_chain r = ch_id c)) (\<lambda>_.
         ret (c, response)))))))))))"

subsection \<open>No certificate comes out of nowhere\<close>

text \<open>
  A device is certified when its own signature verifies and its certificate is signed by the administrator, by a
  device that was stored before the import, or by a device that is certified itself, of the same generation. The
  least such set has no certificates that only support each other.
\<close>

definition cert_ok :: "ext \<Rightarrow> string \<Rightarrow> json \<Rightarrow> bool" where
  "cert_ok X key d \<longleftrightarrow> verify X (jget d ''enrollment'') key CTX_ENROLLMENT = Inr ()
     \<and> verify X d (s_of d ''device_public_key'') CTX_DEVICE_RECORD = Inr ()"

inductive certified :: "ext \<Rightarrow> string \<Rightarrow> (string \<Rightarrow> json option) \<Rightarrow> json \<Rightarrow> bool"
  for X :: ext and adm :: string and known :: "string \<Rightarrow> json option" where
  by_admin: "s_of (jget d ''enrollment'') ''signer_kind'' = ''admin'' \<Longrightarrow> cert_ok X adm d \<Longrightarrow> certified X adm known d"
| by_known: "known (s_of (jget d ''enrollment'') ''signer_device_id'') = Some d2 \<Longrightarrow> n_of d2 ''generation'' = n_of d ''generation'' \<Longrightarrow>
    cert_ok X (s_of d2 ''device_public_key'') d \<Longrightarrow> certified X adm known d"
| by_peer: "certified X adm known d2 \<Longrightarrow> s_of d2 ''device_id'' = s_of (jget d ''enrollment'') ''signer_device_id'' \<Longrightarrow>
    n_of d2 ''generation'' = n_of d ''generation'' \<Longrightarrow> cert_ok X (s_of d2 ''device_public_key'') d \<Longrightarrow> certified X adm known d"

definition stored_device :: "string \<Rightarrow> db \<Rightarrow> string \<Rightarrow> json option" where
  "stored_device chain st dev = (case row_at object_key (chain, ''device'', dev) (db_objects st) of None \<Rightarrow> None | Some r \<Rightarrow> o_body r)"

text \<open>The invariant of the passes: what was verified is certified, and everything else is as it was stored.\<close>

definition staging :: "ext \<Rightarrow> string \<Rightarrow> string \<Rightarrow> db \<Rightarrow> (string \<times> json) list \<Rightarrow> db \<Rightarrow> bool" where
  "staging X chain adm st0 verified st \<longleftrightarrow>
     list_all (\<lambda>(i, d). s_of d ''device_id'' = i \<and> certified X adm (stored_device chain st0) d) verified
   \<and> (\<forall>i. i \<notin> fst ` set verified \<longrightarrow> stored_device chain st i = stored_device chain st0 i)"

lemma signer_key_run:
  assumes "signer_key chain adm verified d st = (Inr (Some k), st')" and "staging X chain adm st0 verified st" and "cert_ok X k d"
  shows "certified X adm (stored_device chain st0) d" and "st' = st"
proof -
  let ?cert = "jget d ''enrollment''"
  let ?sid = "s_of ?cert ''signer_device_id''"
  from assms(1) show "st' = st"
    by (auto simp: signer_key_def bindM_run Let_def split: if_splits option.splits)
  show "certified X adm (stored_device chain st0) d"
  proof (cases "s_of ?cert ''signer_kind'' = ''admin''")
    case True
    with assms(1,3) show ?thesis by (auto simp: signer_key_def Let_def intro: certified.by_admin)
  next
    case dev: False
    show ?thesis
    proof (cases "map_of verified ?sid")
      case (Some sg)
      with dev assms(1) have k: "k = s_of sg ''device_public_key''" "n_of sg ''generation'' = n_of d ''generation''"
        by (auto simp: signer_key_def bindM_run Let_def)
      from Some have "(?sid, sg) \<in> set verified" by (rule map_of_SomeD)
      with assms(2) have "certified X adm (stored_device chain st0) sg" "s_of sg ''device_id'' = ?sid"
        by (auto simp: staging_def list_all_iff)
      then show ?thesis by (rule certified.by_peer) (use k assms(3) in simp_all)
    next
      case None
      with assms(2) have "stored_device chain st ?sid = stored_device chain st0 ?sid"
        by (auto simp: staging_def map_of_eq_None_iff)
      with None dev assms(1,3) show ?thesis
        by (auto simp: signer_key_def bindM_run Let_def stored_device_def split: option.splits if_splits intro!: certified.by_known)
    qed
  qed
qed

lemma put_device_frame:
  assumes "put_object X chain ''device'' d None st = (Inr fresh, st')" and "i \<noteq> s_of d ''device_id''"
  shows "stored_device chain st' i = stored_device chain st i"
proof -
  have oid: "object_id d ''device'' = Some (s_of d ''device_id'')" by (simp add: object_id_def)
  show ?thesis
  proof (cases fresh)
    case True
    with put_object_run(4) [OF assms(1) oid] assms(2) show ?thesis
      by (auto simp: stored_device_def row_at_append object_key_def split: option.splits)
  qed (use put_object_run(2) [OF assms(1) oid] in simp)
qed

lemma stage_device_step:
  assumes "stage_device X chain adm d (verified, todo) st = (Inr (verified', todo'), st')" and "staging X chain adm st0 verified st"
  shows "staging X chain adm st0 verified' st'"
    and "todo' = todo @ [d] \<or> (todo' = todo \<and> certified X adm (stored_device chain st0) d)"
proof -
  from assms(1) obtain key st1 where key: "signer_key chain adm verified d st = (Inr key, st1)"
    by (auto simp: stage_device_def bindM_run)
  have "staging X chain adm st0 verified' st' \<and> (todo' = todo @ [d] \<or> (todo' = todo \<and> certified X adm (stored_device chain st0) d))"
  proof (cases key)
    case None
    from key None have "st1 = st" by (auto simp: signer_key_def bindM_run Let_def split: if_splits option.splits)
    with key None assms show ?thesis by (simp add: stage_device_def bindM_run)
  next
    case (Some k)
    with key assms(1) obtain fresh where ok: "cert_ok X k d" and put: "put_object X chain ''device'' d None st1 = (Inr fresh, st')"
      and acc: "verified' = (s_of d ''device_id'', d) # verified" "todo' = todo"
      by (auto simp: stage_device_def bindM_run map_errM_run cert_ok_def)
    note cert = signer_key_run [OF key [unfolded Some] assms(2) ok]
    have "stored_device chain st' i = stored_device chain st0 i" if "i \<notin> fst ` set verified'" for i
      using put_device_frame [OF put, of i] that assms(2) cert(2) by (auto simp: acc staging_def)
    with cert(1) assms(2) show ?thesis by (auto simp: acc staging_def)
  qed
  then show "staging X chain adm st0 verified' st'"
    "todo' = todo @ [d] \<or> (todo' = todo \<and> certified X adm (stored_device chain st0) d)" by blast+
qed

lemma stage_pass_step:
  assumes "foldM (stage_device X chain adm) ds (verified, todo) st = (Inr (verified', todo'), st')" and "staging X chain adm st0 verified st"
  shows "staging X chain adm st0 verified' st' \<and> (\<forall>d \<in> set ds. d \<in> set todo' \<or> certified X adm (stored_device chain st0) d)
    \<and> set todo \<subseteq> set todo'"
  using assms
proof (induction ds arbitrary: verified todo st)
  case (Cons d ds)
  from Cons.prems(1) obtain v1 t1 st1 where one: "stage_device X chain adm d (verified, todo) st = (Inr (v1, t1), st1)"
    and rest: "foldM (stage_device X chain adm) ds (v1, t1) st1 = (Inr (verified', todo'), st')"
    by (auto simp: bindM_run)
  from Cons.IH [OF rest stage_device_step(1) [OF one Cons.prems(2)]] stage_device_step(2) [OF one Cons.prems(2)]
  show ?case by auto
qed simp

lemma resolve_devices_step:
  assumes "resolve_devices X chain adm ds verified st = (Inr vs, st')" and "staging X chain adm st0 verified st"
  shows "\<forall>d \<in> set ds. certified X adm (stored_device chain st0) d"
  using assms
proof (induction X chain adm ds verified st rule: resolve_devices.induct)
  case (1 X chain adm ds verified st)
  show ?case
  proof (cases "ds = []")
    case False
    with "1.prems"(1) obtain verified' todo st1 where
      pass: "foldM (stage_device X chain adm) ds (verified, []) st = (Inr (verified', todo), st1)" and
      len: "length todo \<noteq> length ds" and rest: "resolve_devices X chain adm todo verified' st1 = (Inr vs, st')"
      by (subst (asm) resolve_devices.simps) (auto split: prod.splits sum.splits if_splits)
    note step = stage_pass_step [OF pass "1.prems"(2)]
    have "\<forall>d \<in> set todo. certified X adm (stored_device chain st0) d"
      using "1.IH" [OF False pass [symmetric] refl refl len rest] step by blast
    with step show ?thesis by blast
  qed simp
qed

text \<open>
  C21: the passes over the certificates of an import end on every input, and when they succeed every device of
  the history is certified: its chain of certificates leads to the administrator or to a device stored before.
\<close>

theorem resolve_devices_certified:
  assumes "resolve_devices X chain adm ds [] st = (Inr vs, st')"
  shows "list_all (certified X adm (stored_device chain st)) ds"
  using resolve_devices_step [OF assms, of st] by (simp add: staging_def list_all_iff)

text \<open>Two devices, the first certified by the second and the second by the administrator.\<close>

definition demo_member :: "string \<Rightarrow> string \<Rightarrow> string \<Rightarrow> json" where
  "demo_member i kind by_id = jobj [(''device_id'', JStr i), (''generation'', JNat 0), (''device_public_key'', JStr demo_b32),
     (''signature'', JStr demo_b64), (''enrollment'', jobj [(''signer_kind'', JStr kind), (''signer_device_id'', JStr by_id),
       (''signature'', JStr demo_b64)])]"

theorem resolve_devices_certified_witness:
  "\<exists>vs st'. resolve_devices demo_fast demo_b32 demo_b32 [demo_member ''d1'' ''device'' ''d2'', demo_member ''d2'' ''admin'' []] [] empty_db
       = (Inr vs, st')
     \<and> certified demo_fast demo_b32 (stored_device demo_b32 empty_db) (demo_member ''d1'' ''device'' ''d2'')
     \<and> map fst vs = [''d1'', ''d2'']"
proof -
  let ?ds = "[demo_member ''d1'' ''device'' ''d2'', demo_member ''d2'' ''admin'' []]"
  have "case resolve_devices demo_fast demo_b32 demo_b32 ?ds [] empty_db of (Inr vs, st') \<Rightarrow> map fst vs = [''d1'', ''d2''] | _ \<Rightarrow> False"
    by code_simp
  then obtain vs st' where run: "resolve_devices demo_fast demo_b32 demo_b32 ?ds [] empty_db = (Inr vs, st')"
    and vs: "map fst vs = [''d1'', ''d2'']" by (auto split: prod.splits sum.splits)
  from resolve_devices_certified [OF run] run vs show ?thesis by auto
qed

subsection \<open>A reseed starts a linked log and goes on with the transparency log\<close>

lemma wps_reseed_object:
  assumes "evolves X cfg c0 st0 (fst acc) st" and "\<And>acc' st'. evolves X cfg c0 st0 (fst acc') st' \<Longrightarrow> Q acc' st'"
  shows "wps (reseed_object X cfg old kind oid acc) Q st"
proof -
  obtain c rs where acc: "acc = (c, rs)" by (cases acc)
  have start: "evolves X cfg c0 st0 c st" using assms(1) acc by simp
  have step: "evolves X cfg c0 st0 c' u \<Longrightarrow> Q (c', rs') u" for c' rs' u using assms(2) [of "(c', rs')"] by simp
  show ?thesis
    unfolding reseed_object_def acc prod.case
    by (intro wp_intros wps_append_evolves [of X cfg c0 st0] wps_register_evolves [of X cfg c0 st0] wps_read_only read_only_basic
        read_only_object start step; ((elim Pair_inject, hypsubst)?; assumption?))
qed

lemma wps_reseed_kind:
  assumes "evolves X cfg c0 st0 (fst acc) st" and "\<And>acc' st'. evolves X cfg c0 st0 (fst acc') st' \<Longrightarrow> Q acc' st'"
  shows "wps (reseed_kind X cfg old kind acc) Q st"
  unfolding reseed_kind_def
  by (intro wp_intros wps_foldM [of "\<lambda>acc. evolves X cfg c0 st0 (fst acc)"] wps_reseed_object [of X cfg c0 st0]
      wps_read_only handler_reads assms; assumption?) 

lemma read_only_reseed [intro, simp]: "read_only (reseed_device X c d u)"
  unfolding reseed_device_def by (intro read_only_bindM read_only_device read_only_basic)

lemma wps_reseed_commit:
  assumes "evolves X cfg c0 st0 c st" and "\<And>c' rs st'. evolves X cfg c0 st0 c' st' \<Longrightarrow> Q (c', rs) st'"
  shows "wps (reseed_commit X cfg old v c) Q st"
proof -
  have kinds: "wps (foldM (reseed_kind X cfg old) ks (c, rs)) Q' u"
    if "evolves X cfg c0 st0 c u" "\<And>c' rs u'. evolves X cfg c0 st0 c' u' \<Longrightarrow> Q' (c', rs) u'" for ks rs Q' u
    by (rule wps_foldM [of "\<lambda>acc. evolves X cfg c0 st0 (fst acc)"]) (use that in \<open>auto intro: wps_reseed_kind\<close>)
  show ?thesis
    unfolding reseed_commit_def Let_def
    by (intro wp_intros kinds wps_append_evolves [of X cfg c0 st0] wps_commit_epoch [of X cfg c0 st0] wps_read_only read_only_basic
        read_only_bundle read_only_compaction assms; ((elim Pair_inject, hypsubst)?; (assumption | rule assms)?))
qed

lemma reseed_chain_run:
  assumes "reseed_chain X cfg old p log_id st = (Inr c, st1)" and "chain_ok X cfg old st" and "s_of p ''chain_id'' = ch_id old"
    and "filter (\<lambda>r. l_chain r = ch_id old \<and> l_log r = log_id) (db_log st) = []"
  shows "chain_ok X cfg c st1" and "ch_id c = ch_id old" and "ch_log_id c = log_id" and "ch_parameters c = p"
    and "audit_rows c st1 = audit_rows old st" and "others ci st1 = others ci st"
proof -
  from assms(1,3) obtain h n ids where
    h: "initial_hash X CTX_LOG (ch_id old) log_id None = Inr h" and
    c: "c = \<lparr>ch_id = ch_id old, ch_parameters = p, ch_epoch = ch_epoch old, ch_log_id = log_id, ch_head_seq = 0, ch_head_hash = h,
      ch_min_available_seq = 1, ch_boundary_compaction_id = None, ch_transparency_id = ch_transparency_id old,
      ch_transparency_index = ch_transparency_index old, ch_transparency_hash = ch_transparency_hash old, ch_writable = True,
      ch_notice_id = n\<rparr>" and st1: "st1 = st\<lparr>db_ids := ids\<rparr>"
    by (auto simp: reseed_chain_def chain_new_def bindM_run Let_def)
  show "ch_id c = ch_id old" "ch_log_id c = log_id" "ch_parameters c = p" "others ci st1 = others ci st"
    and audit: "audit_rows c st1 = audit_rows old st"
    by (simp_all add: c st1 audit_rows_def others_def)
  have "log_rows c st1 = []" using assms(4) by (simp add: c st1 log_rows_def)
  with h have "log_ok X c st1" by (simp add: log_ok_def c)
  moreover have "audit_ok X cfg c st1" using assms(2) audit_ok_cong [OF audit] by (simp add: chain_ok_def c)
  ultimately show "chain_ok X cfg c st1" by (simp add: chain_ok_def)
qed

text \<open>
  C20: a committed reseed leaves the chain with a complete, linked data log under the log identifier of its
  import and under the new parameters, and with the transparency log of the old chain extended, so that a reader's
  earlier heads stay verifiable; the rows of other chains are not touched.
\<close>

theorem reseed_continues_audit:
  assumes "reseed X cfg old a v st = (Inr (c, response), st')"
    and "outcomes X (ch_id old) ''reseed'' (s_of (jget v ''admin_operation'') ''operation_id'') v st = (Inr None, st)"
    and "find (\<lambda>r. im_chain r = ch_id old) (db_imports st) = Some imported" and "chain_ok X cfg old st"
    and "filter (\<lambda>r. l_chain r = ch_id old \<and> l_log r = im_log imported) (db_log st) = []"
  shows "chain_ok X cfg c st' \<and> ch_id c = ch_id old \<and> ch_log_id c = im_log imported \<and> ch_parameters c = jget v ''parameters''
    \<and> n_of (ch_parameters c) ''generation'' = generation old + 1
    \<and> (\<exists>rs. audit_rows c st' = audit_rows old st @ rs) \<and> others (ch_id old) st' = others (ch_id old) st"
proof -
  let ?p = "jget v ''parameters''" and ?oid = "s_of (jget v ''admin_operation'') ''operation_id''"
  have ro: "read_only (reseed_checks X cfg old v)"
    unfolding reseed_checks_def Let_def by (intro read_only_bindM read_only_basic read_only_checks read_only_select)
  from assms(1,2) obtain st0 im st1 c1 st1' st2 rs st3 where
    checks: "reseed_checks X cfg old v st = (Inr im, st0)" and
    new: "reseed_chain X cfg old ?p (im_log im) st0 = (Inr c1, st1)" and
    devs: "foldM (reseed_device X c1) (a_of v ''device_records'') () st1 = (Inr (), st1')" and
    commit: "reseed_commit X cfg old v c1 st1' = (Inr (c, rs), st2)" and
    out: "outcome X (ch_id c) ''reseed'' ?oid v response st2 = (Inr (), st3)" and
    del: "delete_rows db_imports_update (\<lambda>r. im_chain r = ch_id c) st3 = (Inr (), st')"
    by (auto simp: reseed_def bindM_run Let_def)
  have st0: "st0 = st" using read_onlyD [OF ro checks] .
  have "st1' = st1" using read_onlyD [OF read_only_foldM [OF read_only_reseed] devs] .
  note commit = commit [unfolded this]
  from checks assms(3) st0 have im: "im = imported" and p: "s_of ?p ''chain_id'' = ch_id old" "n_of ?p ''generation'' = generation old + 1"
    by (auto simp: reseed_checks_def bindM_run Let_def)
  note chain = reseed_chain_run [OF new [unfolded st0 im] assms(4) p(1) assms(5)]
  have ev2: "evolves X cfg c1 st1 c st2"
    using wp_run [OF wps_reseed_commit [OF evolves_refl, where Q = "\<lambda>x. evolves X cfg c1 st1 (fst x)"] commit] by simp
  have ev3: "evolves X cfg c1 st1 c st3"
    by (rule wp_run [OF wps_outcome_evolves [OF ev2, where Q = "\<lambda>_. evolves X cfg c1 st1 c"] out])
  have "evolves X cfg c1 st1 c st'"
    using del by (intro evolves_frame [OF ev3]) (auto simp: delete_rows_def)
  with chain p(2) show ?thesis by (auto simp: evolves_def)
qed

end
