(* ===== verification/Relay_Reseed_Demo.thy ===== *)
theory Relay_Reseed_Demo
  imports Relay_Import
begin

text \<open>
  A complete reseed, evaluated: the concrete request and chain on which the theorem about
  \<^verbatim>\<open>reseed\<close> applies.
\<close>

text \<open>
  A reseed of a chain without log. Its device carries metadata of 1040 bytes, which the instance below
  encodes in one character, so that the run can be evaluated.
\<close>

definition meta_dec :: "string \<Rightarrow> bytes option" where
  "meta_dec t = (if t = ''M'' then Some (replicate 1040 CHR ''!'') else demo_dec t)"

definition meta_enc :: "bytes \<Rightarrow> string" where
  "meta_enc b = (case b of [] \<Rightarrow> [] | ch # cs \<Rightarrow> if ch = CHR ''!'' then ''M'' else demo_enc b)"

definition demo_meta :: ext where
  "demo_meta = demo_fast\<lparr>x_b64dec := meta_dec, x_b64enc := meta_enc\<rparr>"

definition demo_policy :: json where
  "demo_policy = jobj [(''metadata_profile'', JStr ''private''), (''allow_device_chain_delete'', JBool False),
     (''allow_peer_enrollment'', JBool False), (''allow_device_rotation'', JBool False), (''epoch_retention'', JStr ''retain''),
     (''epoch_window_ms'', JNat 1), (''scheduled_rotation_ms'', JNat 0)]"

definition demo_record :: "nat \<Rightarrow> json" where
  "demo_record gen = jobj [(''version'', JStr ''3.0''), (''chain_id'', JStr demo_b32), (''generation'', JNat gen), (''device_id'', JStr ''d''),
     (''device_public_key'', JStr demo_b32), (''device_kex_public_key'', JStr demo_b32), (''meta_epoch'', JNat gen),
     (''meta_nonce'', JStr ''N''), (''encrypted_device_meta'', JStr ''M''), (''signature'', JStr demo_b64),
     (''enrollment'', jobj [(''chain_id'', JStr demo_b32), (''generation'', JNat gen), (''certificate_id'', JStr ''c''), (''device_id'', JStr ''d''),
       (''device_public_key'', JStr demo_b32), (''device_kex_public_key'', JStr demo_b32), (''signer_kind'', JStr ''admin''),
       (''signer_device_id'', JNull), (''request_hash'', JNull), (''approved_at_ms'', JNat 0), (''signature'', JStr demo_b64)])]"

definition demo_bundle_epoch :: "nat \<Rightarrow> string \<Rightarrow> json" where
  "demo_bundle_epoch i reason = jobj [(''chain_id'', JStr demo_b32), (''generation'', JNat i), (''epoch'', JNat i),
     (''previous_epoch_hash'', if i = 0 then JNull else JStr demo_b32), (''epoch_commitment'', JStr demo_b32), (''reason'', JStr reason),
     (''signer_kind'', JStr ''admin''), (''signer_device_id'', JNull), (''members'', JArr [JStr ''d'']), (''revoked_device_ids'', JArr []),
     (''recovery_envelope_hash'', JStr demo_b32), (''signature'', JStr demo_b64)]"

definition demo_bundle_envelope :: "nat \<Rightarrow> bool \<Rightarrow> json" where
  "demo_bundle_envelope i dev = jobj [(''envelope_id'', JStr (if dev then ''e1'' else ''e2'')), (''chain_id'', JStr demo_b32), (''generation'', JNat i),
     (''epoch'', JNat i), (''previous_epoch_hash'', if i = 0 then JNull else JStr demo_b32), (''epoch_commitment'', JStr demo_b32),
     (''recipient_kind'', JStr (if dev then ''device'' else ''recovery'')), (''recipient_device_id'', if dev then JStr ''d'' else JNull),
     (''recipient_key_hash'', if dev then JStr demo_b32 else JNull), (''signer_kind'', JStr ''admin''), (''signer_device_id'', JNull),
     (''enc'', if dev then JStr demo_b32 else JNull), (''nonce'', if dev then JNull else JStr ''N''),
     (''ciphertext'', JStr ''C''), (''signature'', JStr demo_b64)]"

definition demo_new_device :: json where
  "demo_new_device = demo_record 1"

definition demo_reseed :: json where
  "demo_reseed = jobj [
     (''parameters'', jobj [(''version'', JStr ''3.0''), (''chain_id'', JStr demo_b32), (''admin_public_key'', JStr demo_b32), (''generation'', JNat 1),
        (''previous_parameters_hash'', JStr demo_b32), (''policy'', demo_policy), (''signature'', JStr demo_b64)]),
     (''epoch'', demo_bundle_epoch 1 ''reseed''),
     (''envelopes'', JArr [demo_bundle_envelope 1 True, demo_bundle_envelope 1 False]),
     (''compaction'', jobj [(''compaction_id'', JStr ''k''), (''chain_id'', JStr demo_b32), (''generation'', JNat 1), (''device_id'', JStr ''d''),
        (''log_id'', JStr ''log2''), (''covered_through_seq'', JNat 0), (''covered_log_hash'', JStr demo_b32), (''epoch_hash'', JStr demo_b32),
        (''snapshot_parts'', JArr [jobj [(''record_id'', JStr ''p''), (''record_hash'', JStr demo_b32)]]), (''state_sha256'', JStr demo_b32),
        (''signature'', JStr demo_b64)]),
     (''admin_operation'', jobj [(''operation_id'', JStr ''op''), (''chain_id'', JStr demo_b32), (''generation'', JNat 0), (''action'', JStr ''reseed''),
        (''expected_parameters_hash'', JStr demo_b32), (''expected_epoch_hash'', JStr demo_b32), (''target_hash'', JStr demo_b32),
        (''created_at_ms'', JNat 0), (''signature'', JStr demo_b64)]),
     (''device_records'', JArr [demo_new_device])]"

definition demo_reseed_db :: db where
  "demo_reseed_db = empty_db\<lparr>db_imports := [\<lparr>im_chain = demo_b32, im_log = ''log2'', im_parameters = ch_parameters demo_open_chain,
       im_epoch = ch_epoch demo_open_chain\<rparr>],
     db_objects := [\<lparr>o_chain = demo_b32, o_kind = ''snapshot_part'', o_id = ''p'', o_hash = demo_b32,
       o_body = Some (jobj [(''record_id'', JStr ''p''), (''generation'', JNat 1), (''epoch'', JNat 1), (''device_id'', JStr ''d''),
         (''signature'', JStr demo_b64)]), o_log = None, o_seq = None\<rparr>]\<rparr>"

definition demo_admin :: auth where
  "demo_admin = \<lparr>a_token = JNull, a_device = None\<rparr>"

lemma meta_decode: "decode demo_meta ''M'' None = Some (replicate 1040 CHR ''!'')"
proof -
  have "replicate 1040 CHR ''!'' = CHR ''!'' # replicate 1039 CHR ''!''" by (simp add: numeral_eq_Suc)
  then have "meta_enc (replicate 1040 CHR ''!'') = ''M''" by (simp only: meta_enc_def list.case) simp
  then show ?thesis
    by (simp add: decode_Some_iff demo_meta_def meta_dec_def b64_char_def ascii_alnum_def ascii_upper_def ascii_lower_def ascii_digit_def in_range_def)
qed

lemma demo_record_valid: "validate_device demo_meta demo_new_device = Inr ()"
proof -
  have "signed demo_meta demo_new_device
       [(''version'', ''3.0''), (''chain_id'', ''b32''), (''generation'', ''u32''), (''device_id'', ''uuid''),
        (''device_public_key'', ''b32''), (''device_kex_public_key'', ''b32''), (''meta_epoch'', ''u32''),
        (''meta_nonce'', ''b24''), (''encrypted_device_meta'', ''string''), (''enrollment'', ''object'')] = Inr ()" by code_simp
  moreover have "validate_certificate demo_meta (jget demo_new_device ''enrollment'') = Inr ()" by code_simp
  moreover have "s_of demo_new_device ''encrypted_device_meta'' = ''M''" by code_simp
  moreover have "rall (\<lambda>k. reject (jget demo_new_device k \<noteq> jget (jget demo_new_device ''enrollment'') k) ''ENROLLMENT_CERTIFICATE_INVALID'')
       [''chain_id'', ''generation'', ''device_id'', ''device_public_key'', ''device_kex_public_key''] = Inr ()" by code_simp
  ultimately show ?thesis by (simp add: validate_device_def meta_decode)
qed

definition demo_new_chain :: "chain \<times> db" where
  "demo_new_chain = (case reseed_chain demo_meta demo_limits_cfg demo_open_chain (jget demo_reseed ''parameters'') ''log2'' demo_reseed_db of
     (Inr c, st) \<Rightarrow> (c, st) | (Inl e, st) \<Rightarrow> (demo_open_chain, st))"

lemma demo_reseed_device:
  "reseed_device demo_meta (fst demo_new_chain) demo_new_device () (snd demo_new_chain) = (Inr (), snd demo_new_chain)"
proof -
  let ?d = "demo_new_device" and ?c = "fst demo_new_chain" and ?st = "snd demo_new_chain"
  have "bound ?d ?c = Inr ()" "verify demo_meta ?d (s_of ?d ''device_public_key'') CTX_DEVICE_RECORD = Inr ()"
    "jget (jget ?d ''enrollment'') ''request_hash'' = JNull" "s_of (jget ?d ''enrollment'') ''signer_kind'' = ''admin''" by code_simp+
  moreover have "n_of ?d ''meta_epoch'' = n_of (ch_epoch ?c) ''epoch'' + 1" by code_simp
  moreover have "fst (device_certificate demo_meta ?c ?d None ?st) = Inr ()" by code_simp
  then have "device_certificate demo_meta ?c ?d None ?st = (Inr (), ?st)"
    using read_only_checks(2) [of demo_meta ?c ?d None] by (simp add: read_only_def prod_eq_iff)
  moreover have "row_at object_key (ch_id ?c, ''device'', s_of ?d ''device_id'') (db_objects ?st) = None"
    "filter (\<lambda>r. o_kind r = ''device'') (db_objects ?st) = []" by code_simp+
  moreover from this(2) have "filter (\<lambda>r. o_chain r = ch_id ?c \<and> o_kind r = ''device'' \<and> p r \<and> q r) (db_objects ?st) = []" for p q
    by (auto simp: filter_empty_conv)
  ultimately show ?thesis
    by (auto simp: reseed_device_def device_def bindM_run demo_record_valid Let_def)
qed

theorem reseed_continues_audit_witness:
  "\<exists>c response st'. reseed demo_meta demo_limits_cfg demo_open_chain demo_admin demo_reseed demo_reseed_db = (Inr (c, response), st')
     \<and> chain_ok demo_meta demo_limits_cfg c st' \<and> ch_log_id c = ''log2'' \<and> generation c = 1 \<and> ch_head_seq c = 7"
proof -
  let ?oid = "s_of (jget demo_reseed ''admin_operation'') ''operation_id''"
  let ?im = "\<lparr>im_chain = demo_b32, im_log = ''log2'', im_parameters = ch_parameters demo_open_chain, im_epoch = ch_epoch demo_open_chain\<rparr>"
  let ?rest = "bindM (reseed_commit demo_meta demo_limits_cfg demo_open_chain demo_reseed (fst demo_new_chain)) (\<lambda>(c, rs).
         let response = jset ''upload_receipts'' (JArr rs) (chain_result demo_meta c) in
         bindM (outcome demo_meta (ch_id c) ''reseed'' ?oid demo_reseed response) (\<lambda>_.
         bindM (delete_rows db_imports_update (\<lambda>r. im_chain r = ch_id c)) (\<lambda>_.
         ret (c, response))))"
  have "case ?rest (snd demo_new_chain) of (Inr (c, response), st') \<Rightarrow> ch_head_seq c = 7 | _ \<Rightarrow> False" by code_simp
  then obtain c response st' where rest: "?rest (snd demo_new_chain) = (Inr (c, response), st')" and head: "ch_head_seq c = 7"
    by (auto split: prod.splits sum.splits)
  have checks: "reseed_checks demo_meta demo_limits_cfg demo_open_chain demo_reseed demo_reseed_db = (Inr ?im, demo_reseed_db)"
  proof -
    have "fst (reseed_checks demo_meta demo_limits_cfg demo_open_chain demo_reseed demo_reseed_db) = Inr ?im" by code_simp
    moreover have "read_only (reseed_checks demo_meta demo_limits_cfg demo_open_chain demo_reseed)"
      unfolding reseed_checks_def Let_def by (intro read_only_bindM read_only_basic read_only_checks read_only_select)
    ultimately show ?thesis by (simp add: read_only_def prod_eq_iff)
  qed
  have new: "reseed_chain demo_meta demo_limits_cfg demo_open_chain (jget demo_reseed ''parameters'') ''log2'' demo_reseed_db
      = (Inr (fst demo_new_chain), snd demo_new_chain)"
  proof -
    let ?run = "reseed_chain demo_meta demo_limits_cfg demo_open_chain (jget demo_reseed ''parameters'') ''log2'' demo_reseed_db"
    have "is_ok (fst ?run)" by code_simp
    then obtain c0 s0 where "?run = (Inr c0, s0)" by (cases ?run) (auto simp: is_ok_iff)
    then show ?thesis by (simp add: demo_new_chain_def)
  qed
  have devs: "foldM (reseed_device demo_meta (fst demo_new_chain)) (a_of demo_reseed ''device_records'') () (snd demo_new_chain)
      = (Inr (), snd demo_new_chain)"
  proof -
    have "a_of demo_reseed ''device_records'' = [demo_new_device]" by code_simp
    then show ?thesis by (simp add: bindM_run demo_reseed_device)
  qed
  have first: "require_admin demo_admin = Inr ()" "validate demo_meta (jget demo_reseed ''parameters'') SParameters = Inr ()"
    "Relay_Wire.fields demo_meta demo_reseed [(''parameters'', ''object''), (''epoch'', ''object''), (''envelopes'', ''array''),
        (''compaction'', ''object''), (''admin_operation'', ''object''), (''device_records'', ''array'')] [] = Inr ()" by code_simp+
  have known: "outcomes demo_meta (ch_id demo_open_chain) ''reseed'' ?oid demo_reseed demo_reseed_db = (Inr None, demo_reseed_db)"
    by (simp add: outcomes_def bindM_def demo_reseed_db_def empty_db_def)
  have run: "reseed demo_meta demo_limits_cfg demo_open_chain demo_admin demo_reseed demo_reseed_db = (Inr (c, response), st')"
    unfolding reseed_def Let_def bindM_run
    using first known checks new devs rest [unfolded Let_def bindM_run] by (auto simp: bindM_run)
  have imp: "find (\<lambda>r. im_chain r = ch_id demo_open_chain) (db_imports demo_reseed_db) = Some ?im" by code_simp
  have ok: "chain_ok demo_meta demo_limits_cfg demo_open_chain demo_reseed_db"
  proof -
    have "initial_hash demo_meta CTX_LOG (ch_id demo_open_chain) (ch_log_id demo_open_chain) None = Inr (ch_head_hash demo_open_chain)"
      "initial_hash demo_meta CTX_TLOG (ch_id demo_open_chain) (ch_transparency_id demo_open_chain) (Some (cfg_key_id demo_limits_cfg))
         = Inr (ch_transparency_hash demo_open_chain)" by code_simp+
    then show ?thesis
      by (simp add: chain_ok_def log_ok_def audit_ok_def log_rows_def audit_rows_def demo_reseed_db_def empty_db_def
          demo_open_chain_def demo_chain_def)
  qed
  have "filter (\<lambda>r. l_chain r = ch_id demo_open_chain \<and> l_log r = im_log ?im) (db_log demo_reseed_db) = []"
    by (simp add: demo_reseed_db_def empty_db_def)
  from reseed_continues_audit [OF run known imp ok this] have "chain_ok demo_meta demo_limits_cfg c st'" "ch_log_id c = ''log2''"
    "generation c = generation demo_open_chain + 1" by (auto simp: generation_def)
  moreover have "generation demo_open_chain = 0" by code_simp
  ultimately show ?thesis using run head by auto
qed

end
