(* ===== verification/Relay_Sync.thy ===== *)
theory Relay_Sync
  imports Relay_Export Relay_Import "HOL-Library.AList"
begin

text \<open>
  \<^verbatim>\<open>src/api/sync.rs\<close>: the endpoint catalogue, the dispatch of a request to its handler, and the handling
  of a request from its headers to the response: the public documents, the token, the write guard, the
  uploads, the permits of concurrent transfers, the transaction around a handler and the audit entries
  of a rejected request.
\<close>

subsection \<open>Requests and responses\<close>

text \<open>
  A header is absent, present but not text, or a string. \<open>hq_timeout\<close>: the body did not arrive within
  thirty seconds.
\<close>

record http_request =
  hq_method :: string
  hq_path :: string
  hq_query :: "string option"
  hq_encoding :: "string option option"
  hq_content_type :: "string option option"
  hq_authorization :: "string option option"
  hq_body :: bytes
  hq_timeout :: bool
  hq_source :: string

text \<open>
  A body is a sequence of bytes, or a problem document that \<^verbatim>\<open>axum::Json\<close> serialises. A leased
  response (\<^verbatim>\<open>LeasedBody\<close>) carries the transfer permit of a chain.
\<close>

datatype http_body = Bytes bytes | Problem json

record response =
  rs_status :: nat
  rs_type :: string
  rs_body :: http_body
  rs_retry :: "nat option"
  rs_allow :: "string option"
  rs_date :: nat
  rs_leased :: "string option"

definition VENDOR_MEDIA_TYPE :: string where
  "VENDOR_MEDIA_TYPE = ''application/vnd.palleria.sync.v3+json''"

definition EXPORT_MEDIA_TYPE :: string where
  "EXPORT_MEDIA_TYPE = ''application/vnd.palleria.sync.export.v3+jsonl''"

definition raw_response :: "nat \<Rightarrow> string \<Rightarrow> bytes \<Rightarrow> response" where
  "raw_response code ct b =
     \<lparr>rs_status = code, rs_type = ct, rs_body = Bytes b, rs_retry = None, rs_allow = None, rs_date = 0, rs_leased = None\<rparr>"

definition json_response :: "ext \<Rightarrow> nat \<Rightarrow> json \<Rightarrow> response" where
  "json_response X code v = raw_response code VENDOR_MEDIA_TYPE (canonicalize_json X v)"

definition error_response :: "ext \<Rightarrow> failure \<Rightarrow> response tx" where
  "error_response X f =
     (case f of
        Panic \<Rightarrow> lift (Inl Panic)
      | Err code ctx \<Rightarrow>
          bindM (now X) (\<lambda>t.
          bindM (lift (unwrap (into_response X t code ctx))) (\<lambda>(code, doc, again).
          ret \<lparr>rs_status = code, rs_type = ''application/problem+json'', rs_body = Problem doc, rs_retry = again,
               rs_allow = None, rs_date = 0, rs_leased = None\<rparr>)))"

subsection \<open>The endpoint catalogue\<close>

record Endpoint =
  ep_route :: string
  ep_chain :: string
  ep_param :: string
  ep_allow :: string

text \<open>\<^verbatim>\<open>allow.split(", ")\<close>\<close>

fun split_methods :: "string \<Rightarrow> string \<Rightarrow> string list" where
  "split_methods acc [] = [acc]"
| "split_methods acc [a] = [acc @ [a]]"
| "split_methods acc (a # b # t) =
     (if a = CHR '','' \<and> b = CHR '' '' then acc # split_methods [] t else split_methods (acc @ [a]) (b # t))"

definition by_method :: "string \<Rightarrow> string \<Rightarrow> string \<Rightarrow> string \<Rightarrow> string" where
  "by_method m method yes no = (if method = m then yes else no)"

text \<open>The arms of the \<^verbatim>\<open>match\<close> by the number of path segments after the first, \<^verbatim>\<open>chains\<close>.\<close>

definition chain_route :: "string \<Rightarrow> string \<Rightarrow> (string \<times> string \<times> string) option" where
  "chain_route method x =
     (if x = ''parameters'' then Some (by_method ''PUT'' method ''reseed'' ''parameters_get'', [], ''GET, PUT'')
      else if x = ''devices'' then Some (''devices'', [], ''GET'')
      else if x = ''records'' then Some (by_method ''POST'' method ''records_post'' ''records_get'', [], ''GET, POST'')
      else if x = ''enrollment-offers'' then Some (''offer'', [], ''POST'')
      else if x = ''enrollment-requests'' then Some (by_method ''POST'' method ''request'' ''requests_get'', [], ''GET, POST'')
      else if x = ''epochs'' then Some (by_method ''POST'' method ''epochs_post'' ''epochs_get'', [], ''GET, POST'')
      else if x = ''log'' then Some (''log'', [], ''GET'')
      else if x = ''snapshots'' then Some (by_method ''POST'' method ''snapshot'' ''snapshots_get'', [], ''GET, POST'')
      else if x = ''export'' then Some (''export'', [], ''GET'')
      else if x = ''relay-notice'' then Some (''notice'', [], ''GET'')
      else if x = ''deletion'' then Some (''deletion'', [], ''GET'')
      else None)"

definition item_route :: "string \<Rightarrow> string \<Rightarrow> (string \<times> string \<times> string) option" where
  "item_route x y =
     (if x = ''devices'' \<and> y = ''enroll'' then Some (''enroll'', [], ''POST'')
      else if x = ''records'' \<and> y = ''repair'' then Some (''repair'', [], ''POST'')
      else if x = ''epochs'' then Some (''epoch_get'', y, ''GET'')
      else if x = ''log'' \<and> y = ''head'' then Some (''head'', [], ''GET'')
      else if x = ''log'' \<and> y = ''prune'' then Some (''prune'', [], ''POST'')
      else if x = ''snapshots'' \<and> y = ''parts'' then Some (''parts_post'', [], ''POST'')
      else if x = ''snapshots'' then Some (''snapshot_get'', y, ''GET'')
      else if x = ''receipts'' then Some (''receipt'', y, ''GET'')
      else if x = ''transparency'' \<and> y = ''head'' then Some (''transparency_head'', [], ''GET'')
      else if x = ''transparency'' \<and> y = ''entries'' then Some (''transparency'', [], ''GET'')
      else None)"

definition action_route :: "string \<Rightarrow> string \<Rightarrow> string \<Rightarrow> (string \<times> string \<times> string) option" where
  "action_route x y z =
     (if x = ''devices'' \<and> z = ''revoke'' then Some (''revoke'', y, ''POST'')
      else if x = ''devices'' \<and> z = ''envelopes'' then Some (''own_envelopes'', y, ''GET'')
      else if x = ''enrollment-requests'' \<and> z = ''approve'' then Some (''approve'', y, ''POST'')
      else if x = ''enrollment-requests'' \<and> z = ''reject'' then Some (''reject'', y, ''POST'')
      else if x = ''epochs'' \<and> z = ''recovery-envelope'' then Some (''recovery'', y, ''GET'')
      else if x = ''epochs'' \<and> z = ''envelopes'' then Some (''envelopes_post'', y, ''POST'')
      else if x = ''snapshots'' \<and> y = ''parts'' then Some (''part_get'', z, ''GET'')
      else None)"

text \<open>Route, chain, parameter and allowed methods of a path.\<close>

definition route_of :: "string list \<Rightarrow> string \<Rightarrow> (string \<times> string \<times> string \<times> string) option" where
  "route_of parts method =
     (case parts of
        [] \<Rightarrow> None
      | [p] \<Rightarrow> if p = ''health'' then Some (''health'', [], [], ''GET'')
               else if p = ''chains'' then Some (''genesis'', [], [], ''POST'') else None
      | p # c # rest \<Rightarrow>
          if p \<noteq> ''chains'' then None
          else (case rest of
            [] \<Rightarrow> if c = ''import'' then Some (''import'', [], [], ''POST'') else Some (''delete'', c, [], ''DELETE'')
          | [x] \<Rightarrow> map_option (\<lambda>(r, d, al). (r, c, d, al)) (chain_route method x)
          | [x, y] \<Rightarrow> map_option (\<lambda>(r, d, al). (r, c, d, al)) (item_route x y)
          | [x, y, z] \<Rightarrow> map_option (\<lambda>(r, d, al). (r, c, d, al)) (action_route x y z)
          | [x, y, z, w] \<Rightarrow> if x = ''devices'' \<and> z = ''keys'' \<and> w = ''ack'' then Some (''ack'', c, y, ''POST'') else None
          | _ \<Rightarrow> None))"

definition numeric_routes :: "string list" where
  "numeric_routes = [''epoch_get'', ''recovery'', ''envelopes_post'', ''receipt'']"

text \<open>An empty parameter is left as it is.\<close>

definition parameter_of :: "ext \<Rightarrow> string \<Rightarrow> string \<Rightarrow> string res" where
  "parameter_of X route param =
     (if param = [] then Inr param
      else if route \<in> set numeric_routes then
        rbind (decimal param (if route = ''receipt'' then 1 else 0) (if route = ''receipt'' then MAX_INTEGER else u32_max)) (\<lambda>n.
        Inr (show_nat n))
      else if \<not> uuid X param then Inl (err ''INVALID_FIELD'')
      else Inr param)"

definition endpoint :: "ext \<Rightarrow> string \<Rightarrow> string \<Rightarrow> Endpoint res" where
  "endpoint X path method =
     rbind (ok_or ''ENDPOINT_NOT_FOUND'' (strip_prefix ''/pallasync/v3/'' path)) (\<lambda>rest.
     rbind (ok_or ''ENDPOINT_NOT_FOUND'' (route_of (split_on CHR ''/'' rest) method)) (\<lambda>(route, chain, param, allow).
     rbind (reject (method \<notin> set (split_methods [] allow)) ''METHOD_NOT_ALLOWED'') (\<lambda>_.
     rbind (reject (chain \<noteq> [] \<and> decode X chain (Some 32) = None) ''INVALID_FIELD'') (\<lambda>_.
     rbind (parameter_of X route param) (\<lambda>parameter.
     Inr \<lparr>ep_route = route, ep_chain = chain, ep_param = parameter, ep_allow = allow\<rparr>)))))"

subsection \<open>Dispatch\<close>

definition filtered_routes :: "string list" where
  "filtered_routes = [''devices'', ''epochs_get'', ''own_envelopes'', ''snapshots_get'', ''requests_get'', ''records_get'',
     ''log'', ''export'', ''transparency'', ''receipt'']"

text \<open>\<^verbatim>\<open>requests\<close>: the enrollment requests of the own offers, as of the version the listing began with.\<close>

definition request_rows :: "chain \<Rightarrow> auth \<Rightarrow> Page \<Rightarrow> db \<Rightarrow> offer_row list" where
  "request_rows c a p st =
     (let version = n_of (pg_extra p) ''offer_version'';
          mine = filter (\<lambda>h. f_chain (snd h) = ch_id c) (db_offer_history st);
          latest = filter (\<lambda>h. fst h = max_id (\<lambda>r. f_id r = f_id (snd h)) (filter (\<lambda>g. fst g \<le> version) mine)) mine;
          shown = filter (\<lambda>r. f_id r > pg_key p \<and> f_request r \<noteq> None \<and> jget (f_offer r) ''generation'' = JNat (generation c)
            \<and> (jget (f_offer r) ''offering_device_id'' = JStr (case a_device a of None \<Rightarrow> [] | Some d \<Rightarrow> d) \<or> admin a))
            (map snd latest) in
      take (pg_limit p + 1) (sort_key f_id shown))"

definition request_item :: "ext \<Rightarrow> offer_row \<Rightarrow> json" where
  "request_item X r =
     (let request = (case f_request r of None \<Rightarrow> JNull | Some v \<Rightarrow> v) in
      jobj [(''request_hash'', JStr (object_hash X request)), (''request'', request), (''status'', JStr (f_status r)),
        (''offering_device_id'', jget (f_offer r) ''offering_device_id'')])"

definition requests :: "ext \<Rightarrow> config \<Rightarrow> chain \<Rightarrow> auth \<Rightarrow> query_list \<Rightarrow> json tx" where
  "requests X cfg c a q =
     bindM (lift (allowed q [''cursor'', ''limit''])) (\<lambda>_.
     bindM (page X cfg c ''requests_get'' q (jobj [(''device_id'', jopt JStr (a_device a))])) (\<lambda>p.
     bindM (gets (request_rows c a p)) (\<lambda>rows.
     let has_more = length rows > pg_limit p; items = take (pg_limit p) rows;
         p = (if items = [] then p else p\<lparr>pg_key := f_id (last items)\<rparr>) in
     bindM (next_cursor X cfg p has_more) (\<lambda>token.
     ret (jobj [(''items'', JArr (map (request_item X) items)), (''next_cursor'', jopt JStr token), (''has_more'', JBool has_more),
       (''log_id'', JStr (ch_log_id (pg_cut p))), (''generation'', JNat (generation (pg_cut p))),
       (''head_seq'', JNat (ch_head_seq (pg_cut p)))])))))"

definition parameters_answer :: "ext \<Rightarrow> config \<Rightarrow> chain \<Rightarrow> json tx" where
  "parameters_answer X cfg c =
     bindM (now X) (\<lambda>t.
     bindM (gets (used X (ch_id c))) (\<lambda>u.
     ret (jobj [(''parameters'', ch_parameters c), (''parameters_hash'', JStr (parameters_hash X c)),
       (''epoch_hash'', JStr (epoch_hash X c)), (''log_id'', JStr (ch_log_id c)), (''generation'', JNat (generation c)),
       (''head_seq'', JNat (ch_head_seq c)), (''head_hash'', JStr (ch_head_hash c)), (''server_time_ms'', JNat t),
       (''quota'', jobj [(''used_bytes'', JNat u), (''max_bytes'', jopt JNat (cfg_max_bytes cfg))])])))"

definition notice_answer :: "ext \<Rightarrow> chain \<Rightarrow> json tx" where
  "notice_answer X c =
     bindM (select_opt db_notices (\<lambda>r. nt_chain r = ch_id c)) (\<lambda>row.
     case row of
       Some r \<Rightarrow> ret (nt_notice r)
     | None \<Rightarrow>
         bindM (now X) (\<lambda>t.
         ret (jobj [(''shutdown_at_ms'', JNull), (''migration_origin'', JNull), (''notice_id'', JStr (ch_notice_id c)),
           (''server_time_ms'', JNat t)])))"

definition recovery_answer :: "chain \<Rightarrow> auth \<Rightarrow> string \<Rightarrow> json tx" where
  "recovery_answer c a param =
     bindM (lift (map_err ''ENVELOPE_ACCESS_DENIED'' (require_admin a))) (\<lambda>_.
     bindM (lift (unwrap (parse_u64 param))) (\<lambda>n.
     bindM (expired c n) (\<lambda>ex.
     bindM (rejectM ex ''HISTORY_KEY_EXPIRED'') (\<lambda>_.
     bindM (object (ch_id c) ''epoch'' param) (\<lambda>b.
     bindM (lift (ok_or ''EPOCH_NOT_FOUND'' b)) (\<lambda>epoch.
     bindM (select_opt db_objects (\<lambda>r. o_chain r = ch_id c \<and> o_kind r = ''envelope''
        \<and> o_hash r = s_of epoch ''recovery_envelope_hash'')) (\<lambda>row.
     bindM (lift (ok_or ''ENVELOPE_NOT_FOUND'' (case row of None \<Rightarrow> None | Some r \<Rightarrow> o_body r))) (\<lambda>envelope.
     ret (jobj [(''envelope'', envelope)])))))))))"

definition part_answer :: "chain \<Rightarrow> string \<Rightarrow> json tx" where
  "part_answer c param =
     bindM (object (ch_id c) ''snapshot_part'' param) (\<lambda>b.
     bindM (lift (ok_or ''SNAPSHOT_PART_NOT_FOUND'' b)) (\<lambda>record.
     bindM (rejectM (n_of record ''generation'' > generation c) ''SNAPSHOT_PART_NOT_FOUND'') (\<lambda>_.
     bindM (receipt (ch_id c) ''snapshot_part'' param) (\<lambda>r.
     ret (jobj [(''record'', record), (''upload_receipt'', r)])))))"

text \<open>The receipt of a number, joined with its log entry.\<close>

definition receipt_answer :: "ext \<Rightarrow> chain \<Rightarrow> auth \<Rightarrow> string \<Rightarrow> query_list \<Rightarrow> json tx" where
  "receipt_answer X c a param q =
     bindM (lift (allowed q [''log_id''])) (\<lambda>_.
     bindM (lift (ok_or ''INVALID_FIELD'' (case query q ''log_id'' of None \<Rightarrow> None | Some i \<Rightarrow> if uuid X i then Some i else None))) (\<lambda>i.
     bindM (rejectM (i \<noteq> ch_log_id c) ''LOG_ID_MISMATCH'') (\<lambda>_.
     bindM (lift (unwrap (parse_u64 param))) (\<lambda>n.
     bindM (select_opt db_receipts (\<lambda>r. r_chain r = ch_id c \<and> r_log r = i \<and> r_seq r = Some n)) (\<lambda>row.
     bindM (lift (ok_or ''RECEIPT_NOT_FOUND'' row)) (\<lambda>r.
     bindM (select_opt db_log (\<lambda>l. log_key l = (ch_id c, i, n))) (\<lambda>l.
     let entry = (case l of None \<Rightarrow> JNull | Some l \<Rightarrow> (case l_entry l of None \<Rightarrow> JNull | Some e \<Rightarrow> e)) in
     bindM (rejectM (\<not> admin a \<and> jget (jget entry ''object'') ''recipient_kind'' = JStr ''recovery'') ''ENVELOPE_ACCESS_DENIED'') (\<lambda>_.
     ret (jobj [(''entry'', entry), (''receipt'', r_receipt r)])))))))))"

text \<open>The routes that read.\<close>

definition dispatch_read :: "ext \<Rightarrow> config \<Rightarrow> chain \<Rightarrow> auth \<Rightarrow> Endpoint \<Rightarrow> query_list \<Rightarrow> json tx" where
  "dispatch_read X cfg c a ep q =
     (let route = ep_route ep; param = ep_param ep in
      if route = ''parameters_get'' then parameters_answer X cfg c
      else if route = ''head'' then ret (chain_head X c)
      else if route = ''notice'' then notice_answer X c
      else if route \<in> set [''devices'', ''epochs_get'', ''snapshots_get'', ''own_envelopes''] then objects_page X cfg c a route param q
      else if route \<in> set [''records_get'', ''log''] then log_page X cfg c a route q
      else if route = ''epoch_get'' then
        bindM (object (ch_id c) ''epoch'' param) (\<lambda>b.
        bindM (lift (ok_or ''EPOCH_NOT_FOUND'' b)) (epoch_wrapper X c))
      else if route = ''recovery'' then recovery_answer c a param
      else if route = ''part_get'' then part_answer c param
      else if route = ''snapshot_get'' then
        bindM (object (ch_id c) ''compaction'' param) (\<lambda>b.
        bindM (lift (ok_or ''SNAPSHOT_NOT_FOUND'' b)) (\<lambda>v. ret (jobj [(''compaction'', v)])))
      else if route = ''transparency_head'' then
        bindM (select_one db_heads (\<lambda>r. head_key r = (ch_id c, ch_transparency_id c, ch_transparency_index c))) (\<lambda>r.
        ret (jobj [(''head'', hd_head r)]))
      else if route = ''transparency'' then transparency_page X cfg c q
      else if route = ''receipt'' then receipt_answer X c a param q
      else if route = ''deletion'' then lift (Inl (err ''CHAIN_NOT_FOUND''))
      else if route = ''requests_get'' then requests X cfg c a q
      else lift (Inl Panic))"

definition write_routes :: "string list" where
  "write_routes = [''enroll'', ''epochs_post'', ''revoke'', ''offer'', ''approve'', ''reject'', ''ack'', ''snapshot'', ''prune'',
     ''reseed'', ''delete'']"

text \<open>The routes that change the chain; the handlers that leave \<^verbatim>\<open>c\<close> as it is give it back.\<close>

definition dispatch_write :: "ext \<Rightarrow> config \<Rightarrow> chain \<Rightarrow> auth \<Rightarrow> Endpoint \<Rightarrow> json \<Rightarrow> (chain \<times> nat \<times> json) tx" where
  "dispatch_write X cfg c a ep v =
     (let route = ep_route ep; param = ep_param ep in
      if route = ''enroll'' then enroll X cfg c a v None
      else if route \<in> set [''epochs_post'', ''revoke''] then
        epoch_handler X cfg c a v (if route = ''revoke'' then Some param else None)
      else if route = ''offer'' then bindM (offer X c a v) (\<lambda>(code, r). ret (c, code, r))
      else if route \<in> set [''approve'', ''reject''] then approve X cfg c a param v (route = ''reject'')
      else if route = ''ack'' then bindM (ack X c a param v) (\<lambda>r. ret (c, 200, r))
      else if route = ''snapshot'' then snapshot X cfg c v
      else if route = ''prune'' then bindM (prune X cfg c a v) (\<lambda>(c, r). ret (c, 200, r))
      else if route = ''reseed'' then bindM (reseed X cfg c a v) (\<lambda>(c, r). ret (c, 200, r))
      else bindM (delete_chain X cfg c a v) (\<lambda>(c, r). ret (c, 202, r)))"

definition dispatch ::
    "ext \<Rightarrow> config \<Rightarrow> chain \<Rightarrow> auth \<Rightarrow> Endpoint \<Rightarrow> query_list \<Rightarrow> json \<Rightarrow> (chain \<times> response) tx" where
  "dispatch X cfg c a ep q v =
     bindM (lift (if ep_route ep \<in> set filtered_routes then Inr () else allowed q [])) (\<lambda>_.
     if ep_route ep = ''export'' then
       bindM (export X cfg c a q) (\<lambda>out. ret (c, raw_response 200 EXPORT_MEDIA_TYPE out))
     else
       bindM (if ep_route ep \<in> set write_routes then dispatch_write X cfg c a ep v
              else bindM (dispatch_read X cfg c a ep q) (\<lambda>r. ret (c, 200, r))) (\<lambda>(c, code, value).
       bindM (rejectM (text_len X value > RESPONSE_MAX) ''PAYLOAD_TOO_LARGE'') (\<lambda>_.
       ret (c, json_response X code value))))"

subsection \<open>Audit of a rejected request\<close>

definition candidate :: "ext \<Rightarrow> schema \<Rightarrow> json \<Rightarrow> json list \<Rightarrow> json list res" where
  "candidate X kind obj acc = rbind (succeeds (validate X obj kind)) (\<lambda>ok. Inr (if ok then acc @ [obj] else acc))"

definition candidates :: "ext \<Rightarrow> json \<Rightarrow> json list res" where
  "candidates X v =
     rbind (rfold (\<lambda>(key, kind) acc. case jfind v key of None \<Rightarrow> Inr acc | Some obj \<Rightarrow> candidate X kind obj acc)
       [(''parameters'', SParameters), (''device_record'', SDevice), (''epoch'', SEpoch), (''compaction'', SCompaction),
        (''admin_operation'', SAdmin)] []) (\<lambda>acc.
     rbind (rfold (candidate X SEnvelope) (a_of v ''envelopes'') acc) (\<lambda>acc.
     rfold (candidate X SDevice) (a_of v ''device_records'') acc))"

definition unaudited_codes :: "string list" where
  "unaudited_codes = [''RATE_LIMITED'', ''QUOTA_EXCEEDED'', ''STORAGE_UNAVAILABLE'', ''INVALID_JSON'']"

text \<open>Whether the transactions of a request begin and commit; the numbers are those of \<^verbatim>\<open>handle\<close>.\<close>

record web =
  w_mime :: "string \<Rightarrow> (string \<times> string option) option"
  w_begin_fails :: "nat \<Rightarrow> bool"
  w_commit_fails :: "nat \<Rightarrow> bool"
  w_rollback_fails :: bool
  w_uploads :: faults
  w_busy :: bool

text \<open>\<^verbatim>\<open>tx.commit().await?\<close> after a body that returned early with \<^verbatim>\<open>?\<close>.\<close>

fun committed :: "'a tx_end \<Rightarrow> 'a res" where
  "committed (Committed x) = Inr x"
| "committed Commit_failed = Inl sql_error"
| "committed (Aborted e) = Inl e"

definition reject_entry :: "ext \<Rightarrow> config \<Rightarrow> string \<Rightarrow> json \<Rightarrow> chain \<Rightarrow> chain tx" where
  "reject_entry X cfg code obj c =
     bindM (transparency X cfg c ''reject'' (object_hash X obj) None (Some code)) (\<lambda>(c, _, _). ret c)"

definition audit_rejected :: "ext \<Rightarrow> config \<Rightarrow> web \<Rightarrow> string \<Rightarrow> json \<Rightarrow> string \<Rightarrow> unit tx" where
  "audit_rejected X cfg W ci v code =
     (if code \<in> set unaudited_codes then ret ()
      else
        bindM (lift (candidates X v)) (\<lambda>objs.
        if objs = [] then ret ()
        else if w_begin_fails W 3 then lift (Inl sql_error)
        else
          bindM (load ci) (\<lambda>c.
          case c of
            None \<Rightarrow> ret ()
          | Some c \<Rightarrow>
              bindM (run_tx (w_commit_fails W 3)
                (bindM (foldM (reject_entry X cfg code) objs c) (\<lambda>c. save X cfg c))) (\<lambda>done.
              lift (committed done)))))"

subsection \<open>The transaction around a handler\<close>

text \<open>The body of the transaction that runs a handler: what is committed, or rolled back on an error.\<close>

definition handler_body ::
    "ext \<Rightarrow> config \<Rightarrow> string \<Rightarrow> auth \<Rightarrow> Endpoint \<Rightarrow> query_list \<Rightarrow> json \<Rightarrow> response tx" where
  "handler_body X cfg method a ep q v =
     (if ep_route ep = ''genesis'' then
        bindM (lift (allowed q [])) (\<lambda>_.
        bindM (genesis X cfg v) (\<lambda>(code, r, _). ret (json_response X code r)))
      else if ep_route ep = ''import'' then
        bindM (lift (require_admin a)) (\<lambda>_.
        bindM (lift (allowed q [])) (\<lambda>_.
        bindM (stage X cfg v) (\<lambda>(r, _). ret (json_response X 202 r))))
      else
        bindM (load (ep_chain ep)) (\<lambda>c.
        bindM (lift (ok_or ''CHAIN_NOT_FOUND'' c)) (\<lambda>c.
        bindM (rejectM (\<not> ch_writable c \<and> \<not> (admin a \<and> ep_route ep = ''reseed'')) ''CHAIN_NOT_FOUND'') (\<lambda>_.
        bindM (check_state c a (ep_route ep)) (\<lambda>_.
        bindM (dispatch X cfg c a ep q v) (\<lambda>(c, r).
        if method = ''GET'' then ret r
        else bindM (save X cfg c) (\<lambda>_. bindM (quota X cfg (ch_id c)) (\<lambda>_. ret r))))))))"

text \<open>The answer for a deleted chain, in the same transaction.\<close>

definition deleted_answer :: "ext \<Rightarrow> Endpoint \<Rightarrow> query_list \<Rightarrow> json \<Rightarrow> response option tx" where
  "deleted_answer X ep q v =
     bindM (deletion_proof (ep_chain ep)) (\<lambda>p.
     case p of
       None \<Rightarrow> ret None
     | Some proof \<Rightarrow>
         if ep_route ep = ''deletion'' then
           bindM (lift (allowed q [])) (\<lambda>_. ret (Some (json_response X 200 proof)))
         else if ep_route ep = ''delete'' then
           bindM (select_one db_deletions (\<lambda>r. d_chain r = ep_chain ep)) (\<lambda>r.
           if d_request_hash r = object_hash X v then ret (Some (json_response X 202 (d_outcome r)))
           else lift (Inl (gone proof)))
         else lift (Inl (gone proof)))"

text \<open>\<^verbatim>\<open>let _ = ..\<close>: an error is dropped, a panic is not.\<close>

definition ignore_errors :: "unit tx \<Rightarrow> unit tx" where
  "ignore_errors m = (\<lambda>st. case m st of (Inl Panic, st') \<Rightarrow> (Inl Panic, st') | (_, st') \<Rightarrow> (Inr (), st'))"

definition serve ::
    "ext \<Rightarrow> config \<Rightarrow> web \<Rightarrow> string \<Rightarrow> auth \<Rightarrow> Endpoint \<Rightarrow> query_list \<Rightarrow> json \<Rightarrow> response tx" where
  "serve X cfg W method a ep q v =
     bindM (lift (if w_begin_fails W 2 then Inl sql_error else Inr ())) (\<lambda>_.
     bindM (deleted_answer X ep q v) (\<lambda>known.
     case known of
       Some r \<Rightarrow> lift (if w_commit_fails W 2 then Inl sql_error else Inr r)
     | None \<Rightarrow>
         bindM (run_tx (w_commit_fails W 2) (handler_body X cfg method a ep q v)) (\<lambda>done.
         case done of
           Aborted e \<Rightarrow>
             bindM (lift (if w_rollback_fails W then Inl sql_error else Inr ())) (\<lambda>_.
             bindM (audit_rejected X cfg W (ep_chain ep) v (failure_code e)) (\<lambda>_.
             lift (Inl e)))
         | _ \<Rightarrow>
             bindM (lift (committed done)) (\<lambda>r.
             bindM (if ep_route ep = ''delete'' then ignore_errors (complete_deletions X cfg (w_busy W)) else ret ()) (\<lambda>_.
             ret r)))))"

subsection \<open>Before the handler\<close>

text \<open>A transaction that is committed whatever its body returned; a panic drops it.\<close>

definition keep_tx :: "web \<Rightarrow> nat \<Rightarrow> 'a tx \<Rightarrow> 'a tx" where
  "keep_tx W i m =
     (\<lambda>st. if w_begin_fails W i then (Inl sql_error, st)
           else case m st of
             (Inl Panic, st') \<Rightarrow> (Inl Panic, rollback_to st st')
           | (r, st') \<Rightarrow> if w_commit_fails W i then (Inl sql_error, rollback_to st st') else (r, st'))"

definition ascii_fold :: "char \<Rightarrow> char" where
  "ascii_fold c = (if ascii_upper c then char_of (of_char c + 32 :: nat) else c)"

definition same_ignoring_case :: "string \<Rightarrow> string \<Rightarrow> bool" where
  "same_ignoring_case a b \<longleftrightarrow> map ascii_fold a = map ascii_fold b"

definition public_documents :: "ext \<Rightarrow> config \<Rightarrow> web \<Rightarrow> http_request \<Rightarrow> query_list \<Rightarrow> response tx" where
  "public_documents X cfg W rq q =
     bindM (rejectM (hq_method rq \<noteq> ''GET'') ''METHOD_NOT_ALLOWED'') (\<lambda>_.
     bindM (rejectM (q \<noteq> [] \<or> hq_body rq \<noteq> []) ''INVALID_FIELD'') (\<lambda>_.
     bindM (keep_tx W 0 (rate X cfg ''public_document_ip'' (hash_bytes X (hq_source rq)))) (\<lambda>_.
     ret (if hq_path rq = ''/privacy.md'' then raw_response 200 ''text/markdown;charset=utf-8'' (cfg_markdown cfg)
          else raw_response 200 ''application/json'' (canonicalize_json X (cfg_privacy cfg))))))"

definition vendor_type :: "web \<Rightarrow> string \<Rightarrow> bool" where
  "vendor_type W ct =
     (case w_mime W ct of
        None \<Rightarrow> False
      | Some (essence, charset) \<Rightarrow> same_ignoring_case essence VENDOR_MEDIA_TYPE
          \<and> (case charset of None \<Rightarrow> True | Some c \<Rightarrow> same_ignoring_case c ''utf-8''))"

definition parsed_body :: "ext \<Rightarrow> web \<Rightarrow> http_request \<Rightarrow> json res" where
  "parsed_body X W rq =
     (if hq_method rq = ''GET'' then (if hq_body rq = [] then Inr JNull else Inl (err ''INVALID_FIELD''))
      else if \<not> vendor_type W (case hq_content_type rq of Some (Some t) \<Rightarrow> t | _ \<Rightarrow> []) then Inl (err ''UNSUPPORTED_MEDIA_TYPE'')
      else (case parse X (hq_body rq) of Inl e \<Rightarrow> Inl (err ''INVALID_JSON'') | Inr v \<Rightarrow> Inr v))"

text \<open>The parameters of a chain that is about to be created, from the body before the token is checked.\<close>

definition proposed :: "Endpoint \<Rightarrow> json \<Rightarrow> json option" where
  "proposed ep body =
     (if ep_route ep = ''genesis'' then Some (jget body ''parameters'')
      else if ep_route ep = ''import'' then
        (case a_of body ''parameters_history'' of [] \<Rightarrow> None | ps \<Rightarrow> Some (last ps))
      else None)"

text \<open>An enrollment request is unauthenticated: it runs in a savepoint, so that its rates are kept.\<close>

definition enrollment_candidate :: "ext \<Rightarrow> config \<Rightarrow> string \<Rightarrow> query_list \<Rightarrow> json \<Rightarrow> (nat \<times> json) tx" where
  "enrollment_candidate X cfg ci q v =
     bindM (lift (allowed q [])) (\<lambda>_.
     bindM (deletion_proof ci) (\<lambda>p.
     bindM (rejectM (p \<noteq> None) ''OFFER_NOT_FOUND'') (\<lambda>_.
     bindM (load ci) (\<lambda>c.
     bindM (lift (ok_or ''OFFER_NOT_FOUND'' (case c of None \<Rightarrow> None | Some c \<Rightarrow> if ch_writable c then Some c else None))) (\<lambda>c.
     bindM (enrollment_request X c v) (\<lambda>answer.
     bindM (quota X cfg ci) (\<lambda>_.
     ret answer)))))))"

definition enrollment :: "ext \<Rightarrow> config \<Rightarrow> web \<Rightarrow> http_request \<Rightarrow> string \<Rightarrow> query_list \<Rightarrow> json \<Rightarrow> response tx" where
  "enrollment X cfg W rq ci q v =
     bindM (map_errM ''OFFER_NOT_FOUND'' (write_guard X cfg)) (\<lambda>_.
     bindM (keep_tx W 0 (
       bindM (rate X cfg ''enrollment_source_ip'' (hash_bytes X (hq_source rq))) (\<lambda>_.
       bindM (rate X cfg ''enrollment_offer'' (ci @ '':'' @ s_of v ''request_id'')) (\<lambda>_.
       transaction (enrollment_candidate X cfg ci q v))))) (\<lambda>(code, r).
     ret (json_response X code r)))"

definition upload_routes :: "string list" where
  "upload_routes = [''records_post'', ''parts_post'', ''repair'', ''envelopes_post'']"

definition serve_upload :: "ext \<Rightarrow> config \<Rightarrow> web \<Rightarrow> auth \<Rightarrow> Endpoint \<Rightarrow> query_list \<Rightarrow> json \<Rightarrow> response tx" where
  "serve_upload X cfg W a ep q v =
     bindM (lift (allowed q [])) (\<lambda>_.
     bindM (if ep_route ep \<in> set [''records_post'', ''parts_post'']
            then keep_tx W 1 (rate X cfg ''record_upload_device''
                   (ep_chain ep @ '':'' @ (case a_device a of None \<Rightarrow> ''admin'' | Some d \<Rightarrow> d)))
            else ret ()) (\<lambda>_.
     bindM (upload X cfg (w_uploads W) \<lparr>ur_auth = a, ur_chain = ep_chain ep, ur_route = ep_route ep,
        ur_param = ep_param ep, ur_body = v\<rparr>) (\<lambda>r.
     ret (json_response X 200 r))))"

text \<open>Everything before the permit of a transfer: an answer, or what the handler is to serve.\<close>

datatype prepared = Answer response | Proceed Endpoint auth query_list json

definition check_request :: "config \<Rightarrow> http_request \<Rightarrow> query_list res" where
  "check_request cfg rq =
     rbind (reject (hq_timeout rq) ''REQUEST_TIMEOUT'') (\<lambda>_.
     rbind (reject (length (hq_body rq) > n_of (limits cfg) ''max_request_bytes'') ''PAYLOAD_TOO_LARGE'') (\<lambda>_.
     rbind (reject (case hq_encoding rq of None \<Rightarrow> False | Some None \<Rightarrow> True
        | Some (Some h) \<Rightarrow> \<not> same_ignoring_case h ''identity'') ''INVALID_FIELD'') (\<lambda>_.
     canonical_query (case hq_query rq of None \<Rightarrow> [] | Some t \<Rightarrow> t))))"

definition authorized ::
    "ext \<Rightarrow> config \<Rightarrow> web \<Rightarrow> http_request \<Rightarrow> Endpoint \<Rightarrow> query_list \<Rightarrow> json option \<Rightarrow> json res \<Rightarrow> prepared tx" where
  "authorized X cfg W rq ep q prop parsed =
     bindM (keep_tx W 0 (authenticate X cfg \<lparr>rq_authorization = hq_authorization rq, rq_method = hq_method rq,
        rq_path = hq_path rq, rq_query = hq_query rq, rq_body = hq_body rq, rq_chain = ep_chain ep,
        rq_proposed_key = map_option (\<lambda>p. s_of p ''admin_public_key'') prop, rq_route = ep_route ep\<rparr>)) (\<lambda>a.
     bindM (lift parsed) (\<lambda>v.
     bindM (if hq_method rq \<noteq> ''GET'' \<and> ep_route ep \<noteq> ''delete'' then write_guard X cfg else ret ()) (\<lambda>_.
     if ep_route ep \<in> set upload_routes
     then bindM (serve_upload X cfg W a ep q v) (\<lambda>r. ret (Answer r))
     else ret (Proceed ep a q v))))"

definition prepare :: "ext \<Rightarrow> config \<Rightarrow> web \<Rightarrow> http_request \<Rightarrow> prepared tx" where
  "prepare X cfg W rq =
     bindM (lift (check_request cfg rq)) (\<lambda>q.
     if hq_path rq \<in> set [''/privacy.md'', ''/privacy.json'']
     then bindM (public_documents X cfg W rq q) (\<lambda>r. ret (Answer r))
     else
       bindM (lift (endpoint X (hq_path rq) (hq_method rq))) (\<lambda>ep.
       if ep_route ep = ''health'' then
         bindM (rejectM (q \<noteq> [] \<or> hq_body rq \<noteq> []) ''FILTER_NOT_ALLOWED'') (\<lambda>_.
         bindM (health X cfg) (\<lambda>h. ret (Answer (json_response X 200 h))))
       else
         let parsed = parsed_body X W rq in
         bindM (lift (if ep_route ep \<in> set [''genesis'', ''import'', ''request''] then parsed else Inr JNull)) (\<lambda>body.
         let prop = proposed ep body in
         bindM (lift (case prop of None \<Rightarrow> Inr () | Some p \<Rightarrow> validate X p SParameters)) (\<lambda>_.
         let ep = (case prop of None \<Rightarrow> ep | Some p \<Rightarrow> ep\<lparr>ep_chain := s_of p ''chain_id''\<rparr>) in
         bindM (rejectM (ep_chain ep = []) ''INVALID_FIELD'') (\<lambda>_.
         if ep_route ep = ''request''
         then bindM (enrollment X cfg W rq (ep_chain ep) q body) (\<lambda>r. ret (Answer r))
         else authorized X cfg W rq ep q prop parsed)))))"

subsection \<open>Permits and the response\<close>

text \<open>
  The state of the process: the database and, for every chain, how many of its two transfer permits
  are left. A response that carries a permit gives it back when its body has been sent.
\<close>

record app =
  ap_db :: db
  ap_transfers :: "(string \<times> nat) list"

definition permits :: "app \<Rightarrow> string \<Rightarrow> nat" where
  "permits ap ci = (case map_of (ap_transfers ap) ci of None \<Rightarrow> 2 | Some n \<Rightarrow> n)"

definition set_permits :: "string \<Rightarrow> nat \<Rightarrow> app \<Rightarrow> app" where
  "set_permits ci n ap = ap\<lparr>ap_transfers := AList.update ci n (ap_transfers ap)\<rparr>"

definition body_sent :: "string \<Rightarrow> app \<Rightarrow> app" where
  "body_sent ci ap = set_permits ci (permits ap ci + 1) ap"

text \<open>The \<^verbatim>\<open>Allow\<close> header of a 405.\<close>

definition allow_header :: "ext \<Rightarrow> string \<Rightarrow> string" where
  "allow_header X path =
     (case endpoint X path ''GET'' of Inr ep \<Rightarrow> ep_allow ep | Inl _ \<Rightarrow>
     (case endpoint X path ''POST'' of Inr ep \<Rightarrow> ep_allow ep | Inl _ \<Rightarrow>
     (case endpoint X path ''PUT'' of Inr ep \<Rightarrow> ep_allow ep | Inl _ \<Rightarrow>
     (case endpoint X path ''DELETE'' of Inr ep \<Rightarrow> ep_allow ep | Inl _ \<Rightarrow> ''GET''))))"

definition finish_response :: "ext \<Rightarrow> string \<Rightarrow> response \<Rightarrow> response tx" where
  "finish_response X path r =
     bindM (now X) (\<lambda>t.
     ret (r\<lparr>rs_allow := (if rs_status r = 405 then Some (allow_header X path) else None), rs_date := t\<rparr>))"

text \<open>The end of \<^verbatim>\<open>handle\<close>, with the permit it holds. No response: the connection dies with a panic.\<close>

definition conclude :: "ext \<Rightarrow> string \<Rightarrow> response res \<Rightarrow> string option \<Rightarrow> app \<Rightarrow> response option \<times> app" where
  "conclude X path result permit ap =
     (let release = (\<lambda>ap. case permit of None \<Rightarrow> ap | Some ci \<Rightarrow> body_sent ci ap) in
      case bindM (case result of Inr r \<Rightarrow> ret r | Inl e \<Rightarrow> error_response X e) (\<lambda>r.
           finish_response X path (r\<lparr>rs_leased := (if 200 \<le> rs_status r \<and> rs_status r < 300 then permit else None)\<rparr>)) (ap_db ap) of
        (Inl e, st) \<Rightarrow> (None, release (ap\<lparr>ap_db := st\<rparr>))
      | (Inr r, st) \<Rightarrow> (Some r, if rs_leased r \<noteq> None then ap\<lparr>ap_db := st\<rparr> else release (ap\<lparr>ap_db := st\<rparr>)))"

definition transfer_limited :: failure where
  "transfer_limited = Err ''RATE_LIMITED'' (Some (jobj [(''retry_after_ms'', JNat 1000), (''scope'', JStr ''concurrent_transfers'')]))"

definition handle :: "ext \<Rightarrow> config \<Rightarrow> web \<Rightarrow> http_request \<Rightarrow> app \<Rightarrow> response option \<times> app" where
  "handle X cfg W rq ap =
     (case prepare X cfg W rq (ap_db ap) of
        (Inl e, st) \<Rightarrow> conclude X (hq_path rq) (Inl e) None (ap\<lparr>ap_db := st\<rparr>)
      | (Inr (Answer r), st) \<Rightarrow> conclude X (hq_path rq) (Inr r) None (ap\<lparr>ap_db := st\<rparr>)
      | (Inr (Proceed ep a q v), st) \<Rightarrow>
          let ap = ap\<lparr>ap_db := st\<rparr>; ci = ep_chain ep; left = permits ap ci in
          if ep_route ep \<in> set [''export'', ''part_get''] then
            if left = 0 then conclude X (hq_path rq) (Inl transfer_limited) None ap
            else (case serve X cfg W (hq_method rq) a ep q v (ap_db ap) of
              (r, st) \<Rightarrow> conclude X (hq_path rq) r (Some ci) ((set_permits ci (left - 1) ap)\<lparr>ap_db := st\<rparr>))
          else (case serve X cfg W (hq_method rq) a ep q v (ap_db ap) of
            (r, st) \<Rightarrow> conclude X (hq_path rq) r None (ap\<lparr>ap_db := st\<rparr>)))"

subsection \<open>Start of the process\<close>

text \<open>
  \<^verbatim>\<open>AppState::new\<close>: the restart barrier, the binding of the database to one origin, one relay key and a
  disclosure that is never replaced by an older one, the deletions that were left open, and the notice of
  every chain. \<open>busy\<close> is the result of the WAL checkpoint.
\<close>

definition start_barrier :: "ext \<Rightarrow> config \<Rightarrow> unit tx" where
  "start_barrier X cfg =
     (if jget (jget (cfg_privacy cfg) ''replay_protection'') ''mode'' = JStr ''restart_barrier''
      then bindM (now X) (\<lambda>t. modify (\<lambda>st. st\<lparr>db_barrier := Some (case db_barrier st of None \<Rightarrow> t + 60000
             | Some b \<Rightarrow> max b (t + 60000))\<rparr>))
      else ret ())"

definition operator_conflict :: "ext \<Rightarrow> config \<Rightarrow> operator_row \<Rightarrow> bool" where
  "operator_conflict X cfg r \<longleftrightarrow>
     op_origin r \<noteq> cfg_origin cfg \<or> op_key_id r \<noteq> cfg_key_id cfg \<or> op_revision r > n_of (cfg_privacy cfg) ''revision''
   \<or> (op_revision r = n_of (cfg_privacy cfg) ''revision'' \<and> op_disclosure r \<noteq> object_hash X (cfg_privacy cfg))"

definition disclosed :: "ext \<Rightarrow> config \<Rightarrow> operator_row option \<Rightarrow> operator_row" where
  "disclosed X cfg row =
     (let revision = n_of (cfg_privacy cfg) ''revision''; digest = object_hash X (cfg_privacy cfg) in
      case row of
        None \<Rightarrow> \<lparr>op_origin = cfg_origin cfg, op_key_id = cfg_key_id cfg, op_revision = revision, op_disclosure = digest\<rparr>
      | Some r \<Rightarrow> r\<lparr>op_revision := revision, op_disclosure := digest\<rparr>)"

definition bind_operator :: "ext \<Rightarrow> config \<Rightarrow> unit tx" where
  "bind_operator X cfg =
     bindM (gets db_operator) (\<lambda>row.
     bindM (rejectM (case row of None \<Rightarrow> False | Some r \<Rightarrow> operator_conflict X cfg r) ''INVALID_FIELD'') (\<lambda>_.
     modify (db_operator_update (\<lambda>row. Some (disclosed X cfg row)))))"

definition republish :: "ext \<Rightarrow> config \<Rightarrow> string \<Rightarrow> unit \<Rightarrow> unit tx" where
  "republish X cfg ci u =
     bindM (load ci) (\<lambda>c.
     case c of
       None \<Rightarrow> ret ()
     | Some c \<Rightarrow> bindM (publish_notice X cfg c) (\<lambda>c. save X cfg c))"

definition app_new :: "ext \<Rightarrow> config \<Rightarrow> bool \<Rightarrow> unit tx" where
  "app_new X cfg busy =
     bindM (transaction (bindM (start_barrier X cfg) (\<lambda>_. bind_operator X cfg))) (\<lambda>_.
     bindM (complete_deletions X cfg busy) (\<lambda>_.
     transaction
       (bindM (gets (\<lambda>st. filter (\<lambda>ci. ci \<notin> set (map d_chain (db_deletions st))) (map ch_id (db_chains st)))) (\<lambda>ids.
        foldM (republish X cfg) ids ()))))"

subsection \<open>The catalogue\<close>

lemma parameter_of_sound:
  assumes "parameter_of X route param = Inr p"
  shows "p = [] \<or> uuid X p
    \<or> (route \<in> set numeric_routes \<and> (\<exists>n. p = show_nat n \<and> parse_u64 p = Some n \<and> n \<le> MAX_INTEGER))"
proof -
  have num: "parse_u64 (show_nat k) = Some k \<and> k \<le> MAX_INTEGER"
    if "decimal param lo hi = Inr k" "hi \<le> MAX_INTEGER" for lo hi k
  proof -
    from that have "k \<le> MAX_INTEGER" by (auto simp: decimal_def split: option.splits if_splits)
    moreover have "MAX_INTEGER < 2 ^ 64" by (simp add: MAX_INTEGER_def)
    ultimately show ?thesis using parse_u64_show_nat by (metis le_less_trans)
  qed
  have "u32_max \<le> MAX_INTEGER" by (simp add: u32_max_def MAX_INTEGER_def)
  with assms num show ?thesis by (auto simp: parameter_of_def split: if_splits)
qed

text \<open>
  C29: an accepted path has its method among the allowed ones, a chain identifier of 32 bytes (or none,
  which the request handling refuses), and a parameter that is empty, the canonical decimal of a number
  in range, or a UUID.
\<close>

theorem endpoint_sound:
  assumes "endpoint X path method = Inr ep"
  shows "method \<in> set (split_methods [] (ep_allow ep))
    \<and> (ep_chain ep = [] \<or> decode X (ep_chain ep) (Some 32) \<noteq> None)
    \<and> (ep_param ep = [] \<or> uuid X (ep_param ep)
       \<or> (ep_route ep \<in> set numeric_routes
          \<and> (\<exists>n. ep_param ep = show_nat n \<and> parse_u64 (ep_param ep) = Some n \<and> n \<le> MAX_INTEGER)))"
  using assms by (auto simp: endpoint_def dest!: parameter_of_sound)

theorem endpoint_sound_witness:
  "\<exists>ep. endpoint demo_fast ''/pallasync/v3/chains/K/epochs/007'' ''GET'' = Inr ep \<and> ep_param ep = ''7''
     \<and> ''GET'' \<in> set (split_methods [] (ep_allow ep))"
proof -
  have e: "endpoint demo_fast ''/pallasync/v3/chains/K/epochs/007'' ''GET''
      = Inr \<lparr>ep_route = ''epoch_get'', ep_chain = ''K'', ep_param = ''7'', ep_allow = ''GET''\<rparr>" by code_simp
  from endpoint_sound [OF e] e show ?thesis by auto
qed

text \<open>
  C30: an empty last path segment is accepted as an empty parameter, and \<^verbatim>\<open>parse().unwrap()\<close> of it
  panics: a member that asks for a receipt under the current log with an empty number makes the handler
  panic instead of answering 400.
\<close>

theorem empty_receipt_number_panics:
  assumes "ch_log_id c = i" and "uuid X i"
  shows "route_of [''chains'', ci, ''receipts'', []] ''GET'' = Some (''receipt'', ci, [], ''GET'')
    \<and> parameter_of X ''receipt'' [] = Inr []
    \<and> dispatch X cfg c a \<lparr>ep_route = ''receipt'', ep_chain = ci, ep_param = [], ep_allow = ''GET''\<rparr> [(''log_id'', i)] v st
       = (Inl Panic, st)"
  using assms
  by (simp add: route_of_def item_route_def parameter_of_def dispatch_def filtered_routes_def write_routes_def dispatch_read_def
      receipt_answer_def allowed_def query_def bindM_def lift_def rejectM_def reject_def parse_u64_def strip_plus_def)

theorem empty_receipt_number_panics_witness:
  "dispatch demo_fast demo_cfg demo_chain \<lparr>a_token = JNull, a_device = None\<rparr>
      \<lparr>ep_route = ''receipt'', ep_chain = demo_b32, ep_param = [], ep_allow = ''GET''\<rparr> [(''log_id'', ''141'')] JNull empty_db
     = (Inl Panic, empty_db)"
proof -
  have "ch_log_id demo_chain = ''141''" "uuid demo_fast ''141''" by code_simp+
  from empty_receipt_number_panics [OF this] show ?thesis by blast
qed

end
