(* ===== verification/Relay_Frame.thy ===== *)
theory Relay_Frame
  imports Relay_Sync "HOL-Library.Sublist"
begin

text \<open>
  What a relation between database states has to satisfy for every operation of the relay to respect it.
  A preorder is respected by a computation when it is respected by its steps; and each step is one of the
  statements of the source on one table. The operations are walked through once, against the statements
  they execute; every relation that the statements respect is then kept by every request, by the
  maintenance and by a restart.
\<close>

definition keeps :: "('s \<Rightarrow> 's \<Rightarrow> bool) \<Rightarrow> ('s, 'a) M \<Rightarrow> bool" where
  "keeps R m \<longleftrightarrow> (\<forall>st. R st (snd (m st)))"

lemma keepsD: "keeps R m \<Longrightarrow> m st = (r, st') \<Longrightarrow> R st st'"
  unfolding keeps_def by (metis snd_conv)

subsection \<open>A preorder is kept by the control flow\<close>

locale run_order =
  fixes R :: "'s \<Rightarrow> 's \<Rightarrow> bool"
  assumes order_refl: "R st st"
    and order_trans: "R a b \<Longrightarrow> R b c \<Longrightarrow> R a c"
begin

lemma keeps_read: "read_only m \<Longrightarrow> keeps R m"
  by (simp add: keeps_def read_only_def order_refl)

lemma keeps_bind: "keeps R m \<Longrightarrow> (\<And>x. keeps R (f x)) \<Longrightarrow> keeps R (bindM m f)"
  unfolding keeps_def bindM_def by (auto split: prod.splits sum.splits) (metis order_trans snd_conv)+

lemma keeps_map_err: "keeps R m \<Longrightarrow> keeps R (map_errM code m)"
  unfolding keeps_def map_errM_def by (auto split: prod.splits) (metis snd_conv)

lemma keeps_fold: "(\<And>x acc. keeps R (f x acc)) \<Longrightarrow> keeps R (foldM f xs acc)"
  by (induction xs arbitrary: acc) (auto intro: keeps_bind keeps_read)

lemma keeps_cases:
  "keeps R a \<Longrightarrow> (\<And>y. keeps R (b y)) \<Longrightarrow> keeps R (case opt of None \<Rightarrow> a | Some y \<Rightarrow> b y)"
  "keeps R a \<Longrightarrow> keeps R a' \<Longrightarrow> keeps R (if cond then a else a')"
  "(\<And>y z. keeps R (f y z)) \<Longrightarrow> keeps R (case p of (y, z) \<Rightarrow> f y z)"
  by (auto split: option.splits prod.splits)

lemma keeps_end:
  "(\<And>x. keeps R (f x)) \<Longrightarrow> keeps R g \<Longrightarrow> (\<And>e. keeps R (h e)) \<Longrightarrow>
     keeps R (case e of Committed x \<Rightarrow> f x | Commit_failed \<Rightarrow> g | Aborted e \<Rightarrow> h e)"
  by (auto split: tx_end.splits)

lemma keeps_modify: "(\<And>st. R st (f st)) \<Longrightarrow> keeps R (modify f)"
  by (simp add: keeps_def modify_def)

lemma keeps_insert:
  "(\<And>st. \<not> list_ex (clash r) (sel st) \<Longrightarrow> R st (upd (\<lambda>rows. rows @ [r]) st)) \<Longrightarrow> keeps R (insert_row sel upd clash r)"
  by (simp add: keeps_def insert_row_def order_refl)

lemma keeps_insert_ignore: "(\<And>st. R st (upd (\<lambda>rows. rows @ [r]) st)) \<Longrightarrow> keeps R (insert_ignore sel upd clash r)"
  by (simp add: keeps_def insert_ignore_def order_refl)

lemma keeps_upsert:
  "(\<And>st. R st (upd (\<lambda>rows. rows @ [r]) st)) \<Longrightarrow> (\<And>st. R st (upd (map (\<lambda>r'. if clash r r' then r else r')) st))
     \<Longrightarrow> keeps R (upsert_row sel upd clash r)"
  by (simp add: keeps_def upsert_row_def)

lemma keeps_update: "(\<And>st. R st (upd (map (\<lambda>r. if p r then f r else r)) st)) \<Longrightarrow> keeps R (update_rows upd p f)"
  by (simp add: update_rows_def keeps_modify)

lemma keeps_delete: "(\<And>st. R st (upd (filter (\<lambda>r. \<not> p r)) st)) \<Longrightarrow> keeps R (delete_rows upd p)"
  by (simp add: delete_rows_def keeps_modify)

lemmas basic_steps = read_only_basic [THEN keeps_read] read_only_select [THEN keeps_read]

end

text \<open>For the database of the relay.\<close>

locale state_order = run_order R for R :: "db \<Rightarrow> db \<Rightarrow> bool"
begin

lemma keeps_ignore: "keeps R m \<Longrightarrow> keeps R (ignore_errors m)"
  unfolding keeps_def ignore_errors_def by (auto split: prod.splits sum.splits failure.splits) (metis snd_conv)+

lemmas flow = keeps_bind keeps_map_err keeps_fold keeps_cases keeps_end keeps_ignore basic_steps

text \<open>A request keeps what its two halves keep: the permits and the response only read the clock.\<close>

lemma conclude_keeps:
  assumes "keeps R (now X)" and "R st (ap_db ap)"
  shows "R st (ap_db (snd (conclude X path result permit ap)))"
proof -
  let ?m = "bindM (case result of Inr r \<Rightarrow> ret r | Inl e \<Rightarrow> error_response X e) (\<lambda>r.
     finish_response X path (r\<lparr>rs_leased := (if 200 \<le> rs_status r \<and> rs_status r < 300 then permit else None)\<rparr>))"
  have "keeps R (error_response X e)" "keeps R (finish_response X path r)" for e r
    unfolding error_response_def finish_response_def by (auto split: failure.splits intro!: flow assms(1))
  then have "keeps R ?m" by (intro flow) (auto split: sum.splits intro: flow)
  then have "R (ap_db ap) (snd (?m (ap_db ap)))" by (simp add: keeps_def)
  moreover have "ap_db (snd (conclude X path result permit ap)) = snd (?m (ap_db ap))"
    by (auto simp: conclude_def Let_def body_sent_def set_permits_def split: prod.splits sum.splits option.splits)
  ultimately show ?thesis using order_trans [OF assms(2)] by simp
qed

lemma handle_keeps:
  assumes "keeps R (now X)" and "keeps R (prepare X cfg W rq)"
    and serve: "\<And>mt a ep q v. keeps R (serve X cfg W mt a ep q v)"
  shows "R (ap_db ap) (ap_db (snd (handle X cfg W rq ap)))"
proof -
  obtain r st where p: "prepare X cfg W rq (ap_db ap) = (r, st)" by fastforce
  have one: "R (ap_db ap) st" by (rule keepsD [OF assms(2) p])
  have two: "R (ap_db ap) st1" if "serve X cfg W mt a ep q v st = (r1, st1)" for mt a ep q v r1 st1
    by (rule order_trans [OF one keepsD [OF serve that]])
  show ?thesis using one two
    by (auto simp: handle_def p Let_def set_permits_def split: sum.splits prepared.splits prod.splits
        intro!: conclude_keeps [OF assms(1)] dest: two)
qed

end

subsection \<open>The statements of the source\<close>

text \<open>What a request that only reads writes: the clock, fresh identifiers and cursors.\<close>

locale reading_order = state_order +
  assumes tick: "R st (st\<lparr>db_tick := db_tick st + 1\<rparr>)"
    and ids: "R st (st\<lparr>db_ids := db_ids st + 1\<rparr>)"
    and cursors: "R st (db_cursors_update (\<lambda>rows. rows @ [cr]) st)"
begin

lemma keeps_counters: "keeps R (now X)" "keeps R (new_id X)" "keeps R (new_uuid X)"
  using tick ids by (simp_all add: keeps_def new_uuid_def)

lemmas statements = keeps_counters keeps_insert keeps_insert_ignore keeps_upsert keeps_update keeps_delete

end

text \<open>What a handler writes. Evidence is only added to: the transparency log and the receipts.\<close>

locale statement_order = reading_order +
  assumes objects: "R st (db_objects_update f1 st)"
    and registry: "R st (db_registry_update f2 st)"
    and data_log: "R st (db_log_update f3 st)"
    and outcomes: "R st (db_outcomes_update f4 st)"
    and offers: "R st (db_offers_update f5 st)"
    and rates: "R st (db_rates_update f7 st)"
    and staged: "R st (db_imports_update f8 st)"
    and payload_nonces: "R st (db_payload_nonces_update f9 st)"
    and handoffs: "R st (db_handoffs_update f10 st)"
    and notices: "R st (db_notices_update f11 st)"
    and registry_history: "R st (st\<lparr>db_registry_history := h, db_registry_seq := db_registry_seq st + n\<rparr>)"
    and offer_history: "R st (st\<lparr>db_offer_history := h', db_offer_seq := db_offer_seq st + n\<rparr>)"
    and transparency: "R st (db_transparency_update (\<lambda>rows. rows @ [te]) st)"
    and receipts: "R st (db_receipts_update (\<lambda>rows. rows @ [rr]) st)"
    and deletions: "\<not> list_ex (same d_chain dr) (db_deletions st) \<Longrightarrow> R st (db_deletions_update (\<lambda>rows. rows @ [dr]) st)"
begin

lemmas table_laws = cursors objects registry data_log outcomes offers rates staged payload_nonces handoffs notices
  registry_history offer_history transparency receipts deletions

text \<open>The completion of the open deletions is one step: a relation may depend on which rows it rewrites.\<close>

lemma completing_from:
  assumes "\<And>vr st. R st (db_delete_versions_update (\<lambda>rows. rows @ [vr]) st)"
    and "\<And>ci pf st. R st (db_deletions_update (map (\<lambda>r. if d_chain r = ci then r\<lparr>d_proof := pf\<rparr> else r)) st)"
  shows "keeps R (bindM (select_all db_deletions open_deletion) (\<lambda>rows. foldM (complete_deletion X cfg) rows ()))"
  unfolding complete_deletion_def by (intro flow statements assms)

end

text \<open>What the transactions around the handlers write, and that they are kept or undone.\<close>

locale relay_order = statement_order +
  fixes X :: ext
  assumes rollback: "R st st' \<Longrightarrow> R st (rollback_to st st')"
    and counters: "db_tick st \<le> t \<Longrightarrow> db_ids st \<le> i \<Longrightarrow> R st (st\<lparr>db_tick := t, db_ids := i\<rparr>)"
    and saved: "R st (db_chains_update (\<lambda>rows. rows @ [c]) st)"
      "R st (db_chains_update (map (\<lambda>c'. if same ch_id c c' then c else c')) st)"
    and heads: "R st (db_heads_update (\<lambda>rows. rows @ [hr]) st)"
    and completing: "keeps R (bindM (select_all db_deletions open_deletion) (\<lambda>rows. foldM (complete_deletion X cfg) rows ()))"
    and erasure: "R st (db_cursors_update f6 st)" "R st (db_registry_history_update (filter p1) st)"
      "R st (db_offer_history_update (filter p2) st)"
    and barrier: "R st (st\<lparr>db_barrier := Some (case db_barrier st of None \<Rightarrow> t' | Some b \<Rightarrow> max b t')\<rparr>)"
    and operator_row: "\<not> (case db_operator st of None \<Rightarrow> False | Some r \<Rightarrow> operator_conflict X cfg r) \<Longrightarrow>
      R st (db_operator_update (\<lambda>row. Some (disclosed X cfg row)) st)"
    and authenticating: "keeps R (authenticate X cfg rq)"
begin

text \<open>A transaction is kept, or undone: then only the counters have moved.\<close>

lemma keeps_transaction: "keeps R m \<Longrightarrow> keeps R (transaction m)"
  unfolding keeps_def transaction_def by (auto split: prod.splits sum.splits) (metis rollback snd_conv)+

lemma keeps_run_tx: "keeps R m \<Longrightarrow> keeps R (run_tx fails m)"
  unfolding keeps_def run_tx_def by (auto split: prod.splits sum.splits failure.splits) (metis rollback snd_conv)+

lemma keeps_keep_tx: "keeps R m \<Longrightarrow> keeps R (keep_tx W i m)"
  unfolding keeps_def keep_tx_def
  by (auto simp: order_refl split: prod.splits sum.splits failure.splits) (metis rollback snd_conv)+

lemmas transactions = keeps_transaction keeps_run_tx keeps_keep_tx
lemmas relay_laws = saved heads erasure barrier

end

subsection \<open>Every operation, walked through once\<close>

context reading_order
begin

lemmas reading_steps = flow statements cursors

lemmas reads = read_only_auth [THEN keeps_read] read_only_delete_authority [THEN keeps_read] read_only_checks [THEN keeps_read]
  read_only_device [THEN keeps_read] read_only_envelope [THEN keeps_read] read_only_bundle [THEN keeps_read]
  read_only_record [THEN keeps_read] read_only_compaction [THEN keeps_read] read_only_mutation [THEN keeps_read]
  read_only_enroll_checks [THEN keeps_read] read_only_epoch_checks [THEN keeps_read] read_only_reseed [THEN keeps_read]
  read_only_object [THEN keeps_read] read_only_append_known [THEN keeps_read]

lemma read_receipt: "keeps R (receipt ci kind oid)"
  unfolding receipt_def by (intro reading_steps)

lemma keeps_guard: "keeps R (write_guard X cfg)" "keeps R (quota X cfg ci)"
  unfolding write_guard_def quota_def by (intro reading_steps)+

lemma keeps_proof: "keeps R (deletion_proof ci)"
  unfolding deletion_proof_def by (intro reading_steps)

lemma keeps_page: "keeps R (page X cfg c resource q filters)" "keeps R (next_cursor X cfg p has_more)"
  unfolding page_def page_resume_def next_cursor_def cursor_def Let_def by (intro reading_steps keeps_guard)+

lemma keeps_log_page: "keeps R (log_page X cfg c a route q)"
  unfolding log_page_def finish_def Let_def by (intro reading_steps keeps_page)

lemma keeps_item: "keeps R (object_item X c p route oid body)" "keeps R (epoch_wrapper X c v)"
proof -
  have "read_only (registry_as_of c d n)" for d n
    by (auto simp: read_only_def registry_as_of_def split: list.splits)
  note as_of = this [THEN keeps_read]
  show "keeps R (object_item X c p route oid body)" "keeps R (epoch_wrapper X c v)"
    unfolding object_item_def device_item_def epoch_wrapper_def Let_def by (intro reading_steps as_of)+
qed

lemma keeps_objects_loop: "keeps R (objects_loop X c route param epoch p items bytes rows)"
proof (induction rows arbitrary: p items bytes)
  case (Cons r rows)
  show ?case unfolding objects_loop.simps by (intro reading_steps keeps_item Cons.IH)
qed (simp add: basic_steps)

lemma keeps_objects_page: "keeps R (objects_page X cfg c a route param q)"
  unfolding objects_page_def expired_def finish_def Let_def by (intro reading_steps keeps_page keeps_objects_loop)

lemma keeps_export: "keeps R (export X cfg c a q)"
  unfolding export_def export_start_def Let_def by (intro reading_steps keeps_page)

lemma keeps_transparency_page: "keeps R (transparency_page X cfg c q)"
  unfolding transparency_page_def audit_start_def audit_answer_def anchor_hash_def finish_def Let_def
  by (intro reading_steps keeps_page)

lemma keeps_read_answers: "keeps R (dispatch_read X cfg c a ep q)"
  unfolding dispatch_read_def parameters_answer_def notice_answer_def recovery_answer_def part_answer_def receipt_answer_def
    requests_def expired_def Let_def
  by (intro reading_steps reads read_receipt keeps_page keeps_item keeps_objects_page keeps_log_page keeps_transparency_page)

lemma keeps_error: "keeps R (error_response X e)" "keeps R (finish_response X path r)"
  unfolding error_response_def finish_response_def by (auto split: failure.splits intro!: reading_steps)

end

context statement_order
begin

lemmas steps = flow statements table_laws

lemma triggers: "keeps R (registry_trigger rows)" "keeps R (offer_trigger rows')"
  unfolding registry_trigger_def offer_trigger_def by (intro keeps_modify registry_history offer_history)+

lemma keeps_put_object: "keeps R (put_object X ci kind v place)"
  unfolding put_object_def Let_def by (intro steps reads)

lemma keeps_transparency: "keeps R (transparency X cfg c op digest seq code)"
  unfolding transparency_def Let_def by (intro steps)

lemma keeps_append_log: "keeps R (append_log X c kind oid v)"
  unfolding append_log_def Let_def by (intro steps keeps_put_object)

lemma keeps_receipt: "keeps R (make_receipt X cfg c v link)" "keeps R (store_receipt c kind oid r)"
  unfolding make_receipt_def store_receipt_def by (intro steps)+

lemma keeps_append: "keeps R (append_entry X cfg c kind v)"
  unfolding append_entry_def append_new_def Let_def
  by (intro steps reads keeps_append_log keeps_transparency keeps_receipt)

lemma keeps_snapshot_part: "keeps R (snapshot_part X cfg c v)"
  unfolding snapshot_part_def Let_def by (intro steps reads read_receipt keeps_put_object keeps_transparency keeps_receipt)

lemma keeps_outcome: "keeps R (outcome X ci scope oid v resp)"
  unfolding outcome_def by (intro steps)

lemma keeps_notice: "keeps R (publish_notice X cfg c)"
  unfolding publish_notice_def Let_def by (intro steps keeps_transparency)

lemma keeps_chain_new: "keeps R (chain_new X cfg p e log_id)"
  unfolding chain_new_def Let_def by (intro steps)

lemmas store_steps = keeps_guard keeps_put_object keeps_append keeps_transparency keeps_outcome keeps_notice
  keeps_chain_new keeps_snapshot_part keeps_receipt

lemma keeps_rate: "keeps R (rate X cfg scope identity)"
  unfolding rate_def Let_def by (intro steps)

text \<open>Authentication writes nonces and rates only.\<close>

lemma authenticate_keeps: "(\<And>f st. R st (db_nonces_update f st)) \<Longrightarrow> keeps R (authenticate X cfg rq)"
  unfolding authenticate_def reserve_nonce_def Let_def by (intro steps reads keeps_rate)

lemma keeps_registry: "keeps R (register c d seq state)" "keeps R (update_registry p f)" "keeps R (revoke_device c seq d u)"
  unfolding revoke_device_def register_def update_registry_def Let_def by (intro steps triggers)+

lemma keeps_commit: "keeps R (commit_devices X cfg b d acc)" "keeps R (commit_objects X cfg kind v acc')"
  unfolding commit_devices_def commit_objects_def Let_def by (intro steps store_steps keeps_registry)+

lemma keeps_commit_epoch: "keeps R (commit_epoch X cfg c ec)"
  unfolding commit_epoch_def Let_def by (intro steps store_steps keeps_commit keeps_registry)

lemma keeps_payload_nonce: "keeps R (reserve_payload_nonce c v)"
  unfolding reserve_payload_nonce_def by (intro steps reads)

lemma keeps_enroll: "keeps R (enroll X cfg c a v request)"
  unfolding enroll_def append_all_def Let_def by (intro steps reads store_steps keeps_registry keeps_commit)

lemma keeps_epoch_handler: "keeps R (epoch_handler X cfg c a v tg)"
  unfolding epoch_handler_def Let_def by (intro steps reads store_steps keeps_commit_epoch)

lemma keeps_offers: "keeps R (insert_offer row)" "keeps R (update_offers p f)"
  unfolding insert_offer_def update_offers_def by (intro steps triggers)+

lemma keeps_offer: "keeps R (offer X c a v)" "keeps R (enrollment_request X c v)"
  unfolding offer_def enrollment_request_def Let_def by (intro steps reads store_steps keeps_offers)+

lemma keeps_approve: "keeps R (approve X cfg c a oid v rejecting)"
  unfolding approve_def Let_def by (intro steps reads store_steps keeps_offers keeps_enroll)

lemma keeps_ack: "keeps R (ack X c a oid v)"
  unfolding ack_def by (intro steps reads keeps_registry)

lemma keeps_snapshot: "keeps R (snapshot X cfg c v)"
  unfolding snapshot_def Let_def by (intro steps reads store_steps)

lemma keeps_expire: "keeps R (expire X c)"
  unfolding expire_def expire_epoch_def by (intro steps)

lemma keeps_handoff: "keeps R (handoff X c cmp through)"
  unfolding handoff_def handoff_epoch_def committed_at_def Let_def by (intro steps reads keeps_expire)

lemma keeps_prune: "keeps R (prune X cfg c a v)"
  unfolding prune_def prune_rows_def Let_def by (intro steps reads store_steps keeps_handoff)

lemma keeps_delete_chain: "keeps R (delete_chain X cfg c a v)"
  unfolding delete_chain_def Let_def by (intro steps reads store_steps keeps_commit)

lemma keeps_attempt: "keeps R (attempt X cfg u i c r)"
  unfolding attempt_def attempt_envelope_def attempt_repair_def attempt_record_def expired_def Let_def
  by (intro steps reads store_steps keeps_proof keeps_payload_nonce)

lemma keeps_stage_device: "keeps R (stage_device X chain adm d acc)"
  unfolding stage_device_def signer_key_def Let_def by (intro steps reads store_steps)

lemma keeps_resolve: "keeps R (resolve_devices X chain adm unresolved verified)"
proof -
  have "R st (snd (resolve_devices X chain adm unresolved verified st))" for st
  proof (induction X chain adm unresolved verified st rule: resolve_devices.induct)
    case (1 X chain adm unresolved verified st)
    have pass: "keeps R (foldM (stage_device X chain adm) unresolved (verified, []))" by (intro steps keeps_stage_device)
    show ?case
    proof (cases "foldM (stage_device X chain adm) unresolved (verified, []) st")
      case (Pair r st1)
      have one: "R st st1" by (rule keepsD [OF pass Pair])
      show ?thesis
      proof (cases "\<exists>verified' todo. r = Inr (verified', todo) \<and> length todo \<noteq> length unresolved \<and> unresolved \<noteq> []")
        case True
        then obtain verified' todo where r: "r = Inr (verified', todo)" "length todo \<noteq> length unresolved" "unresolved \<noteq> []" by blast
        from 1 [OF r(3) Pair [symmetric] r(1) refl r(2)]
        have "R st1 (snd (resolve_devices X chain adm todo verified' st1))" .
        with one r Pair show ?thesis by (subst resolve_devices.simps) (auto intro: order_trans)
      next
        case False
        with one Pair show ?thesis
          by (subst resolve_devices.simps) (auto simp: order_refl split: sum.splits)
      qed
    qed
  qed
  then show ?thesis by (simp add: keeps_def)
qed

lemma keeps_reseed: "keeps R (reseed X cfg old a v)"
  unfolding reseed_def reseed_checks_def reseed_chain_def reseed_commit_def reseed_kind_def reseed_object_def Let_def
  by (intro steps reads store_steps keeps_registry keeps_commit_epoch)

lemma keeps_dispatch: "keeps R (dispatch X cfg c a ep q v)"
  unfolding dispatch_def dispatch_write_def Let_def
  by (intro steps reads keeps_export keeps_read_answers keeps_enroll keeps_epoch_handler keeps_offer keeps_approve keeps_ack
      keeps_snapshot keeps_prune keeps_reseed keeps_delete_chain)

end

context relay_order
begin

lemma keeps_save: "keeps R (save X cfg c)"
  unfolding save_def Let_def same_def by (intro steps relay_laws keeps_guard saved(2) [unfolded same_def])

lemmas all_steps = steps transactions relay_laws keeps_save

lemma keeps_genesis: "keeps R (genesis X cfg v)"
  unfolding genesis_def Let_def by (intro all_steps reads store_steps keeps_commit_epoch)

lemma keeps_maintenance: "keeps R (maintenance X cfg)"
  unfolding maintenance_def maintain_chain_def by (intro all_steps reads store_steps keeps_expire)

lemma keeps_erase: "keeps R (erase busy)"
  unfolding erase_def erase_chain_def by (intro all_steps)

lemma keeps_mark: "keeps R (mark_completed X cfg)"
  unfolding mark_completed_def by (rule keeps_transaction [OF completing])

lemma keeps_completion: "keeps R (complete_deletions X cfg busy)"
  unfolding complete_deletions_def by (intro keeps_bind keeps_erase keeps_mark)

lemma keeps_audit: "keeps R (audit_reject X cfg F i ci r code)"
  unfolding audit_reject_def by (intro all_steps reads store_steps)

lemma keeps_upload_one: "keeps R (upload_one X cfg F u i r rest acc)"
  unfolding upload_one_def upload_rejected_def fail_rest_def Let_def
  by (intro all_steps reads store_steps keeps_attempt keeps_audit)

lemma keeps_upload_loop: "keeps R (upload_loop X cfg F u i rs acc)"
  by (induction rs arbitrary: i acc) (auto intro!: all_steps keeps_upload_one)

lemma keeps_upload: "keeps R (upload X cfg F u)"
  unfolding upload_def upload_checks_def upload_response_def Let_def
  by (intro all_steps reads store_steps keeps_upload_loop)

lemma keeps_stage: "keeps R (stage X cfg v)"
  unfolding stage_def stage_history_def stage_parameters_def stage_epoch_def stage_envelope_def stage_compaction_def
    check_previous_def check_epoch_def check_member_def historical_key_def staged_bodies_def recheck_parameters_def
    recheck_epoch_def Let_def
  by (intro all_steps reads store_steps keeps_resolve)

lemma keeps_handler_body: "keeps R (handler_body X cfg mt a ep q v)"
  unfolding handler_body_def by (intro all_steps reads store_steps keeps_genesis keeps_stage keeps_dispatch)

lemma keeps_reject_entry: "keeps R (foldM (reject_entry X cfg code) objs c)"
  unfolding reject_entry_def by (intro all_steps store_steps)

lemma keeps_audit_rejected: "keeps R (audit_rejected X cfg W ci v code)"
  unfolding audit_rejected_def by (intro all_steps reads store_steps keeps_reject_entry)

lemma keeps_serve: "keeps R (serve X cfg W mt a ep q v)"
  unfolding serve_def deleted_answer_def
  by (intro all_steps reads keeps_proof keeps_handler_body keeps_audit_rejected keeps_completion)

lemma keeps_prepare: "keeps R (prepare X cfg W rq)"
  unfolding prepare_def public_documents_def enrollment_def enrollment_candidate_def authorized_def serve_upload_def
    health_def Let_def
  by (intro all_steps reads store_steps keeps_rate keeps_offer keeps_proof keeps_upload authenticating)

lemma keeps_handle: "R (ap_db ap) (ap_db (snd (handle X cfg W rq ap)))"
  by (rule handle_keeps [OF keeps_counters(1) keeps_prepare keeps_serve])

lemma keeps_bind_operator: "keeps R (bind_operator X cfg)"
  using operator_row by (simp add: keeps_def bind_operator_def bindM_def rejectM_def reject_def order_refl lift_def)

lemma keeps_app_new: "keeps R (app_new X cfg busy)"
  unfolding app_new_def start_barrier_def republish_def Let_def
  by (intro all_steps reads store_steps keeps_completion keeps_modify keeps_bind_operator)

end

end
