(* ===== verification/Relay_System.thy ===== *)
theory Relay_System
  imports Relay_Frame
begin

text \<open>
  The relay as a whole. \<open>relay_tx\<close> is one committed transaction of any request, of the maintenance or of
  a start; a sequence of them is what concurrent requests do to the database, in any interleaving. Every
  run of \<^verbatim>\<open>handle\<close>, whatever fails on the way, is such a sequence; what every transaction keeps holds in
  every state the relay can reach.
\<close>

subsection \<open>Transactions\<close>

definition save_after :: "ext \<Rightarrow> config \<Rightarrow> (chain \<times> 'a) tx \<Rightarrow> chain tx" where
  "save_after X cfg m = bindM m (\<lambda>(c, _). bindM (save X cfg c) (\<lambda>_. ret c))"

text \<open>
  The transactions, each with the configuration it ran under. A clock may be read, and an identifier
  drawn, at any time: that is all a transaction that is rolled back leaves. A failed authentication or
  rate check is committed. (The rates and the savepoint of an unauthenticated request are one
  transaction of the source and up to three steps here.)
\<close>

inductive relay_tx :: "ext \<Rightarrow> db \<Rightarrow> db \<Rightarrow> bool" for X where
  tx_clock: "db_tick st \<le> t \<Longrightarrow> db_ids st \<le> i \<Longrightarrow> relay_tx X st (st\<lparr>db_tick := t, db_ids := i\<rparr>)"
| tx_authenticate: "authenticate X cfg rq st = (r, st') \<Longrightarrow> relay_tx X st st'"
| tx_rate: "rate X cfg scope identity st = (r, st') \<Longrightarrow> relay_tx X st st'"
| tx_enroll: "enrollment_candidate X cfg ci q v st = (Inr r, st') \<Longrightarrow> relay_tx X st st'"
| tx_handler: "handler_body X cfg mt a ep q v st = (Inr r, st') \<Longrightarrow> relay_tx X st st'"
| tx_item: "load (ur_chain u) st = (Inr (Some c), st) \<Longrightarrow> save_after X cfg (attempt X cfg u i c r) st = (Inr c', st')
    \<Longrightarrow> relay_tx X st st'"
| tx_audit: "load ci st = (Inr (Some c), st) \<Longrightarrow>
    bindM (foldM (reject_entry X cfg code) objs c) (\<lambda>c. save X cfg c) st = (Inr (), st') \<Longrightarrow> relay_tx X st st'"
| tx_erase: "foldM erase_chain (map d_chain (filter open_deletion (db_deletions st))) () st = (Inr (), st') \<Longrightarrow> relay_tx X st st'"
| tx_complete: "foldM (complete_deletion X cfg) (filter open_deletion (db_deletions st)) () st = (Inr (), st') \<Longrightarrow> relay_tx X st st'"
| tx_maintain: "maintenance X cfg st = (Inr (), st') \<Longrightarrow> relay_tx X st st'"
| tx_bind: "bindM (start_barrier X cfg) (\<lambda>_. bind_operator X cfg) st = (Inr (), st') \<Longrightarrow> relay_tx X st st'"
| tx_republish: "foldM (republish X cfg) (filter (\<lambda>ci. ci \<notin> set (map d_chain (db_deletions st))) (map ch_id (db_chains st))) () st
    = (Inr (), st') \<Longrightarrow> relay_tx X st st'"

inductive relay_run :: "ext \<Rightarrow> db \<Rightarrow> db \<Rightarrow> bool" for X where
  run_start: "relay_run X st st"
| run_step: "relay_run X st st1 \<Longrightarrow> relay_tx X st1 st2 \<Longrightarrow> relay_run X st st2"

inductive_cases relay_txE: "relay_tx X st st'"

lemma run_trans: "relay_run X b c \<Longrightarrow> relay_run X a b \<Longrightarrow> relay_run X a c"
  by (induction rule: relay_run.induct) (auto intro: run_step)

lemma run_one: "relay_tx X st st' \<Longrightarrow> relay_run X st st'"
  by (rule run_step [OF run_start])

text \<open>What the statements keep, every transaction keeps.\<close>

context relay_order
begin

lemma tx_kept: "relay_tx X st st' \<Longrightarrow> R st st'"
proof (induction rule: relay_tx.induct)
  case (tx_clock st t i)
  then show ?case by (rule counters)
next
  case (tx_enroll cfg ci q v st r st')
  have "keeps R (enrollment_candidate X cfg ci q v)" unfolding enrollment_candidate_def
    by (intro all_steps reads store_steps keeps_proof keeps_offer)
  from keepsD [OF this tx_enroll] show ?case .
next
  case (tx_item u st c cfg i r c' st')
  have "keeps R (save_after X cfg (attempt X cfg u i c r))"
    unfolding save_after_def by (intro all_steps keeps_attempt)
  from keepsD [OF this tx_item(2)] show ?case .
next
  case (tx_audit ci st c cfg code objs st')
  have "keeps R (bindM (foldM (reject_entry X cfg code) objs c) (\<lambda>c. save X cfg c))"
    by (intro all_steps keeps_reject_entry)
  from keepsD [OF this tx_audit(2)] show ?case .
next
  case (tx_erase st st')
  have "keeps R (foldM erase_chain cis ())" for cis
    unfolding erase_chain_def by (intro all_steps)
  from keepsD [OF this tx_erase] show ?case .
next
  case (tx_complete cfg st st')
  have "bindM (select_all db_deletions open_deletion) (\<lambda>rows. foldM (complete_deletion X cfg) rows ()) st = (Inr (), st')"
    using tx_complete by (simp add: bindM_run)
  from keepsD [OF completing this] show ?case .
next
  case (tx_bind cfg st st')
  have "keeps R (bindM (start_barrier X cfg) (\<lambda>_. bind_operator X cfg))"
    unfolding start_barrier_def Let_def by (intro all_steps keeps_modify keeps_bind_operator)
  from keepsD [OF this tx_bind] show ?case .
next
  case (tx_republish cfg st st')
  have "keeps R (foldM (republish X cfg) cis ())" for cis
    unfolding republish_def by (intro all_steps reads store_steps)
  from keepsD [OF this tx_republish] show ?case .
qed (auto dest: keepsD [OF authenticating] keepsD [OF keeps_rate] keepsD [OF keeps_handler_body]
    keepsD [OF keeps_maintenance])

lemma run_kept: "relay_run X st st' \<Longrightarrow> R st st'"
  by (induction rule: relay_run.induct) (auto intro: order_refl order_trans tx_kept)

end

interpretation run: state_order "relay_run X"
  by unfold_locales (auto intro: run_start run_trans)

subsection \<open>The evidence is kept\<close>

text \<open>
  The tables of evidence only grow: the transparency log, the receipts, the published heads and the
  versions of deletion proofs; a deleted chain stays deleted, a chain is never forgotten, and the clock
  and the source of identifiers are not set back.
\<close>

definition evidence_kept :: "db \<Rightarrow> db \<Rightarrow> bool" where
  "evidence_kept st st' \<longleftrightarrow>
     prefix (db_transparency st) (db_transparency st') \<and> prefix (db_receipts st) (db_receipts st')
   \<and> prefix (db_heads st) (db_heads st') \<and> prefix (db_delete_versions st) (db_delete_versions st')
   \<and> prefix (map d_chain (db_deletions st)) (map d_chain (db_deletions st'))
   \<and> prefix (map ch_id (db_chains st)) (map ch_id (db_chains st'))
   \<and> db_tick st \<le> db_tick st' \<and> db_ids st \<le> db_ids st'"

interpretation evidence: statement_order evidence_kept
  by unfold_locales (auto simp: evidence_kept_def intro: prefix_order.trans)

lemma evidence_authenticate: "keeps evidence_kept (authenticate X cfg rq)"
  by (rule evidence.authenticate_keeps) (simp add: evidence_kept_def)

lemma map_same_ids: "map ch_id (map (\<lambda>c'. if same ch_id c c' then c else c') cs) = map ch_id cs"
  by (induction cs) (auto simp: same_def)

lemma map_same_chains: "map d_chain (map (\<lambda>r. if d_chain r = ci then r\<lparr>d_proof := pf\<rparr> else r) rows) = map d_chain rows"
  by (induction rows) auto

interpretation evidence: relay_order evidence_kept X for X
  by unfold_locales (auto simp: evidence_kept_def rollback_to_def map_same_ids map_same_chains evidence_authenticate
      simp del: map_map intro!: evidence.completing_from intro: prefix_order.trans)

subsection \<open>Every request is a sequence of transactions\<close>

lemma run_clock: "keeps (relay_run X) (now X)" "keeps (relay_run X) (new_id X)"
proof -
  have "relay_tx X st (st\<lparr>db_tick := Suc (db_tick st), db_ids := db_ids st\<rparr>)"
    "relay_tx X st (st\<lparr>db_tick := db_tick st, db_ids := Suc (db_ids st)\<rparr>)" for st
    by (rule tx_clock; simp)+
  moreover have "st\<lparr>db_ids := db_ids st\<rparr> = st" "st\<lparr>db_tick := db_tick st\<rparr> = st" for st :: db by simp_all
  ultimately show "keeps (relay_run X) (now X)" "keeps (relay_run X) (new_id X)"
    by (simp_all add: keeps_def run_one)
qed

text \<open>What a rolled back transaction leaves.\<close>

lemma run_undone: "evidence_kept st st' \<Longrightarrow> relay_run X st (rollback_to st st')"
  unfolding rollback_to_def evidence_kept_def by (intro run_one tx_clock) simp_all

lemma run_transaction:
  assumes "keeps evidence_kept m" and "\<And>x st'. m st = (Inr x, st') \<Longrightarrow> relay_run X st st'"
  shows "relay_run X st (snd (transaction m st))" "relay_run X st (snd (run_tx fails m st))"
proof -
  have undone: "relay_run X st (rollback_to st st')" if "m st = (r, st')" for r st'
    by (rule run_undone [OF keepsD [OF assms(1) that]])
  show "relay_run X st (snd (transaction m st))" "relay_run X st (snd (run_tx fails m st))"
    using assms(2) undone by (auto simp: transaction_def run_tx_def split: prod.splits sum.splits failure.splits)
qed

lemma run_keep_tx:
  assumes "keeps evidence_kept m" and "keeps (relay_run X) m"
  shows "keeps (relay_run X) (keep_tx W i m)"
proof -
  have "relay_run X st (rollback_to st st')" if "m st = (r, st')" for r st st'
    by (rule run_undone [OF keepsD [OF assms(1) that]])
  with keepsD [OF assms(2)] show ?thesis
    by (auto simp: keeps_def keep_tx_def run_start split: prod.splits sum.splits failure.splits)
qed

lemma run_bind_at: "relay_run X st (snd (m st)) \<Longrightarrow> (\<And>x. keeps (relay_run X) (f x)) \<Longrightarrow> relay_run X st (snd (bindM m f st))"
  unfolding keeps_def bindM_def by (auto split: prod.splits sum.splits) (metis run_trans snd_conv)+

lemma run_bind_load:
  assumes "keeps (relay_run X) (f None)"
    and "\<And>c st. load ci st = (Inr (Some c), st) \<Longrightarrow> relay_run X st (snd (f (Some c) st))"
  shows "keeps (relay_run X) (bindM (load ci) f)"
proof -
  have "relay_run X st (snd (f c st))" if "load ci st = (Inr c, st)" for c st
    using that assms by (cases c) (simp_all add: keeps_def)
  then show ?thesis by (auto simp: keeps_def bindM_def load_def)
qed

lemmas run_flow = run.flow run_clock read_only_auth [THEN run.keeps_read]

lemma run_guard: "keeps (relay_run X) (write_guard X cfg)" "keeps (relay_run X) (quota X cfg ci)"
  unfolding write_guard_def quota_def by (intro run_flow)+

lemma run_item_audit: "keeps (relay_run X) (audit_reject X cfg F i ci r code)"
proof -
  let ?m = "bindM (load ci) (\<lambda>c. bindM (lift (ok_or ''CHAIN_NOT_FOUND'' c)) (\<lambda>c.
     bindM (transparency X cfg c ''reject'' (object_hash X r) None (Some code)) (\<lambda>(c, _, _).
     bindM (save X cfg c) (\<lambda>_. ret c))))"
  have run: "relay_run X st st'" if m: "?m st = (Inr x, st')" for st x st'
  proof -
    from m obtain c where "load ci st = (Inr (Some c), st)"
      "bindM (foldM (reject_entry X cfg code) [r] c) (\<lambda>c. save X cfg c) st = (Inr (), st')"
      by (fastforce simp: bindM_run load_def reject_entry_def split: prod.splits)
    then show ?thesis by (rule run_one [OF tx_audit])
  qed
  have keep: "keeps evidence_kept ?m" by (intro evidence.all_steps evidence.reads evidence.store_steps)
  have "relay_run X st (snd (run_tx fails (lift (Inl sql_error :: chain res)) st))" for st fails
    by (rule run_transaction(2) [OF evidence.basic_steps(3)]) simp
  with run_transaction(2) [OF keep run] show ?thesis by (simp add: keeps_def audit_reject_def)
qed

lemma run_fail_rest: "keeps (relay_run X) (fail_rest idk e rs acc)"
  unfolding fail_rest_def by (intro run_flow)

lemma run_upload_one: "keeps (relay_run X) (upload_one X cfg F u i r rest acc)"
proof -
  have item: "relay_run X st (snd (run_tx fails (bindM (attempt X cfg u i c r) (\<lambda>(c, item, rc).
       bindM (save X cfg c) (\<lambda>_. ret (c, item, rc)))) st))"
    if c: "load (ur_chain u) st = (Inr (Some c), st)" for c fails st
  proof (rule run_transaction)
    show "keeps evidence_kept (bindM (attempt X cfg u i c r) (\<lambda>(c, item, rc). bindM (save X cfg c) (\<lambda>_. ret (c, item, rc))))"
      by (intro evidence.all_steps evidence.keeps_attempt)
    fix x st' assume "bindM (attempt X cfg u i c r) (\<lambda>(c, item, rc). bindM (save X cfg c) (\<lambda>_. ret (c, item, rc))) st = (Inr x, st')"
    then have "\<exists>c'. save_after X cfg (attempt X cfg u i c r) st = (Inr c', st')"
      by (auto simp: save_after_def bindM_run split: prod.splits)
    with c show "relay_run X st st'" by (auto intro: run_one tx_item)
  qed
  have rest: "keeps (relay_run X) (upload_rejected X cfg F u i r rest e acc)" for e acc
    unfolding upload_rejected_def Let_def by (intro run_flow run_item_audit run_fail_rest)
  show ?thesis unfolding upload_one_def Let_def
    by (intro run.keeps_cases(2) run_fail_rest run_bind_load; (intro run_fail_rest)?;
        simp only: option.case; intro run_bind_at item run_flow run_fail_rest rest; assumption)
qed

lemma run_upload_loop: "keeps (relay_run X) (upload_loop X cfg F u i rs acc)"
  by (induction rs arbitrary: i acc) (auto intro!: run_flow run_upload_one)

lemma run_upload: "keeps (relay_run X) (upload X cfg F u)"
  unfolding upload_def upload_checks_def upload_response_def Let_def by (intro run_flow run_guard run_upload_loop)

lemma run_completion: "keeps (relay_run X) (complete_deletions X cfg busy)"
proof -
  have er: "keeps evidence_kept (foldM erase_chain cis ())" for cis
    unfolding erase_chain_def by (intro evidence.all_steps)
  have "keeps (relay_run X) (transaction (bindM (select_all db_deletions open_deletion) (\<lambda>rows.
        bindM (foldM erase_chain (map d_chain rows) ()) (\<lambda>_. ret (rows \<noteq> [])))))"
    unfolding keeps_def
    by (intro allI run_transaction(1)) (auto intro!: evidence.flow er run_one tx_erase simp: bindM_run)
  moreover have "keeps (relay_run X) (transaction (bindM (select_all db_deletions open_deletion) (\<lambda>rows.
        foldM (complete_deletion X cfg) rows ())))"
    unfolding keeps_def
    by (intro allI run_transaction(1) evidence.completing) (auto intro!: run_one tx_complete simp: bindM_run)
  ultimately have "keeps (relay_run X) (erase busy)" "keeps (relay_run X) (mark_completed X cfg)"
    unfolding erase_def mark_completed_def by (auto intro: run.flow)
  then show ?thesis unfolding complete_deletions_def by (intro run.flow)
qed

lemma run_audit_rejected: "keeps (relay_run X) (audit_rejected X cfg W ci v code)"
proof -
  have audit: "relay_run X st (snd (run_tx fails (bindM (foldM (reject_entry X cfg code) objs c) (\<lambda>c. save X cfg c)) st))"
    if "load ci st = (Inr (Some c), st)" for c objs fails st
    using that by (intro run_transaction) (auto intro!: evidence.all_steps evidence.keeps_reject_entry run_one intro: tx_audit)
  then have load: "keeps (relay_run X) (bindM (load ci) (\<lambda>c. case c of None \<Rightarrow> ret () | Some c \<Rightarrow>
      bindM (run_tx fails (bindM (foldM (reject_entry X cfg code) objs c) (\<lambda>c. save X cfg c))) (\<lambda>done. lift (committed done))))"
    for objs fails
    by (intro run_bind_load) (auto intro: run.basic_steps run_bind_at)
  show ?thesis unfolding audit_rejected_def
    by (rule run.keeps_cases(2), rule run.basic_steps, rule run.keeps_bind, rule run.basic_steps)
      (intro run.keeps_cases(2) run.basic_steps load)
qed

lemma run_serve: "keeps (relay_run X) (serve X cfg W mt a ep q v)"
proof -
  have handler: "keeps (relay_run X) (run_tx fails (handler_body X cfg mt a ep q v))" for fails
    using run_transaction(2) [OF evidence.keeps_handler_body] run_one [OF tx_handler] by (simp add: keeps_def)
  have proof_read: "keeps (relay_run X) (deletion_proof ci)" for ci
    unfolding deletion_proof_def by (intro run.flow)
  show ?thesis unfolding serve_def deleted_answer_def
    by (intro run.flow proof_read handler run_audit_rejected run_completion)
qed

lemma run_rate: "keeps (relay_run X) (rate X cfg scope identity)"
  unfolding keeps_def by (metis run_one tx_rate surjective_pairing)

lemma run_authenticate: "keeps (relay_run X) (authenticate X cfg rq)"
  unfolding keeps_def by (metis run_one tx_authenticate surjective_pairing)

lemma run_prepare: "keeps (relay_run X) (prepare X cfg W rq)"
proof -
  have candidate: "keeps evidence_kept (enrollment_candidate X cfg ci q v)" for ci q v
    unfolding enrollment_candidate_def
    by (intro evidence.all_steps evidence.reads evidence.store_steps evidence.keeps_proof evidence.keeps_offer)
  have enroll: "keeps (relay_run X) (transaction (enrollment_candidate X cfg ci q v))" for ci q v
    using run_transaction(1) [OF candidate] run_one [OF tx_enroll] by (simp add: keeps_def)
  note rates = run_keep_tx [OF evidence.keeps_rate run_rate] run_keep_tx [OF evidence_authenticate run_authenticate]
  have request: "keeps (relay_run X) (keep_tx W i (bindM (rate X cfg s1 i1) (\<lambda>_. bindM (rate X cfg s2 i2) (\<lambda>_.
      transaction (enrollment_candidate X cfg ci q v)))))" for i s1 i1 s2 i2 ci q v
    by (intro run_keep_tx run.flow run_rate enroll evidence.all_steps evidence.keeps_rate candidate)
  show ?thesis
    unfolding prepare_def public_documents_def enrollment_def authorized_def serve_upload_def health_def Let_def
    by (intro run_flow run_guard rates request run_upload)
qed

text \<open>So is a start, and so is the maintenance.\<close>

lemma run_app_new: "keeps (relay_run X) (app_new X cfg busy)"
proof -
  have notices: "keeps evidence_kept (foldM (republish X cfg) cis ())" for cis
    unfolding republish_def by (intro evidence.all_steps evidence.reads evidence.store_steps)
  have bind: "keeps evidence_kept (bindM (start_barrier X cfg) (\<lambda>_. bind_operator X cfg))"
    unfolding start_barrier_def by (intro evidence.all_steps evidence.keeps_modify evidence.keeps_bind_operator)
  have "keeps (relay_run X) (transaction (bindM (start_barrier X cfg) (\<lambda>_. bind_operator X cfg)))"
    unfolding keeps_def using run_transaction(1) [OF bind] run_one [OF tx_bind] by simp
  moreover have "keeps (relay_run X) (transaction
       (bindM (gets (\<lambda>st. filter (\<lambda>ci. ci \<notin> set (map d_chain (db_deletions st))) (map ch_id (db_chains st)))) (\<lambda>ids.
        foldM (republish X cfg) ids ())))"
    unfolding keeps_def
    by (intro allI run_transaction(1)) (auto intro!: evidence.flow notices run_one tx_republish simp: bindM_run)
  ultimately show ?thesis unfolding app_new_def by (intro run.flow run_completion)
qed

lemma run_maintenance: "keeps (relay_run X) (maintenance X cfg)"
proof -
  have "relay_run X st (snd (maintenance X cfg st))" for st
  proof (cases "maintenance X cfg st")
    case (Pair r st')
    show ?thesis
    proof (cases r)
      case (Inl e)
      with Pair have "\<exists>st1. st' = rollback_to st st1 \<and> evidence_kept st st'"
        using keepsD [OF evidence.keeps_maintenance Pair]
        by (auto simp: maintenance_def transaction_def split: prod.splits sum.splits)
      then obtain st1 where st': "st' = rollback_to st st1" and "evidence_kept st st'" by blast
      then have "db_tick st \<le> db_tick st1" "db_ids st \<le> db_ids st1" by (simp_all add: evidence_kept_def rollback_to_def)
      then have "relay_tx X st st'" unfolding st' rollback_to_def by (rule tx_clock)
      with Pair show ?thesis by (simp add: run_one)
    next
      case (Inr u)
      with Pair show ?thesis by (simp add: run_one tx_maintain)
    qed
  qed
  then show ?thesis by (simp add: keeps_def)
qed

text \<open>
  C2: whatever a request does and however its transactions fail, its effect on the database is a
  sequence of committed transactions of the abstract machine.
\<close>

theorem handle_refines: "relay_run X (ap_db ap) (ap_db (snd (handle X cfg W rq ap)))"
  by (rule run.handle_keeps [OF run_clock(1) run_prepare run_serve])

subsection \<open>What holds in every reachable state\<close>

text \<open>
  C1: in every state the relay reaches, under any interleaving of requests, maintenance and starts,
  the transparency log, the receipts, the published heads and the versions of deletion proofs are the
  earlier ones with entries added at the end, and no deletion is forgotten.
\<close>

theorem evidence_append_only: "relay_run X st st' \<Longrightarrow> evidence_kept st st'"
  by (rule evidence.run_kept)

subsection \<open>One database, one operator\<close>

text \<open>The database stays with its origin and relay key, and its disclosure is never replaced by an older one.\<close>

definition operator_kept :: "db \<Rightarrow> db \<Rightarrow> bool" where
  "operator_kept st st' \<longleftrightarrow>
     (case db_operator st of
        None \<Rightarrow> True
      | Some r \<Rightarrow>
          (case db_operator st' of
             None \<Rightarrow> False
           | Some r' \<Rightarrow> op_origin r' = op_origin r \<and> op_key_id r' = op_key_id r \<and> op_revision r \<le> op_revision r'
               \<and> (op_revision r' = op_revision r \<longrightarrow> op_disclosure r' = op_disclosure r)))"

interpretation operators: statement_order operator_kept
  by unfold_locales (auto simp: operator_kept_def split: option.splits)

lemma operator_authenticate: "keeps operator_kept (authenticate X cfg rq)"
  by (rule operators.authenticate_keeps) (simp add: operator_kept_def split: option.splits)

interpretation operators: relay_order operator_kept X for X
  by unfold_locales (auto simp: operator_kept_def rollback_to_def operator_conflict_def disclosed_def Let_def
      operator_authenticate intro!: operators.completing_from split: option.splits)

text \<open>
  C5: once a database was started with an origin, a relay key and a disclosure, no later start and no
  request rebinds it: origin and key stay, the revision of the disclosure never goes back, and a revision
  never stands for two different disclosures.
\<close>

theorem operator_never_rebound: "relay_run X st st' \<Longrightarrow> operator_kept st st'"
  by (rule operators.run_kept)

theorem operator_never_rebound_witness:
  "db_operator (snd (app_new demo_fast demo_cfg False empty_db)) \<noteq> None
   \<and> operator_kept (snd (app_new demo_fast demo_cfg False empty_db))
       (snd (app_new demo_fast (demo_cfg\<lparr>cfg_origin := ''https://other''\<rparr>) False (snd (app_new demo_fast demo_cfg False empty_db))))"
proof -
  have "db_operator (snd (app_new demo_fast demo_cfg False empty_db)) \<noteq> None" by code_simp
  with operator_never_rebound [OF keepsD [OF run_app_new surjective_pairing]] show ?thesis by blast
qed

subsection \<open>A token is used once\<close>

lemma later_trans: "later X b c \<Longrightarrow> later X a b \<Longrightarrow> later X a c"
  by (induction rule: later.induct) (auto intro: later_auth later_other)

lemma authenticate_ticks: "db_tick st \<le> db_tick (snd (authenticate X cfg rq st))"
  using evidence_authenticate by (auto simp: keeps_def evidence_kept_def)

lemma later_ticks: "later X st st' \<Longrightarrow> db_tick st \<le> db_tick st'"
proof (induction rule: later.induct)
  case (later_auth st st1 cfg rq r st2)
  then show ?case using authenticate_ticks [of st1 X cfg rq] by simp
qed auto

lemma later_step: "db_nonces st' = db_nonces st \<Longrightarrow> db_tick st \<le> db_tick st' \<Longrightarrow> later X st st'"
  by (rule later_other [OF later_refl])

interpretation replay: statement_order "later X" for X
  by unfold_locales (auto intro: later_refl later_trans later_step)

interpretation replay: relay_order "later X" X for X
proof unfold_locales
  show "keeps (later X) (authenticate X cfg rq)" for cfg rq
    unfolding keeps_def by (metis later_auth later_refl surjective_pairing)
  show "later X st (rollback_to st st')" if "later X st st'" for st st'
    using later_ticks [OF that] by (intro later_step) (simp_all add: rollback_to_def)
qed (auto intro!: replay.completing_from intro: later_refl later_trans later_step)

text \<open>
  C3: with a clock that does not run backwards, a token that authenticated once is refused for ever:
  no interleaving of later transactions makes it acceptable again.
\<close>

theorem token_never_twice:
  assumes "mono (x_clock X)" and "authenticate X cfg rq st = (Inr a, st1)" and "relay_run X st1 st2"
    and "rq_authorization rq' = rq_authorization rq" and "rq_chain rq' = rq_chain rq"
  shows "\<not> is_ok (fst (authenticate X cfg' rq' st2))"
  using token_single_use [OF assms(1,2) replay.run_kept [OF assms(3)] assms(4,5)] .

theorem token_never_twice_witness:
  "\<exists>a st'. authenticate demo_auth_ext demo_auth_cfg demo_rq empty_db = (Inr a, st')
     \<and> \<not> is_ok (fst (authenticate demo_auth_ext demo_auth_cfg demo_rq (snd (authenticate demo_auth_ext demo_auth_cfg demo_rq st'))))"
proof -
  have "x_clock demo_auth_ext = demo_clock" by (simp add: demo_auth_ext_def demo_fast_def demo_ext_def)
  then have mono: "mono (x_clock demo_auth_ext)" by (auto simp: mono_def demo_clock_def)
  obtain a st' where run: "authenticate demo_auth_ext demo_auth_cfg demo_rq empty_db = (Inr a, st')"
    by (rule demo_authenticate)
  have "relay_run demo_auth_ext st' (snd (authenticate demo_auth_ext demo_auth_cfg demo_rq st'))"
    by (rule keepsD [OF run_authenticate surjective_pairing])
  from token_never_twice [OF mono run this refl refl] run show ?thesis by blast
qed

theorem evidence_append_only_witness:
  "evidence_kept demo_deletion_db (snd (complete_deletions demo_fast demo_cfg False demo_deletion_db))
     \<and> is_ok (fst (complete_deletions demo_fast demo_cfg False demo_deletion_db))"
proof -
  have "is_ok (fst (complete_deletions demo_fast demo_cfg False demo_deletion_db))" by code_simp
  with evidence_append_only [OF keepsD [OF run_completion surjective_pairing]] show ?thesis by blast
qed

definition demo_web :: web where
  "demo_web = \<lparr>w_mime = (\<lambda>t. Some (t, None)), w_begin_fails = (\<lambda>i. False), w_commit_fails = (\<lambda>i. False),
     w_rollback_fails = False, w_uploads = no_faults, w_busy = False\<rparr>"

subsection \<open>Transfers\<close>

text \<open>
  The running process: requests are answered, and the bodies of leased responses are sent at any later
  time. The second component is the leases that are out.
\<close>

definition lease :: "response option \<Rightarrow> string list" where
  "lease r = (case r of None \<Rightarrow> [] | Some resp \<Rightarrow> (case rs_leased resp of None \<Rightarrow> [] | Some ci \<Rightarrow> [ci]))"

inductive serving :: "ext \<Rightarrow> app \<Rightarrow> string list \<Rightarrow> bool" for X where
  serving_start: "serving X \<lparr>ap_db = st, ap_transfers = []\<rparr> []"
| serving_request: "serving X ap out \<Longrightarrow> handle X cfg W rq ap = (r, ap') \<Longrightarrow> serving X ap' (lease r @ out)"
| serving_sent: "serving X ap (as @ ci # bs) \<Longrightarrow> serving X (body_sent ci ap) (as @ bs)"
| serving_other: "serving X ap out \<Longrightarrow> serving X (ap\<lparr>ap_db := st\<rparr>) out"

lemma permits_set [simp]: "permits (set_permits ci n ap) ci' = (if ci' = ci then n else permits ap ci')"
  by (simp add: permits_def set_permits_def update_conv')

lemma permits_db [simp]: "permits (ap\<lparr>ap_db := st\<rparr>) ci = permits ap ci"
  by (simp add: permits_def)

lemma conclude_permits:
  assumes "conclude X path result permit ap = (r, ap')"
  shows "permits ap' ci + count_list (lease r) ci = permits ap ci + (if permit = Some ci then 1 else 0)"
  using assms
  by (auto simp: conclude_def Let_def lease_def body_sent_def finish_response_def bindM_run
      split: prod.splits sum.splits option.splits if_splits)

text \<open>
  C6: of the two transfer permits of a chain, each is either free or held by one response whose body
  is still being sent: at most two transfers of a chain are ever in flight.
\<close>

theorem transfer_permits: "serving X ap out \<Longrightarrow> permits ap ci + count_list out ci = 2"
proof (induction rule: serving.induct)
  case (serving_start st)
  then show ?case by (simp add: permits_def)
next
  case (serving_request ap out cfg W rq r ap')
  have "permits ap' ci + count_list (lease r) ci = permits ap ci"
  proof (cases "prepare X cfg W rq (ap_db ap)")
    case (Pair p st)
    show ?thesis using serving_request(2) Pair
      by (auto simp: handle_def Let_def split: sum.splits prepared.splits prod.splits if_splits
          dest!: conclude_permits [where ci = ci])
  qed
  then show ?case using serving_request.IH by simp
next
  case (serving_sent ap as ci' bs)
  then show ?case by (auto simp: body_sent_def)
qed simp

theorem transfer_permits_witness:
  "let ap = \<lparr>ap_db = empty_db, ap_transfers = []\<rparr>;
       rq = \<lparr>hq_method = ''GET'', hq_path = ''/pallasync/v3/health'', hq_query = None, hq_encoding = None,
         hq_content_type = None, hq_authorization = None, hq_body = [], hq_timeout = False, hq_source = ''local''\<rparr>
   in permits (snd (handle demo_fast demo_cfg demo_web rq ap)) demo_b32
     + count_list (lease (fst (handle demo_fast demo_cfg demo_web rq ap)) @ []) demo_b32 = 2"
  unfolding Let_def
  by (rule transfer_permits [OF serving_request [OF serving_start surjective_pairing]])

end
