(* ===== verification/Relay_Gone.thy ===== *)
theory Relay_Gone
  imports Relay_System
begin

text \<open>
  What a recorded deletion means in every later state: what the three ways into a chain (the handlers, the
  uploads and the requests to enroll) still answer, and what becomes of a deletion that is recorded
  between the two transactions of \<^verbatim>\<open>complete\<close> in \<^verbatim>\<open>src/api/deletion.rs\<close>.
\<close>

subsection \<open>What a deleted chain still answers\<close>

definition deleted :: "string \<Rightarrow> db \<Rightarrow> bool" where
  "deleted ci st \<longleftrightarrow> row_at d_chain ci (db_deletions st) \<noteq> None"

lemma deleted_iff: "deleted ci st \<longleftrightarrow> ci \<in> set (map d_chain (db_deletions st))"
  by (auto simp: deleted_def row_at_def find_None_iff)

lemma deleted_kept:
  assumes "evidence_kept st st'" and "deleted ci st"
  shows "deleted ci st'"
proof -
  have "prefix (map d_chain (db_deletions st)) (map d_chain (db_deletions st'))"
    using assms(1) by (simp add: evidence_kept_def)
  from set_mono_prefix [OF this] assms(2) show ?thesis by (auto simp: deleted_iff)
qed

lemma deletion_proof_deleted:
  "row_at d_chain ci (db_deletions st) = Some d \<Longrightarrow> deletion_proof ci st = (Inr (Some (d_proof d)), st)"
  by (simp add: deletion_proof_def row_at_def bindM_def)

lemma serve_deleted:
  assumes "row_at d_chain (ep_chain ep) (db_deletions st) = Some d"
  shows "snd (serve X cfg W mt a ep q v st) = st
    \<and> (case fst (serve X cfg W mt a ep q v st) of
        Inr r \<Rightarrow> (ep_route ep = ''deletion'' \<and> r = json_response X 200 (d_proof d))
          \<or> (ep_route ep = ''delete'' \<and> d_request_hash d = object_hash X v \<and> r = json_response X 202 (d_outcome d))
      | Inl e \<Rightarrow> failure_code e = ''CHAIN_DELETED'' \<or> failure_code e = ''STORAGE_UNAVAILABLE''
          \<or> (ep_route ep = ''deletion'' \<and> q \<noteq> []))"
proof -
  have allowed: "allowed [] [] = Inr ()" by (simp add: allowed_def)
  have find: "find (\<lambda>r. d_chain r = ep_chain ep) (db_deletions st) = Some d" using assms by (simp add: row_at_def)
  show ?thesis
    using allowed find deletion_proof_deleted [OF assms]
    by (cases "allowed q []"; cases "q = []")
      (auto simp: serve_def deleted_answer_def bindM_def lift_def gone_def Let_def sql_error_def err_def select_one_def ret_def)
qed

lemma attempt_deleted:
  assumes "deleted (ur_chain u) st"
  shows "\<exists>e. fst (attempt X cfg u i c r st) = Inl e"
proof -
  obtain res st1 where guard: "write_guard X cfg st = (res, st1)" by fastforce
  have "evidence_kept st st1" by (rule keepsD [OF evidence.keeps_guard(1) guard])
  then have "deleted (ur_chain u) st1" using assms deleted_kept by blast
  then obtain d where "row_at d_chain (ur_chain u) (db_deletions st1) = Some d" by (auto simp: deleted_def)
  from deletion_proof_deleted [OF this]
  have "deletion_proof (ur_chain u) st1 = (Inr (Some (d_proof d)), st1)" .
  then show ?thesis using guard by (cases res) (auto simp: attempt_def bindM_def lift_def)
qed

lemma audit_result_empty:
  assumes "(case res of Committed c \<Rightarrow> ret (acc\<lparr>up_rejected := js, up_final := Some c\<rparr>, False)
      | Commit_failed \<Rightarrow> fail_rest idk e rs acc | Aborted failure \<Rightarrow> fail_rest idk failure rs acc) st = (Inr (acc', stop), st')"
    and "up_accepted acc = []"
  shows "up_accepted acc' = []"
  using assms by (cases res) (auto simp: fail_rest_def)

lemma upload_rejected_empty:
  assumes "upload_rejected X cfg F u i r rest e acc st = (Inr (acc', stop), st')" and "up_accepted acc = []"
  shows "up_accepted acc' = []"
  using assms
  by (auto simp: upload_rejected_def bindM_run Let_def split: if_splits dest!: audit_result_empty)

lemma upload_one_deleted:
  assumes "deleted (ur_chain u) st" and "up_accepted acc = []"
    and "upload_one X cfg F u i r rest acc st = (Inr (acc', stop), st')"
  shows "up_accepted acc' = []"
proof -
  have load: "load (ur_chain u) st = (Inr (find (\<lambda>c. ch_id c = ur_chain u) (db_chains st)), st)"
    by (simp add: load_def)
  have started: "\<not> fault_begin F i" using assms(2,3) by (auto simp: upload_one_def fail_rest_def)
  with assms(2,3) load obtain c where c: "find (\<lambda>c. ch_id c = ur_chain u) (db_chains st) = Some c"
    by (auto simp: upload_one_def fail_rest_def bindM_def lift_def split: option.splits)
  let ?acc = "if up_final acc = None then acc\<lparr>up_final := Some c\<rparr> else acc"
  let ?m = "bindM (attempt X cfg u i c r) (\<lambda>(c, item, rc). bindM (save X cfg c) (\<lambda>_. ret (c, item, rc)))"
  obtain e st1 where "attempt X cfg u i c r st = (Inl e, st1)"
    using attempt_deleted [OF assms(1)] by (metis prod.collapse)
  then have "?m st = (Inl e, st1)" by (simp add: bindM_def)
  then have tx: "run_tx (fault_commit F i) ?m st = (Inl Panic, rollback_to st st1) \<or>
      (\<exists>code ctx. run_tx (fault_commit F i) ?m st = (Inr (Aborted (Err code ctx)), rollback_to st st1))"
    by (cases e) (auto simp: run_tx_def)
  have acc: "up_accepted ?acc = []" using assms(2) by simp
  from assms(3) started load c tx obtain e' st2 where
    "(if fault_rollback F i then fail_rest (id_key u) sql_error (r # rest) ?acc
      else upload_rejected X cfg F u i r rest e' ?acc) st2 = (Inr (acc', stop), st')"
    unfolding upload_one_def Let_def by (auto simp: bindM_def)
  then show ?thesis using upload_rejected_empty [OF _ acc] acc by (auto simp: fail_rest_def split: if_splits)
qed

lemma upload_loop_deleted:
  assumes "deleted (ur_chain u) st" and "up_accepted acc = []"
    and "upload_loop X cfg F u i rs acc st = (Inr acc', st')"
  shows "up_accepted acc' = []"
  using assms
proof (induction rs arbitrary: i acc st)
  case (Cons r rs)
  then obtain acc1 stop st1 where one: "upload_one X cfg F u i r rs acc st = (Inr (acc1, stop), st1)"
    and rest: "(if stop then ret acc1 else upload_loop X cfg F u (i + 1) rs acc1) st1 = (Inr acc', st')"
    by (auto simp: bindM_run)
  have acc1: "up_accepted acc1 = []" by (rule upload_one_deleted [OF Cons.prems(1,2) one])
  have "deleted (ur_chain u) st1"
    using keepsD [OF evidence.keeps_upload_one one] Cons.prems(1) deleted_kept by blast
  with Cons.IH acc1 rest show ?case by (auto split: if_splits)
qed simp

lemma upload_response_accepted:
  assumes "upload_response X u acc receipts st = (Inr resp, st')"
  shows "jget resp ''accepted'' = JArr (up_accepted acc)"
  using assms
  by (auto simp: upload_response_def bindM_run Let_def jget_jobj split: if_splits option.splits)

lemma upload_deleted:
  assumes "deleted (ur_chain u) st" and "upload X cfg F u st = (Inr resp, st')"
  shows "jget resp ''accepted'' = JArr []"
proof -
  let ?acc = "\<lparr>up_accepted = [], up_rejected = [], up_receipts = [], up_final = None\<rparr>"
  from assms(2) obtain acc st1 st2 receipts where
    checks: "upload_checks X cfg u st = (Inr (), st1)" and
    loop: "upload_loop X cfg F u 0 (a_of (ur_body u) (upload_key u)) ?acc st1 = (Inr acc, st2)" and
    resp: "upload_response X u acc receipts st2 = (Inr resp, st')"
    by (auto simp: upload_def bindM_run)
  have "keeps evidence_kept (upload_checks X cfg u)"
    unfolding upload_checks_def Let_def by (intro evidence.all_steps evidence.store_steps)
  from keepsD [OF this checks] have "deleted (ur_chain u) st1" using assms(1) deleted_kept by blast
  from upload_loop_deleted [OF this _ loop] upload_response_accepted [OF resp] show ?thesis by simp
qed

lemma enrollment_deleted:
  assumes "deleted ci st"
  shows "\<not> is_ok (fst (enrollment_candidate X cfg ci q v st))"
proof -
  obtain d where "row_at d_chain ci (db_deletions st) = Some d" using assms by (auto simp: deleted_def)
  from deletion_proof_deleted [OF this] show ?thesis
    by (auto simp: enrollment_candidate_def bindM_def lift_def rejectM_def reject_def split: sum.splits)
qed

text \<open>
  C4: once a deletion is recorded, then in every later state and under every configuration the handlers
  of the chain are not run any more: a request writes nothing, and it is answered only with the
  recorded proof (the deletion route), or with the recorded outcome when it repeats the request that deleted the chain;
  every other one is refused with CHAIN_DELETED or fails on the storage (or has parameters where none are
  allowed). No attempt to add a record succeeds and no upload accepts one, and no enrollment request is
  taken.
\<close>

theorem deleted_chain_is_gone:
  assumes "relay_run X st st'" and "ci \<in> set (map d_chain (db_deletions st))"
    and "ep_chain ep = ci" and "ur_chain u = ci"
  shows "(\<exists>d. row_at d_chain ci (db_deletions st') = Some d
      \<and> (case fst (serve X cfg W mt a ep q v st') of
          Inr r \<Rightarrow> (ep_route ep = ''deletion'' \<and> r = json_response X 200 (d_proof d))
            \<or> (ep_route ep = ''delete'' \<and> d_request_hash d = object_hash X v \<and> r = json_response X 202 (d_outcome d))
        | Inl e \<Rightarrow> failure_code e = ''CHAIN_DELETED'' \<or> failure_code e = ''STORAGE_UNAVAILABLE''
            \<or> (ep_route ep = ''deletion'' \<and> q \<noteq> [])))
    \<and> snd (serve X cfg W mt a ep q v st') = st'
    \<and> (\<exists>e. fst (attempt X cfg u i c r st') = Inl e)
    \<and> (case fst (upload X cfg F u st') of Inr resp \<Rightarrow> jget resp ''accepted'' = JArr [] | Inl e \<Rightarrow> True)
    \<and> \<not> is_ok (fst (enrollment_candidate X cfg ci q v st'))"
proof -
  have gone: "deleted ci st'"
    using deleted_kept [OF evidence.run_kept [OF assms(1)]] assms(2) by (simp add: deleted_iff)
  then obtain d where d: "row_at d_chain (ep_chain ep) (db_deletions st') = Some d"
    using assms(3) by (auto simp: deleted_def)
  have gone_u: "deleted (ur_chain u) st'" using gone assms(4) by simp
  have up: "case fst (upload X cfg F u st') of Inr resp \<Rightarrow> jget resp ''accepted'' = JArr [] | Inl e \<Rightarrow> True"
    using upload_deleted [OF gone_u] by (cases "upload X cfg F u st'") (auto split: sum.splits)
  show ?thesis
    using serve_deleted [OF d] attempt_deleted [OF gone_u] up enrollment_deleted [OF gone] d assms(3) by blast
qed

theorem deleted_chain_is_gone_witness:
  "let st' = snd (complete_deletions demo_fast demo_cfg False demo_deletion_db);
       ep = \<lparr>ep_route = ''head'', ep_chain = demo_b32, ep_param = [], ep_allow = ''GET''\<rparr>;
       a = \<lparr>a_token = JNull, a_device = None\<rparr>;
       u = \<lparr>ur_auth = a, ur_chain = demo_b32, ur_route = ''records_post'', ur_param = [], ur_body = JNull\<rparr>
   in (\<exists>e. fst (serve demo_fast demo_cfg demo_web ''GET'' a ep [] JNull st') = Inl e)
     \<and> (\<exists>e. fst (attempt demo_fast demo_cfg u 0 demo_chain JNull st') = Inl e)
     \<and> \<not> is_ok (fst (enrollment_candidate demo_fast demo_cfg demo_b32 [] JNull st'))"
proof -
  let ?st = "snd (complete_deletions demo_fast demo_cfg False demo_deletion_db)"
  let ?ep = "\<lparr>ep_route = ''head'', ep_chain = demo_b32, ep_param = [], ep_allow = ''GET''\<rparr>"
  let ?a = "\<lparr>a_token = JNull, a_device = None\<rparr>"
  let ?u = "\<lparr>ur_auth = ?a, ur_chain = demo_b32, ur_route = ''records_post'', ur_param = [], ur_body = JNull\<rparr>"
  have run: "relay_run demo_fast demo_deletion_db ?st"
    by (rule keepsD [OF run_completion surjective_pairing])
  have mem: "demo_b32 \<in> set (map d_chain (db_deletions demo_deletion_db))"
    by (simp add: demo_deletion_db_def demo_deletion_def)
  have ep: "ep_chain ?ep = demo_b32" "ur_chain ?u = demo_b32" by simp_all
  note gone = deleted_chain_is_gone [OF run mem ep, where cfg = demo_cfg and W = demo_web and mt = "''GET''" and a = ?a and q = "[]"
      and v = JNull and i = 0 and c = demo_chain and r = JNull and F = no_faults]
  have "\<exists>e. fst (serve demo_fast demo_cfg demo_web ''GET'' ?a ?ep [] JNull ?st) = Inl e"
    using gone by (cases "fst (serve demo_fast demo_cfg demo_web ''GET'' ?a ?ep [] JNull ?st)") auto
  with gone show ?thesis unfolding Let_def by blast
qed

subsection \<open>A deletion between the two transactions of completion\<close>

text \<open>A deletion that is recorded as completed stays so, whatever transactions follow.\<close>

definition closed_deletion :: "string \<Rightarrow> db \<Rightarrow> bool" where
  "closed_deletion ci st \<longleftrightarrow> ci \<in> set (map d_chain (db_deletions st)) \<and> ci \<notin> set (open_chains st)"

definition closed_kept :: "string \<Rightarrow> db \<Rightarrow> db \<Rightarrow> bool" where
  "closed_kept ci st st' \<longleftrightarrow> (closed_deletion ci st \<longrightarrow> closed_deletion ci st')"

lemma closed_cong: "db_deletions st' = db_deletions st \<Longrightarrow> closed_kept ci st st'"
  by (simp add: closed_kept_def closed_deletion_def open_chains_def)

lemma closed_insert:
  "\<not> list_ex (same d_chain dr) (db_deletions st) \<Longrightarrow> closed_kept ci st (db_deletions_update (\<lambda>rows. rows @ [dr]) st)"
  by (auto simp: closed_kept_def closed_deletion_def open_chains_def list_ex_iff same_def)

interpretation closing: statement_order "closed_kept ci" for ci
proof unfold_locales
  show "closed_kept ci st (db_deletions_update (\<lambda>rows. rows @ [dr]) st)"
    if "\<not> list_ex (same d_chain dr) (db_deletions st)" for dr st
    by (rule closed_insert [OF that])
qed ((rule closed_cong; simp; fail) | (simp add: closed_kept_def))+

lemma complete_other_chain:
  assumes "d_chain row \<noteq> ci"
  shows "keeps (closed_kept ci) (complete_deletion X cfg row u)"
proof -
  have proofs: "closed_kept ci st (db_deletions_update (map (\<lambda>r. if d_chain r = d_chain row then r\<lparr>d_proof := pf\<rparr> else r)) st)" for st pf
    using assms by (auto simp: closed_kept_def closed_deletion_def open_chains_def)
  have versions: "closed_kept ci st (db_delete_versions_update (\<lambda>rows. rows @ [vr]) st)" for st vr
    by (rule closed_cong) simp
  show ?thesis
    unfolding complete_deletion_def by (intro closing.flow closing.statements versions proofs)
qed

lemma closing_completion:
  "keeps (closed_kept ci) (bindM (select_all db_deletions open_deletion) (\<lambda>rows. foldM (complete_deletion X cfg) rows ()))"
proof -
  have all: "keeps (closed_kept ci) (foldM (complete_deletion X cfg) rows ())" if "\<forall>row \<in> set rows. d_chain row \<noteq> ci" for rows
    using that
  proof (induction rows)
    case (Cons row rows)
    have one: "keeps (closed_kept ci) (complete_deletion X cfg row u)" for u
      by (rule complete_other_chain) (use Cons.prems in simp)
    have rest: "keeps (closed_kept ci) (foldM (complete_deletion X cfg) rows u)" for u
      using Cons by simp
    show ?case unfolding foldM.simps by (rule closing.keeps_bind [OF one rest])
  qed (simp add: closing.basic_steps)
  have fold: "closed_kept ci st (snd (foldM (complete_deletion X cfg) (filter open_deletion (db_deletions st)) () st))"
    if "ci \<notin> set (open_chains st)" for st
  proof -
    from that have "\<forall>row \<in> set (filter open_deletion (db_deletions st)). d_chain row \<noteq> ci" by (auto simp: open_chains_def)
    from all [OF this] show ?thesis by (simp add: keeps_def)
  qed
  have "closed_kept ci st (snd (foldM (complete_deletion X cfg) (filter open_deletion (db_deletions st)) () st))" for st
  proof (cases "closed_deletion ci st")
    case True
    then show ?thesis using fold by (simp add: closed_deletion_def)
  qed (simp add: closed_kept_def)
  then show ?thesis by (simp add: keeps_def bindM_def select_all_def)
qed

interpretation closing: relay_order "closed_kept ci" X for ci X
proof unfold_locales
  show "keeps (closed_kept ci) (authenticate X cfg rq)" for cfg rq
    by (rule closing.authenticate_keeps) (simp add: closed_cong)
  show "keeps (closed_kept ci) (bindM (select_all db_deletions open_deletion) (\<lambda>rows. foldM (complete_deletion X cfg) rows ()))"
    for cfg by (rule closing_completion)
qed (rule closed_cong; simp add: rollback_to_def)+

text \<open>The rows of a chain's content.\<close>

definition content :: "string \<Rightarrow> db \<Rightarrow> object_row list \<times> log_row list" where
  "content ci st = (filter (\<lambda>r. o_chain r = ci) (db_objects st), filter (\<lambda>r. l_chain r = ci) (db_log st))"

lemma erase_spares: "ci \<notin> set (open_chains st) \<Longrightarrow> content ci (snd (erase busy st)) = content ci st"
  by (auto simp: erase_run content_def fold_wipe intro: filter_cong)

text \<open>
  C16: a deletion that a request records after the erasure of \<^verbatim>\<open>complete\<close> was committed and before
  its second transaction starts is marked as completed by it, although the erasure spared the
  chain: its objects and log are all still there when the deletion is recorded as completed. In every later state,
  after any requests, maintenance and restarts, the deletion is recorded as completed, and no erasure run there
  removes a row of the content.
\<close>

theorem late_deletion_keeps_content:
  assumes "erase busy st0 = (Inr (), st1)" and "ci \<notin> set (open_chains st0)"
    and "relay_run X st1 st2" and "ci \<in> set (open_chains st2)" and "list_all ledger_ok (db_deletions st2)"
    and "mark_completed X cfg st2 = (Inr (), st3)" and "relay_run X st3 st4"
  shows "content ci st1 = content ci st0 \<and> content ci st3 = content ci st2
    \<and> ci \<in> set (map d_chain (db_deletions st4)) \<and> ci \<notin> set (open_chains st4)
    \<and> content ci (snd (erase busy' st4)) = content ci st4"
proof -
  from mark_completed_run [OF assms(6,5)] obtain ds vs t where
    o: "open_chains st3 = []" and st3: "st3 = st2\<lparr>db_deletions := ds, db_delete_versions := vs, db_tick := t\<rparr>" by blast
  have "evidence_kept st2 st3" by (rule keepsD [OF evidence.keeps_mark assms(6)])
  moreover have "deleted ci st2" using assms(4) by (auto simp: deleted_iff open_chains_def)
  ultimately have "closed_deletion ci st3" using o deleted_kept by (auto simp: closed_deletion_def deleted_iff)
  then have "closed_deletion ci st4"
    using closing.run_kept [OF assms(7), of ci] by (simp add: closed_kept_def)
  then have "ci \<in> set (map d_chain (db_deletions st4))" "ci \<notin> set (open_chains st4)" by (simp_all add: closed_deletion_def)
  moreover have "content ci st1 = content ci st0"
    using erase_spares [OF assms(2), of busy] assms(1) by simp
  moreover have "content ci st3 = content ci st2" by (simp add: st3 content_def)
  ultimately show ?thesis using erase_spares [of ci st4 busy'] by simp
qed

text \<open>
  A chain with one device that may delete it: nothing is open when the erasure runs, then the device's
  request is served, then the second transaction runs.
\<close>

definition demo_late_chain :: chain where
  "demo_late_chain = demo_open_chain\<lparr>ch_parameters := jobj [(''generation'', JNat 0), (''admin_public_key'', JStr demo_b32),
     (''policy'', jobj [(''metadata_profile'', JStr ''private''), (''allow_device_chain_delete'', JBool True)])]\<rparr>"

definition demo_late_db :: db where
  "demo_late_db = empty_db\<lparr>db_chains := [demo_late_chain],
     db_objects := [\<lparr>o_chain = demo_b32, o_kind = ''device'', o_id = ''144'', o_hash = ''h'',
       o_body = Some (jobj [(''generation'', JNat 0), (''device_public_key'', JStr demo_b32),
         (''enrollment'', jobj [(''signer_kind'', JStr ''admin'')])]), o_log = None, o_seq = None\<rparr>],
     db_registry := [\<lparr>g_chain = demo_b32, g_device = ''144'', g_generation = 0, g_status = ''active'', g_enrolled = 1,
       g_revoked = None\<rparr>]\<rparr>"

definition demo_late_request :: json where
  "demo_late_request = jobj [(''deletion_id'', JStr ''145''), (''expected_parameters_hash'', JStr demo_b32),
     (''expected_epoch_hash'', JStr demo_b32), (''admin_operation'', JNull)]"

definition demo_late_delete :: "response tx" where
  "demo_late_delete = handler_body demo_fast demo_cfg ''DELETE'' \<lparr>a_token = JNull, a_device = Some ''144''\<rparr>
     \<lparr>ep_route = ''delete'', ep_chain = demo_b32, ep_param = [], ep_allow = ''DELETE''\<rparr> [] demo_late_request"

lemma is_ok_pair: "is_ok (fst p) \<Longrightarrow> \<exists>x. p = (Inr x, snd p)"
  by (cases p) (auto simp: is_ok_iff)

theorem late_deletion_keeps_content_witness:
  "\<exists>st1 st2 st3. erase False demo_late_db = (Inr (), st1) \<and> is_ok (fst (demo_late_delete st1)) \<and> st2 = snd (demo_late_delete st1)
     \<and> mark_completed demo_fast demo_cfg st2 = (Inr (), st3)
     \<and> demo_b32 \<in> set (map d_chain (db_deletions st3)) \<and> demo_b32 \<notin> set (open_chains st3)
     \<and> fst (content demo_b32 (snd (erase False st3))) \<noteq> []"
proof -
  let ?st1 = "snd (erase False demo_late_db)"
  let ?st2 = "snd (demo_late_delete ?st1)"
  let ?st3 = "snd (mark_completed demo_fast demo_cfg ?st2)"
  have first: "is_ok (fst (erase False demo_late_db))" "demo_b32 \<notin> set (open_chains demo_late_db)" by code_simp+
  have "case demo_late_delete ?st1 of (r, st2) \<Rightarrow> is_ok r \<and> demo_b32 \<in> set (open_chains st2)
      \<and> list_all ledger_ok (db_deletions st2) \<and> is_ok (fst (mark_completed demo_fast demo_cfg st2))
      \<and> fst (content demo_b32 st2) \<noteq> []" by code_simp
  then have request: "is_ok (fst (demo_late_delete ?st1))"
    and recorded: "demo_b32 \<in> set (open_chains ?st2)" "list_all ledger_ok (db_deletions ?st2)"
    and second: "is_ok (fst (mark_completed demo_fast demo_cfg ?st2))" and rows: "fst (content demo_b32 ?st2) \<noteq> []"
    unfolding case_prod_unfold by blast+
  obtain r where "demo_late_delete ?st1 = (Inr r, ?st2)" using is_ok_pair [OF request] by blast
  then have run: "relay_run demo_fast ?st1 ?st2" unfolding demo_late_delete_def by (intro run_one tx_handler)
  have er: "erase False demo_late_db = (Inr (), ?st1)" using is_ok_pair [OF first(1)] by simp
  have mk: "mark_completed demo_fast demo_cfg ?st2 = (Inr (), ?st3)" using is_ok_pair [OF second] by simp
  note late = late_deletion_keeps_content [OF er first(2) run recorded mk run_start, of False]
  have "fst (content demo_b32 (snd (erase False ?st3))) \<noteq> []" using late rows by simp
  with late er request mk
  show ?thesis by (intro exI [of _ ?st1] exI [of _ ?st2] exI [of _ ?st3] conjI refl) simp_all
qed

end
