(* ===== verification/Relay_Schema.thy ===== *)
theory Relay_Schema
  imports Relay_Wire
begin

text \<open>
  \<^verbatim>\<open>src/config.rs\<close>, \<^verbatim>\<open>schema_valid\<close>: the evaluator of the vendored JSON schema of a relay's privacy
  disclosure. A \<^verbatim>\<open>$ref\<close> may lead anywhere in the schema document, so the recursion takes fuel, and
  \<open>None\<close> is the evaluation that gives no answer: an \<^verbatim>\<open>unwrap\<close> that fails, or a recursion deeper than the
  fuel. \<open>settled\<close> is a check of the schema alone under which every document gets its answer.
\<close>

subsection \<open>Libraries\<close>

text \<open>
  What the configuration uses of \<^verbatim>\<open>regex\<close> (whether a pattern compiles, and whether it matches) and of
  \<^verbatim>\<open>url\<close> (the parts of a parsed URL).
\<close>

record url_parts =
  url_scheme :: string
  url_host :: "string option"
  url_username :: string
  url_password :: "string option"
  url_path :: string
  url_query :: "string option"
  url_fragment :: "string option"
  url_origin :: string

record config_ext =
  y_compiles :: "string \<Rightarrow> bool"
  y_matches :: "string \<Rightarrow> string \<Rightarrow> bool"
  y_url :: "string \<Rightarrow> url_parts option"

subsection \<open>JSON pointers\<close>

text \<open>\<^verbatim>\<open>Value::pointer\<close>: reference tokens with \<^verbatim>\<open>~1\<close> and \<^verbatim>\<open>~0\<close>, members of objects, elements of arrays.\<close>

fun untilde :: "string \<Rightarrow> string" where
  "untilde (a # b # cs) =
     (if a = CHR ''~'' \<and> b = CHR ''1'' then CHR ''/'' # untilde cs
      else if a = CHR ''~'' \<and> b = CHR ''0'' then CHR ''~'' # untilde cs
      else a # untilde (b # cs))"
| "untilde cs = cs"

definition array_index :: "string \<Rightarrow> nat option" where
  "array_index t =
     (if take 1 t = ''+'' \<or> (take 1 t = ''0'' \<and> length t \<noteq> 1) then None else parse_u64 t)"

definition follow :: "string \<Rightarrow> json \<Rightarrow> json option" where
  "follow token v =
     (case v of
        JObj kvs \<Rightarrow> obj_get kvs token
      | JArr xs \<Rightarrow> (case array_index token of None \<Rightarrow> None | Some i \<Rightarrow> if i < length xs then Some (xs ! i) else None)
      | _ \<Rightarrow> None)"

fun follow_all :: "string list \<Rightarrow> json \<Rightarrow> json option" where
  "follow_all [] v = Some v"
| "follow_all (t # ts) v = (case follow t v of None \<Rightarrow> None | Some x \<Rightarrow> follow_all ts x)"

definition pointer :: "json \<Rightarrow> string \<Rightarrow> json option" where
  "pointer v path =
     (case path of
        [] \<Rightarrow> Some v
      | c # cs \<Rightarrow> if c \<noteq> CHR ''/'' then None else follow_all (map untilde (split_on CHR ''/'' cs)) v)"

subsection \<open>The evaluator\<close>

definition chars_count :: "string \<Rightarrow> nat" where
  "chars_count t = length (filter (\<lambda>c. \<not> cont_byte c) t)"

text \<open>\<^verbatim>\<open>if !a { return false; } b\<close>, where \<open>a\<close> may give no answer.\<close>

fun and_then :: "bool option \<Rightarrow> bool option \<Rightarrow> bool option" where
  "and_then (Some True) b = b"
| "and_then a b = a"

fun all_of :: "('a \<Rightarrow> bool option) \<Rightarrow> 'a list \<Rightarrow> bool option" where
  "all_of f [] = Some True"
| "all_of f (x # xs) = and_then (f x) (all_of f xs)"

text \<open>\<^verbatim>\<open>filter(..).count()\<close>, which looks at every element.\<close>

fun count_of :: "('a \<Rightarrow> bool option) \<Rightarrow> 'a list \<Rightarrow> nat option" where
  "count_of f [] = Some 0"
| "count_of f (x # xs) =
     (case f x of None \<Rightarrow> None | Some b \<Rightarrow> map_option (\<lambda>n. if b then Suc n else n) (count_of f xs))"

definition choice :: "(json \<Rightarrow> bool option) \<Rightarrow> json \<Rightarrow> string \<Rightarrow> (nat \<Rightarrow> bool) \<Rightarrow> bool option" where
  "choice f schema key good =
     (case as_array (jget schema key) of None \<Rightarrow> Some True | Some xs \<Rightarrow> map_option good (count_of f xs))"

definition value_listed :: "json \<Rightarrow> json \<Rightarrow> bool" where
  "value_listed schema v \<longleftrightarrow>
     (case jfind schema ''const'' of None \<Rightarrow> True | Some c \<Rightarrow> c = v)
   \<and> (case as_array (jget schema ''enum'') of None \<Rightarrow> True | Some xs \<Rightarrow> v \<in> set xs)"

definition typed :: "json \<Rightarrow> json \<Rightarrow> bool" where
  "typed schema v \<longleftrightarrow>
     (case as_str (jget schema ''type'') of
        None \<Rightarrow> True
      | Some t \<Rightarrow>
          if t = ''object'' then is_object v
          else if t = ''array'' then as_array v \<noteq> None
          else if t = ''integer'' then as_u64 v \<noteq> None
          else if t = ''string'' then as_str v \<noteq> None
          else if t = ''boolean'' then (case v of JBool b \<Rightarrow> True | _ \<Rightarrow> False)
          else if t = ''null'' then v = JNull
          else False)"

text \<open>\<^verbatim>\<open>schema[low].is_some_and(|m| n < m) || schema[high].is_some_and(|m| n > m)\<close>, negated.\<close>

definition within_range :: "json \<Rightarrow> string \<Rightarrow> string \<Rightarrow> nat \<Rightarrow> bool" where
  "within_range schema low high n \<longleftrightarrow>
     (case as_u64 (jget schema low) of None \<Rightarrow> True | Some m \<Rightarrow> m \<le> n)
   \<and> (case as_u64 (jget schema high) of None \<Rightarrow> True | Some m \<Rightarrow> n \<le> m)"

definition B32_PATTERN :: string where "B32_PATTERN = ''^[A-Za-z0-9_-]{43}$''"
definition B64_PATTERN :: string where "B64_PATTERN = ''^[A-Za-z0-9_-]{86}$''"

definition text_valid :: "ext \<Rightarrow> config_ext \<Rightarrow> json \<Rightarrow> string \<Rightarrow> bool option" where
  "text_valid X Y schema t =
     and_then (Some (within_range schema ''minLength'' ''maxLength'' (chars_count t)))
     (and_then (case as_str (jget schema ''pattern'') of
                  None \<Rightarrow> Some True
                | Some p \<Rightarrow> if y_compiles Y p then Some (y_matches Y p t) else None)
     (Some ((jget schema ''pattern'' = JStr B32_PATTERN \<longrightarrow> decode X t (Some 32) \<noteq> None)
          \<and> (jget schema ''pattern'' = JStr B64_PATTERN \<longrightarrow> decode X t (Some 64) \<noteq> None))))"

text \<open>\<^verbatim>\<open>k.as_str().unwrap()\<close> fails on a required name that is no string.\<close>

definition has_required :: "json \<Rightarrow> (string \<times> json) list \<Rightarrow> bool option" where
  "has_required schema kvs =
     (case as_array (jget schema ''required'') of
        None \<Rightarrow> Some True
      | Some ks \<Rightarrow> all_of (\<lambda>k. map_option (\<lambda>name. obj_get kvs name \<noteq> None) (as_str k)) ks)"

definition member_valid :: "(json \<Rightarrow> json \<Rightarrow> bool option) \<Rightarrow> json \<Rightarrow> string \<times> json \<Rightarrow> bool option" where
  "member_valid sub schema kv =
     (case jfind (jget schema ''properties'') (fst kv) of
        Some p \<Rightarrow> sub p (snd kv)
      | None \<Rightarrow> Some (jget schema ''additionalProperties'' \<noteq> JBool False))"

definition element_valid :: "(json \<Rightarrow> json \<Rightarrow> bool option) \<Rightarrow> json \<Rightarrow> json list \<Rightarrow> nat \<Rightarrow> bool option" where
  "element_valid sub schema xs i =
     and_then (case jfind schema ''items'' of None \<Rightarrow> Some True | Some s \<Rightarrow> sub s (xs ! i))
       (Some (\<not> (jget schema ''uniqueItems'' = JBool True \<and> xs ! i \<in> set (take i xs))))"

definition array_valid :: "(json \<Rightarrow> json \<Rightarrow> bool option) \<Rightarrow> json \<Rightarrow> json list \<Rightarrow> bool option" where
  "array_valid sub schema xs =
     and_then (Some (within_range schema ''minItems'' ''maxItems'' (length xs)))
       (all_of (element_valid sub schema xs) [0..<length xs])"

text \<open>\<^verbatim>\<open>&r[1..]\<close> of an empty reference, or inside a character, fails.\<close>

definition ref_path :: "string \<Rightarrow> string option" where
  "ref_path r = (case r of c # cs \<Rightarrow> if of_char c < (128 :: nat) then Some cs else None | [] \<Rightarrow> None)"

text \<open>The evaluation of one schema, with the recursive call as its argument.\<close>

definition evaluate ::
    "ext \<Rightarrow> config_ext \<Rightarrow> json \<Rightarrow> (json \<Rightarrow> json \<Rightarrow> bool option) \<Rightarrow> json \<Rightarrow> json \<Rightarrow> bool option" where
  "evaluate X Y doc sub schema v =
     (case as_str (jget schema ''$ref'') of
        Some r \<Rightarrow>
          (case ref_path r of
             None \<Rightarrow> None
           | Some path \<Rightarrow> (case pointer doc path of None \<Rightarrow> Some False | Some s \<Rightarrow> sub s v))
      | None \<Rightarrow>
          and_then (choice (\<lambda>s. sub s v) schema ''anyOf'' (\<lambda>n. n \<noteq> 0))
          (and_then (choice (\<lambda>s. sub s v) schema ''oneOf'' (\<lambda>n. n = 1))
          (and_then (Some (value_listed schema v))
          (and_then (Some (typed schema v))
          (and_then (Some (case as_u64 v of None \<Rightarrow> True | Some n \<Rightarrow> within_range schema ''minimum'' ''maximum'' n))
          (and_then (case as_str v of None \<Rightarrow> Some True | Some t \<Rightarrow> text_valid X Y schema t)
          (case v of
             JObj kvs \<Rightarrow> and_then (has_required schema kvs) (all_of (member_valid sub schema) kvs)
           | JArr xs \<Rightarrow> array_valid sub schema xs
           | _ \<Rightarrow> Some True)))))))"

primrec schema_valid :: "nat \<Rightarrow> ext \<Rightarrow> config_ext \<Rightarrow> json \<Rightarrow> json \<Rightarrow> json \<Rightarrow> bool option" where
  "schema_valid 0 X Y doc schema v = None"
| "schema_valid (Suc fuel) X Y doc schema v = evaluate X Y doc (schema_valid fuel X Y doc) schema v"

subsection \<open>When the evaluator answers\<close>

definition alternatives :: "json \<Rightarrow> string \<Rightarrow> json list" where
  "alternatives schema key = (case as_array (jget schema key) of None \<Rightarrow> [] | Some xs \<Rightarrow> xs)"

definition members :: "json \<Rightarrow> json list" where
  "members v = (case v of JObj kvs \<Rightarrow> map snd kvs | _ \<Rightarrow> [])"

text \<open>The schemas an evaluation may go to next, and whether its unwraps succeed.\<close>

definition next_schemas :: "json \<Rightarrow> json list" where
  "next_schemas schema =
     alternatives schema ''anyOf'' @ alternatives schema ''oneOf'' @ members (jget schema ''properties'')
     @ (case jfind schema ''items'' of None \<Rightarrow> [] | Some s \<Rightarrow> [s])"

definition unwraps :: "config_ext \<Rightarrow> json \<Rightarrow> bool" where
  "unwraps Y schema \<longleftrightarrow>
     (case as_str (jget schema ''pattern'') of None \<Rightarrow> True | Some p \<Rightarrow> y_compiles Y p)
   \<and> list_all (\<lambda>k. as_str k \<noteq> None) (alternatives schema ''required'')"

primrec settled :: "nat \<Rightarrow> config_ext \<Rightarrow> json \<Rightarrow> json \<Rightarrow> bool" where
  "settled 0 Y doc schema = False"
| "settled (Suc fuel) Y doc schema =
     (case as_str (jget schema ''$ref'') of
        Some r \<Rightarrow>
          (case ref_path r of
             None \<Rightarrow> False
           | Some path \<Rightarrow> (case pointer doc path of None \<Rightarrow> True | Some s \<Rightarrow> settled fuel Y doc s))
      | None \<Rightarrow> unwraps Y schema \<and> list_all (settled fuel Y doc) (next_schemas schema))"

lemma and_then_answers:
  "\<exists>b. x = Some b \<Longrightarrow> \<exists>b. y = Some b \<Longrightarrow> \<exists>b. and_then x y = Some b"
  by (cases "(x, y)" rule: and_then.cases) auto

lemma and_then_eq_True [simp]: "and_then x y = Some True \<longleftrightarrow> x = Some True \<and> y = Some True"
  by (cases "(x, y)" rule: and_then.cases) auto

lemma and_then_False [simp]: "and_then (Some False) y = Some False"
  by simp

lemma all_of_answers: "(\<And>x. x \<in> set xs \<Longrightarrow> \<exists>b. f x = Some b) \<Longrightarrow> \<exists>b. all_of f xs = Some b"
  by (induction xs) (auto intro!: and_then_answers)

lemma all_of_True: "all_of f xs = Some True \<longleftrightarrow> (\<forall>x \<in> set xs. f x = Some True)"
  by (induction xs) auto

lemma count_of_answers: "(\<And>x. x \<in> set xs \<Longrightarrow> \<exists>b. f x = Some b) \<Longrightarrow> \<exists>n. count_of f xs = Some n"
  by (induction xs) fastforce+

lemma choice_answers:
  assumes "\<And>s. s \<in> set (alternatives schema key) \<Longrightarrow> \<exists>b. f s = Some b"
  shows "\<exists>b. choice f schema key good = Some b"
  using assms count_of_answers [of "alternatives schema key" f]
  by (fastforce simp: choice_def alternatives_def split: option.splits)

lemma has_required_answers: "unwraps Y schema \<Longrightarrow> \<exists>b. has_required schema kvs = Some b"
  by (auto simp: has_required_def unwraps_def alternatives_def list_all_iff split: option.splits
      intro!: all_of_answers)

lemma text_valid_answers: "unwraps Y schema \<Longrightarrow> \<exists>b. text_valid X Y schema t = Some b"
  by (auto simp: text_valid_def unwraps_def split: option.splits intro!: and_then_answers)

lemma properties_next: "jfind (jget schema ''properties'') k = Some p \<Longrightarrow> p \<in> set (next_schemas schema)"
  by (force simp: next_schemas_def members_def jfind_def obj_get_def split: json.splits dest: map_of_SomeD)

text \<open>A settled schema answers every document within its fuel.\<close>

lemma evaluate_answers:
  assumes "as_str (jget schema ''$ref'') = None" and un: "unwraps Y schema"
    and ans: "\<And>s w. s \<in> set (next_schemas schema) \<Longrightarrow> \<exists>b. sub s w = Some b"
  shows "\<exists>b. evaluate X Y doc sub schema v = Some b"
proof -
  have member: "\<exists>b. member_valid sub schema kv = Some b" for kv
    by (auto simp: member_valid_def split: option.splits intro: ans properties_next)
  have element: "\<exists>b. element_valid sub schema xs i = Some b" for xs i
    by (auto simp: element_valid_def next_schemas_def split: option.splits intro!: and_then_answers ans)
  have alt: "\<exists>b. choice (\<lambda>s. sub s v) schema key good = Some b"
    if "key = ''anyOf'' \<or> key = ''oneOf''" for key good
    by (rule choice_answers) (use that in \<open>auto simp: next_schemas_def intro!: ans\<close>)
  have rest: "\<exists>b. (case v of
           JObj kvs \<Rightarrow> and_then (has_required schema kvs) (all_of (member_valid sub schema) kvs)
         | JArr xs \<Rightarrow> array_valid sub schema xs
         | _ \<Rightarrow> Some True) = Some b"
    by (cases v) (auto simp: array_valid_def intro!: and_then_answers all_of_answers has_required_answers [OF un] member element)
  have words: "\<exists>b. (case as_str v of None \<Rightarrow> Some True | Some t \<Rightarrow> text_valid X Y schema t) = Some b"
    using text_valid_answers [OF un] by (auto split: option.splits)
  show ?thesis
    unfolding evaluate_def assms(1) option.case by (intro and_then_answers alt words rest) auto
qed

lemma settled_answers: "settled fuel Y doc schema \<Longrightarrow> \<exists>b. schema_valid fuel X Y doc schema v = Some b"
proof (induction fuel arbitrary: schema v)
  case 0
  then show ?case by simp
next
  case (Suc fuel)
  show ?case
  proof (cases "as_str (jget schema ''$ref'')")
    case (Some r)
    with Suc show ?thesis by (auto simp: evaluate_def split: option.splits)
  next
    case None
    with Suc.prems have "unwraps Y schema" and "\<And>s. s \<in> set (next_schemas schema) \<Longrightarrow> settled fuel Y doc s"
      by (auto simp: list_all_iff)
    with None show ?thesis by (auto intro!: evaluate_answers Suc.IH)
  qed
qed

text \<open>An answer does not depend on the fuel it was found with.\<close>

lemma and_then_more:
  "and_then x y = Some b \<Longrightarrow> (\<And>c. x = Some c \<Longrightarrow> x' = Some c) \<Longrightarrow> (\<And>c. y = Some c \<Longrightarrow> y' = Some c)
    \<Longrightarrow> and_then x' y' = Some b"
  by (cases "(x, y)" rule: and_then.cases) auto

lemma all_of_more:
  "all_of f xs = Some b \<Longrightarrow> (\<And>x c. x \<in> set xs \<Longrightarrow> f x = Some c \<Longrightarrow> g x = Some c) \<Longrightarrow> all_of g xs = Some b"
proof (induction xs arbitrary: b)
  case (Cons x xs)
  show ?case
    unfolding all_of.simps
    by (rule and_then_more [OF Cons.prems(1) [unfolded all_of.simps]]) (use Cons in auto)
qed simp

lemma count_of_more:
  "count_of f xs = Some n \<Longrightarrow> (\<And>x c. f x = Some c \<Longrightarrow> g x = Some c) \<Longrightarrow> count_of g xs = Some n"
  by (induction xs arbitrary: n) (auto split: option.splits)

lemma evaluate_more:
  assumes "evaluate X Y doc f schema v = Some b" and more: "\<And>s w c. f s w = Some c \<Longrightarrow> g s w = Some c"
  shows "evaluate X Y doc g schema v = Some b"
proof (cases "as_str (jget schema ''$ref'')")
  case (Some r)
  with assms show ?thesis by (auto simp: evaluate_def split: option.splits)
next
  case None
  have alt: "choice (\<lambda>s. g s v) schema key good = Some c" if "choice (\<lambda>s. f s v) schema key good = Some c" for key good c
  proof -
    have "count_of (\<lambda>s. g s v) xs = Some n" if "count_of (\<lambda>s. f s v) xs = Some n" for xs n
      using that by (rule count_of_more) (rule more)
    with that show ?thesis by (auto simp: choice_def split: option.splits)
  qed
  have member: "member_valid g schema kv = Some c" if "member_valid f schema kv = Some c" for kv c
    using that by (auto simp: member_valid_def split: option.splits intro: more)
  have element: "element_valid g schema xs i = Some c" if "element_valid f schema xs i = Some c" for xs i c
    using that unfolding element_valid_def by (elim and_then_more) (auto split: option.splits intro: more)
  have rest: "(case v of
           JObj kvs \<Rightarrow> and_then (has_required schema kvs) (all_of (member_valid g schema) kvs)
         | JArr xs \<Rightarrow> array_valid g schema xs
         | _ \<Rightarrow> Some True) = Some c"
    if "(case v of
           JObj kvs \<Rightarrow> and_then (has_required schema kvs) (all_of (member_valid f schema) kvs)
         | JArr xs \<Rightarrow> array_valid f schema xs
         | _ \<Rightarrow> Some True) = Some c" for c
    using that by (cases v) (auto simp: array_valid_def elim!: and_then_more all_of_more intro: member element)
  show ?thesis
    using assms(1) unfolding evaluate_def None option.case by (elim and_then_more) (assumption | erule alt rest)+
qed

lemma schema_valid_Suc: "schema_valid fuel X Y doc schema v = Some b \<Longrightarrow> schema_valid (Suc fuel) X Y doc schema v = Some b"
  by (induction fuel arbitrary: schema v b) (auto elim!: evaluate_more)

lemma schema_valid_more:
  assumes "schema_valid n X Y doc schema v = Some b" and "n \<le> m"
  shows "schema_valid m X Y doc schema v = Some b"
  using assms(2,1) by (induction rule: dec_induct) (blast intro: schema_valid_Suc)+

end
