(* ===== verification/Relay_Disclosure.thy ===== *)
theory Relay_Disclosure
  imports Relay_Schema
begin

text \<open>
  The schema that the relay compiles in (\<^verbatim>\<open>docs/privacy.schema.json\<close>), member by member, and what a
  document that it accepts looks like.
\<close>

subsection \<open>Forms of schemas\<close>

definition closed_as :: "string list \<Rightarrow> (string \<times> json) list \<Rightarrow> json" where
  "closed_as names props = jobj [(''type'', JStr ''object''), (''properties'', jobj props),
     (''required'', JArr (map JStr names)), (''additionalProperties'', JBool False)]"

definition closed :: "(string \<times> json) list \<Rightarrow> json" where
  "closed props = closed_as (map fst props) props"

definition const :: "json \<Rightarrow> json" where
  "const v = jobj [(''const'', v)]"

definition enum :: "string list \<Rightarrow> json" where
  "enum names = jobj [(''enum'', JArr (map JStr names))]"

definition integer_from :: "nat \<Rightarrow> nat \<Rightarrow> json" where
  "integer_from low high = jobj [(''type'', JStr ''integer''), (''minimum'', JNat low), (''maximum'', JNat high)]"

definition text_schema :: json where
  "text_schema = jobj [(''type'', JStr ''string''), (''minLength'', JNat 1), (''maxLength'', JNat 1024)]"

definition texts_schema :: "nat \<Rightarrow> json" where
  "texts_schema low = jobj [(''type'', JStr ''array''), (''items'', text_schema), (''minItems'', JNat low), (''maxItems'', JNat 128)]"

definition nullable :: "json \<Rightarrow> json" where
  "nullable s = jobj [(''anyOf'', JArr [s, jobj [(''type'', JStr ''null'')]])]"

definition one_of :: "json list \<Rightarrow> json" where
  "one_of ss = jobj [(''oneOf'', JArr ss)]"

definition names_schema :: "string list \<Rightarrow> json" where
  "names_schema names = jobj [(''type'', JStr ''array''), (''items'', enum names), (''minItems'', JNat 0),
     (''maxItems'', JNat (length names)), (''uniqueItems'', JBool True)]"

definition ref :: "string \<Rightarrow> json" where
  "ref name = jobj [(''$ref'', JStr (''#/$defs/'' @ name))]"

subsection \<open>The shared definitions of the document\<close>

definition age_schema :: json where
  "age_schema = closed [(''mode'', const (JStr ''age'')), (''max_age_ms'', integer_from 1 MAX_INTEGER)]"

definition mode_schema :: "string \<Rightarrow> json" where
  "mode_schema mode = closed [(''mode'', const (JStr mode))]"

definition retention_schema :: json where
  "retention_schema = one_of [age_schema, mode_schema ''until_chain_deletion'', mode_schema ''indefinite'']"

definition rate_schema :: json where
  "rate_schema = closed [(''requests_per_minute'', integer_from 1 MAX_INTEGER), (''burst'', integer_from 1 MAX_INTEGER)]"

definition copy_schema :: json where
  "copy_schema = one_of [
     closed [(''present'', const (JBool False))],
     closed [(''present'', const (JBool True)), (''content'', enum [''ciphertext'', ''metadata'', ''authority_evidence'']),
       (''retention'', ref ''retention''), (''locations'', texts_schema 1), (''recipients'', texts_schema 1),
       (''purpose'', text_schema),
       (''after_delete'', closed [
         (''mode'', enum [''erase'', ''crypto_shred'', ''retain_metadata'', ''retain_authority_evidence'']),
         (''max_ms'', nullable (integer_from 1 MAX_INTEGER))])]]"

definition backup_schema :: json where
  "backup_schema = one_of [
     closed [(''enabled'', const (JBool False))],
     closed [(''enabled'', const (JBool True)), (''max_interval_ms'', integer_from 1 MAX_INTEGER),
       (''retention'', one_of [age_schema, mode_schema ''until_chain_deletion'']),
       (''restore_test_max_interval_ms'', nullable (integer_from 1 MAX_INTEGER)),
       (''last_successful_restore_test_at_ms'', nullable (integer_from 0 MAX_INTEGER))]]"

definition replay_schema :: json where
  "replay_schema = one_of [
     closed [(''mode'', enum [''durable'', ''replicated''])],
     closed [(''mode'', const (JStr ''restart_barrier'')), (''barrier_offset_ms'', const (JNat 60000)),
       (''clock_skew_ms'', const (JNat 60000)), (''coordination'', text_schema), (''recovery'', text_schema)]]"

definition pattern_schema :: "string \<Rightarrow> json" where
  "pattern_schema p = jobj [(''type'', JStr ''string''), (''pattern'', JStr p)]"

definition UUID_PATTERN :: string where
  "UUID_PATTERN = ''^[0-9a-f]{8}-[0-9a-f]{4}-4[0-9a-f]{3}-[89ab][0-9a-f]{3}-[0-9a-f]{12}$''"

definition URL_PATTERN :: string where "URL_PATTERN = ''^https://[^'' @ [CHR 0x5C] @ ''s]+$''"
definition ORIGIN_PATTERN :: string where "ORIGIN_PATTERN = ''^https://[^/'' @ [CHR 0x5C] @ ''s?#]+$''"

definition url_schema :: "string \<Rightarrow> json" where
  "url_schema p = jobj [(''type'', JStr ''string''), (''maxLength'', JNat 4096), (''pattern'', JStr p)]"

definition shared_schemas :: json where
  "shared_schemas = jobj [(''b32'', pattern_schema B32_PATTERN), (''b64'', pattern_schema B64_PATTERN),
     (''uuid'', pattern_schema UUID_PATTERN), (''url'', url_schema URL_PATTERN), (''origin'', url_schema ORIGIN_PATTERN),
     (''retention'', retention_schema), (''rate'', rate_schema), (''copy'', copy_schema), (''backup'', backup_schema),
     (''replay'', replay_schema)]"

subsection \<open>The disclosure\<close>

definition limits_schema :: json where
  "limits_schema = closed_as [''max_request_bytes'', ''max_records_per_upload'', ''page_limit'', ''max_devices'']
     [(''max_request_bytes'', integer_from 1 8388608), (''max_devices'', integer_from 1 128),
      (''max_records_per_upload'', integer_from 1 64), (''page_limit'', integer_from 1 1000)]"

definition quota_schema :: json where
  "quota_schema = closed [(''minimum_bytes'', integer_from 0 MAX_INTEGER),
     (''maximum_bytes'', nullable (integer_from 0 MAX_INTEGER)), (''allow_unconfigured'', jobj [(''type'', JStr ''boolean'')]),
     (''counted_components'', names_schema [''record'', ''snapshot'', ''envelope'', ''device_meta'', ''receipt'', ''transparency'',
        ''backup'', ''control'']),
     (''allocation_rule'', text_schema)]"

definition rate_limits_schema :: json where
  "rate_limits_schema = closed [(''authorized_signer'', ref ''rate''), (''record_upload_device'', ref ''rate''),
     (''enrollment_source_ip'', ref ''rate''), (''enrollment_offer'', ref ''rate''), (''public_document_ip'', ref ''rate'')]"

definition copies_schema :: json where
  "copies_schema = closed [(''active_store'', ref ''copy''), (''replica'', ref ''copy''), (''wal'', ref ''copy''),
     (''snapshot_store'', ref ''copy''), (''backup'', ref ''copy''), (''staging'', ref ''copy''),
     (''temporary_export'', ref ''copy''), (''support'', ref ''copy''), (''cache'', ref ''copy''),
     (''operational_log'', ref ''copy''), (''attestations'', ref ''copy''), (''deletion_ledger'', ref ''copy'')]"

definition deletion_schema :: json where
  "deletion_schema = closed [(''assurance'', enum [''crypto-shred'', ''backup-expiry'']),
     (''active_delete_max_ms'', integer_from 1 MAX_INTEGER),
     (''backup_delete_max_ms'', nullable (integer_from 1 MAX_INTEGER)),
     (''key_destroy_max_ms'', nullable (integer_from 1 MAX_INTEGER))]"

definition relay_key_schema :: json where
  "relay_key_schema = closed [(''protection'', enum [''hardware'', ''os_keystore'', ''kms'', ''passphrase_wrapped'']),
     (''replacement_mode'', const (JStr ''explicit_trust_reestablishment'')), (''automatic_rotation'', const (JBool False)),
     (''new_transparency_id_required'', const (JBool True)), (''old_verification_keys_retained'', const (JBool True))]"

definition metadata_schema :: json where
  "metadata_schema = closed [
     (''retained_fields'', names_schema [''ip'', ''user_agent'', ''connection_time'', ''request_path_class'', ''response_status'',
        ''timing'', ''byte_count'']),
     (''purposes'', texts_schema 0),
     (''retention'', one_of [mode_schema ''not_retained'', age_schema, mode_schema ''indefinite'']),
     (''recipients'', texts_schema 0)]"

definition privacy_members :: "(string \<times> json) list" where
  "privacy_members = [
     (''type'', const (JStr ''PALLASYNC-RELAY-PRIVACY-v3'')), (''version'', const (JStr ''3.0'')),
     (''disclosure_id'', ref ''uuid''), (''relay_origin'', ref ''origin''), (''relay_key_id'', ref ''b32''),
     (''revision'', integer_from 1 4294967295), (''published_at_ms'', integer_from 0 MAX_INTEGER),
     (''effective_at_ms'', integer_from 0 MAX_INTEGER), (''markdown_sha256'', ref ''b32''),
     (''operator'', closed [(''name'', text_schema), (''contact_url'', ref ''url'')]),
     (''durability_tier'', enum [''single-durable'', ''replicated-durable'', ''backup-durable'']),
     (''limits'', limits_schema), (''quota'', quota_schema), (''rate_limits'', rate_limits_schema),
     (''backups'', ref ''backup''), (''copies'', copies_schema), (''deletion'', deletion_schema),
     (''relay_key'', relay_key_schema), (''replay_protection'', ref ''replay''), (''metadata'', metadata_schema),
     (''change_notice'', closed [(''minimum_notice_ms'', integer_from 0 MAX_INTEGER), (''notice_url'', ref ''url''),
        (''archive_url'', ref ''url'')]),
     (''relay_signature'', ref ''b64'')]"

definition privacy_schema :: json where
  "privacy_schema = jobj [(''$schema'', JStr ''https://json-schema.org/draft/2020-12/schema''),
     (''title'', JStr ''PallaSync RelayPrivacyDisclosure 3.0''), (''type'', JStr ''object''),
     (''properties'', jobj privacy_members), (''required'', JArr (map (\<lambda>p. JStr (fst p)) privacy_members)),
     (''additionalProperties'', JBool False), (''$defs'', shared_schemas)]"

definition disclosure_patterns :: "string list" where
  "disclosure_patterns = [B32_PATTERN, B64_PATTERN, UUID_PATTERN, URL_PATTERN, ORIGIN_PATTERN]"

subsection \<open>Every document gets an answer\<close>

named_theorems settling "schemas whose evaluation ends within a known fuel"

lemma members_jobj: "set (members (jobj kvs)) \<subseteq> snd ` set kvs"
proof -
  have "snd ` set (fold (\<lambda>(k, x). obj_put k x) kvs acc) \<subseteq> snd ` set acc \<union> snd ` set kvs" for acc
  proof (induction kvs arbitrary: acc)
    case (Cons p kvs)
    obtain k x where p: "p = (k, x)" by fastforce
    show ?case
      using Cons [of "obj_put k x acc"] vals_obj_put [of k x acc] unfolding p by simp blast
  qed simp
  from this [of "[]"] show ?thesis by (simp add: members_def jobj_def)
qed

lemma follow_jobj [simp]: "follow t (jobj kvs) = map_of (rev kvs) t"
  using jfind_jobj [of kvs t] by (simp add: follow_def jfind_def jobj_def)

lemma settled_closed [settling]:
  assumes "\<And>s. s \<in> snd ` set props \<Longrightarrow> settled fuel Y doc s"
  shows "settled (Suc fuel) Y doc (closed_as names props)"
  using assms subsetD [OF members_jobj [of props]]
  by (auto simp: closed_as_def next_schemas_def alternatives_def unwraps_def jget_jobj jfind_jobj as_str_def as_array_def
      list_all_iff)

lemma settled_leaves [settling]:
  "settled (Suc fuel) Y doc (const v)"
  "settled (Suc fuel) Y doc (enum names)"
  "settled (Suc fuel) Y doc (integer_from low high)"
  "settled (Suc fuel) Y doc text_schema"
  "settled (Suc fuel) Y doc (jobj [(''type'', JStr t)])"
  by (simp_all add: const_def enum_def integer_from_def text_schema_def next_schemas_def alternatives_def unwraps_def
      members_def jget_jobj jfind_jobj as_str_def as_array_def)

lemma settled_lists [settling]:
  "settled (Suc (Suc fuel)) Y doc (texts_schema low)"
  "settled (Suc (Suc fuel)) Y doc (names_schema names)"
  using settled_leaves [of fuel Y doc]
  by (simp_all add: texts_schema_def names_schema_def next_schemas_def alternatives_def unwraps_def members_def
      jget_jobj jfind_jobj as_str_def as_array_def del: settled.simps(2)) (simp_all add: next_schemas_def alternatives_def
      unwraps_def members_def jget_jobj jfind_jobj as_str_def as_array_def)

lemma settled_choices [settling]:
  "(\<And>s. s \<in> set ss \<Longrightarrow> settled fuel Y doc s) \<Longrightarrow> settled (Suc fuel) Y doc (one_of ss)"
  "settled (Suc fuel) Y doc s \<Longrightarrow> settled (Suc (Suc fuel)) Y doc (nullable s)"
  using settled_leaves(5) [of fuel Y doc "''null''"]
  by (simp_all add: one_of_def nullable_def next_schemas_def alternatives_def unwraps_def members_def jget_jobj jfind_jobj
      as_str_def as_array_def list_all_iff del: settled.simps(2)) (simp_all add: next_schemas_def alternatives_def
      unwraps_def members_def jget_jobj jfind_jobj as_str_def as_array_def list_all_iff)

lemma settled_patterns [settling]:
  "y_compiles Y p \<Longrightarrow> settled (Suc fuel) Y doc (pattern_schema p)"
  "y_compiles Y p \<Longrightarrow> settled (Suc fuel) Y doc (url_schema p)"
  by (simp_all add: pattern_schema_def url_schema_def next_schemas_def alternatives_def unwraps_def
      members_def jget_jobj jfind_jobj as_str_def as_array_def)

lemma defs_privacy [simp]:
  "pointer privacy_schema ''/$defs/b32'' = Some (pattern_schema B32_PATTERN)"
  "pointer privacy_schema ''/$defs/b64'' = Some (pattern_schema B64_PATTERN)"
  "pointer privacy_schema ''/$defs/uuid'' = Some (pattern_schema UUID_PATTERN)"
  "pointer privacy_schema ''/$defs/url'' = Some (url_schema URL_PATTERN)"
  "pointer privacy_schema ''/$defs/origin'' = Some (url_schema ORIGIN_PATTERN)"
  "pointer privacy_schema ''/$defs/retention'' = Some retention_schema"
  "pointer privacy_schema ''/$defs/rate'' = Some rate_schema"
  "pointer privacy_schema ''/$defs/copy'' = Some copy_schema"
  "pointer privacy_schema ''/$defs/backup'' = Some backup_schema"
  "pointer privacy_schema ''/$defs/replay'' = Some replay_schema"
  by (simp_all add: pointer_def privacy_schema_def shared_schemas_def)

lemma ref_fields [simp]:
  "as_str (jget (ref name) ''$ref'') = Some (''#/$defs/'' @ name)" "ref_path (''#/$defs/'' @ name) = Some (''/$defs/'' @ name)"
  by (simp_all add: ref_def jget_jobj as_str_def ref_path_def)

declare ref_fields(2) [unfolded append.simps, simp]

lemma settled_ref:
  "pointer doc (''/$defs/'' @ name) = Some s \<Longrightarrow> settled fuel Y doc s \<Longrightarrow> settled (Suc fuel) Y doc (ref name)"
  by simp

lemma settled_refs [settling]:
  "settled fuel Y privacy_schema (pattern_schema B32_PATTERN) \<Longrightarrow> settled (Suc fuel) Y privacy_schema (ref ''b32'')"
  "settled fuel Y privacy_schema (pattern_schema B64_PATTERN) \<Longrightarrow> settled (Suc fuel) Y privacy_schema (ref ''b64'')"
  "settled fuel Y privacy_schema (pattern_schema UUID_PATTERN) \<Longrightarrow> settled (Suc fuel) Y privacy_schema (ref ''uuid'')"
  "settled fuel Y privacy_schema (url_schema URL_PATTERN) \<Longrightarrow> settled (Suc fuel) Y privacy_schema (ref ''url'')"
  "settled fuel Y privacy_schema (url_schema ORIGIN_PATTERN) \<Longrightarrow> settled (Suc fuel) Y privacy_schema (ref ''origin'')"
  "settled fuel Y privacy_schema retention_schema \<Longrightarrow> settled (Suc fuel) Y privacy_schema (ref ''retention'')"
  "settled fuel Y privacy_schema rate_schema \<Longrightarrow> settled (Suc fuel) Y privacy_schema (ref ''rate'')"
  "settled fuel Y privacy_schema copy_schema \<Longrightarrow> settled (Suc fuel) Y privacy_schema (ref ''copy'')"
  "settled fuel Y privacy_schema backup_schema \<Longrightarrow> settled (Suc fuel) Y privacy_schema (ref ''backup'')"
  "settled fuel Y privacy_schema replay_schema \<Longrightarrow> settled (Suc fuel) Y privacy_schema (ref ''replay'')"
  by (simp_all del: settled.simps add: settled_ref)

lemma settled_shared [settling]:
  "settled (Suc (Suc fuel)) Y doc age_schema"
  "settled (Suc (Suc fuel)) Y doc (mode_schema mode)"
  "settled (Suc (Suc fuel)) Y doc rate_schema"
  "settled (Suc (Suc (Suc fuel))) Y doc replay_schema"
  unfolding age_schema_def mode_schema_def rate_schema_def replay_schema_def closed_def
  by (auto intro!: settling simp del: settled.simps)

lemma settled_retention [settling]:
  "settled (Suc (Suc (Suc fuel))) Y doc retention_schema"
  "settled (Suc (Suc (Suc (Suc (Suc fuel))))) Y doc backup_schema"
  unfolding retention_schema_def backup_schema_def closed_def by (auto intro!: settling simp del: settled.simps)

lemma settled_copy [settling]: "settled (Suc (Suc (Suc (Suc (Suc (Suc fuel)))))) Y privacy_schema copy_schema"
  unfolding copy_schema_def closed_def by (auto intro!: settling simp del: settled.simps)

lemma privacy_parts [simp]:
  "as_str (jget privacy_schema ''$ref'') = None" "unwraps Y privacy_schema"
  "jget privacy_schema ''properties'' = jobj privacy_members" "next_schemas privacy_schema = members (jobj privacy_members)"
  by (simp_all add: privacy_schema_def next_schemas_def alternatives_def unwraps_def jget_jobj jfind_jobj
      as_str_def as_array_def list_all_iff)

lemma settled_privacy:
  assumes "list_all (y_compiles Y) disclosure_patterns"
  shows "settled (9 + fuel) Y privacy_schema privacy_schema"
proof -
  have comp: "y_compiles Y B32_PATTERN" "y_compiles Y B64_PATTERN" "y_compiles Y UUID_PATTERN" "y_compiles Y URL_PATTERN"
      "y_compiles Y ORIGIN_PATTERN"
    using assms by (simp_all add: disclosure_patterns_def)
  have "settled (Suc (Suc (Suc (Suc (Suc (Suc (Suc (Suc fuel)))))))) Y privacy_schema s" if "s \<in> snd ` set privacy_members" for s
    using that unfolding privacy_members_def limits_schema_def quota_schema_def rate_limits_schema_def copies_schema_def
      deletion_schema_def relay_key_schema_def metadata_schema_def closed_def
    by (auto intro!: settling comp simp del: settled.simps)
  then show ?thesis
    using subsetD [OF members_jobj [of privacy_members]] by (simp add: eval_nat_numeral list_all_iff)
qed

subsection \<open>What an accepted document holds\<close>

lemma accepted_object:
  assumes "schema_valid (Suc fuel) X Y doc schema v = Some True" "as_str (jget schema ''$ref'') = None"
    "jget schema ''type'' = JStr ''object''"
  shows "is_object v"
  using assms by (simp add: evaluate_def typed_def as_str_def)

lemma accepted_member:
  assumes acc: "schema_valid (Suc fuel) X Y doc schema v = Some True" and noref: "as_str (jget schema ''$ref'') = None"
    and obj: "jget schema ''type'' = JStr ''object''"
    and p: "jfind (jget schema ''properties'') name = Some p" and req: "JStr name \<in> set (alternatives schema ''required'')"
  shows "schema_valid fuel X Y doc p (jget v name) = Some True"
proof -
  obtain kvs where v: "v = JObj kvs"
    using accepted_object [OF acc noref obj] by (auto simp: is_object_def split: json.splits)
  have "has_required schema kvs = Some True" and mem: "all_of (member_valid (schema_valid fuel X Y doc) schema) kvs = Some True"
    using acc noref by (simp_all add: evaluate_def v)
  with req obtain x where x: "obj_get kvs name = Some x"
    by (auto simp: has_required_def alternatives_def all_of_True as_str_def split: option.splits)
  then have "(name, x) \<in> set kvs" by (simp add: obj_get_def map_of_SomeD)
  with mem have "member_valid (schema_valid fuel X Y doc) schema (name, x) = Some True" by (simp add: all_of_True)
  with p x show ?thesis by (simp add: member_valid_def v jget_def jfind_def)
qed

lemma accepted_closed:
  assumes "schema_valid (Suc fuel) X Y doc (closed_as names props) v = Some True"
  shows "is_object v" "map_of (rev props) name = Some p \<Longrightarrow> name \<in> set names
    \<Longrightarrow> schema_valid fuel X Y doc p (jget v name) = Some True"
proof -
  have parts: "as_str (jget (closed_as names props) ''$ref'') = None" "jget (closed_as names props) ''type'' = JStr ''object''"
      "jget (closed_as names props) ''properties'' = jobj props" "alternatives (closed_as names props) ''required'' = map JStr names"
    by (simp_all add: closed_as_def jget_jobj as_str_def alternatives_def as_array_def)
  show "is_object v" by (rule accepted_object [OF assms parts(1,2)])
  show "map_of (rev props) name = Some p \<Longrightarrow> name \<in> set names \<Longrightarrow> schema_valid fuel X Y doc p (jget v name) = Some True"
    by (rule accepted_member [OF assms parts(1,2)]) (simp_all add: parts jfind_jobj)
qed

lemma accepted_ref:
  "schema_valid (Suc fuel) X Y doc (ref name) v = Some True \<Longrightarrow> pointer doc (''/$defs/'' @ name) = Some s
    \<Longrightarrow> schema_valid fuel X Y doc s v = Some True"
  by (simp add: evaluate_def)

lemma accepted_integer:
  "schema_valid (Suc fuel) X Y doc (integer_from low high) v = Some True \<Longrightarrow> low < 2 ^ 64 \<Longrightarrow> high < 2 ^ 64
    \<Longrightarrow> \<exists>n. as_u64 v = Some n \<and> low \<le> n \<and> n \<le> high"
  by (auto simp: evaluate_def integer_from_def jget_jobj typed_def within_range_def as_str_def as_u64_def
      split: if_splits json.splits)

lemma accepted_privacy:
  assumes "schema_valid (Suc fuel) X Y privacy_schema privacy_schema v = Some True"
  shows "is_object v" "map_of (rev privacy_members) name = Some p
    \<Longrightarrow> schema_valid fuel X Y privacy_schema p (jget v name) = Some True"
proof -
  have parts: "jget privacy_schema ''type'' = JStr ''object''"
      "alternatives privacy_schema ''required'' = map (\<lambda>p. JStr (fst p)) privacy_members"
    by (simp_all add: privacy_schema_def jget_jobj alternatives_def as_array_def)
  show "is_object v" by (rule accepted_object [OF assms privacy_parts(1) parts(1)])
  show "schema_valid fuel X Y privacy_schema p (jget v name) = Some True" if "map_of (rev privacy_members) name = Some p"
  proof (rule accepted_member [OF assms privacy_parts(1) parts(1)])
    show "jfind (jget privacy_schema ''properties'') name = Some p" using that by (simp add: jfind_jobj)
    show "JStr name \<in> set (alternatives privacy_schema ''required'')"
      using map_of_SomeD [OF that] by (force simp: parts)
  qed
qed

text \<open>The numbers the handlers rely on.\<close>

definition u64_within :: "nat \<Rightarrow> nat \<Rightarrow> json \<Rightarrow> bool" where
  "u64_within low high v \<longleftrightarrow> (case as_u64 v of None \<Rightarrow> False | Some n \<Rightarrow> low \<le> n \<and> n \<le> high)"

definition limits_sound :: "json \<Rightarrow> bool" where
  "limits_sound v \<longleftrightarrow> u64_within 1 8388608 (jget v ''max_request_bytes'') \<and> u64_within 1 128 (jget v ''max_devices'')
     \<and> u64_within 1 64 (jget v ''max_records_per_upload'') \<and> u64_within 1 1000 (jget v ''page_limit'')"

definition rate_sound :: "json \<Rightarrow> bool" where
  "rate_sound v \<longleftrightarrow> u64_within 1 MAX_INTEGER (jget v ''requests_per_minute'') \<and> u64_within 1 MAX_INTEGER (jget v ''burst'')"

definition rate_scopes :: "string list" where
  "rate_scopes = [''authorized_signer'', ''record_upload_device'', ''enrollment_source_ip'', ''enrollment_offer'', ''public_document_ip'']"

lemma accepted_u64:
  "schema_valid (Suc fuel) X Y doc (integer_from low high) v = Some True \<Longrightarrow> low < 2 ^ 64 \<Longrightarrow> high < 2 ^ 64 \<Longrightarrow> u64_within low high v"
  using accepted_integer [of fuel X Y doc low high v] by (auto simp: u64_within_def)

lemma accepted_limits:
  assumes "schema_valid (Suc (Suc (Suc fuel))) X Y privacy_schema privacy_schema v = Some True"
  shows "limits_sound (jget v ''limits'')"
proof -
  have lim: "schema_valid (Suc (Suc fuel)) X Y privacy_schema limits_schema (jget v ''limits'') = Some True"
    by (rule accepted_privacy(2) [OF assms]) (simp add: privacy_members_def)
  note member = accepted_u64 [OF accepted_closed(2) [OF lim [unfolded limits_schema_def]]]
  show ?thesis unfolding limits_sound_def by (intro conjI member) simp_all
qed

lemma accepted_rates:
  assumes "schema_valid (Suc (Suc (Suc (Suc (Suc fuel))))) X Y privacy_schema privacy_schema v = Some True" and "scope \<in> set rate_scopes"
  shows "rate_sound (jget (jget v ''rate_limits'') scope)"
proof -
  have rates: "schema_valid (Suc (Suc (Suc (Suc fuel)))) X Y privacy_schema rate_limits_schema (jget v ''rate_limits'') = Some True"
    by (rule accepted_privacy(2) [OF assms(1)]) (simp add: privacy_members_def)
  have "schema_valid (Suc (Suc (Suc fuel))) X Y privacy_schema (ref ''rate'') (jget (jget v ''rate_limits'') scope) = Some True"
    by (rule accepted_closed(2) [OF rates [unfolded rate_limits_schema_def closed_def]])
      (use assms(2) in \<open>auto simp: rate_scopes_def\<close>)
  then have "schema_valid (Suc (Suc fuel)) X Y privacy_schema rate_schema (jget (jget v ''rate_limits'') scope) = Some True"
    by (rule accepted_ref) simp
  note member = accepted_u64 [OF accepted_closed(2) [OF this [unfolded rate_schema_def closed_def]]]
  show ?thesis unfolding rate_sound_def by (intro conjI member) (simp_all add: MAX_INTEGER_def)
qed

lemma accepted_copies:
  assumes "schema_valid (Suc (Suc fuel)) X Y privacy_schema privacy_schema v = Some True"
  shows "is_object (jget v ''copies'')"
proof -
  have "schema_valid (Suc fuel) X Y privacy_schema copies_schema (jget v ''copies'') = Some True"
    by (rule accepted_privacy(2) [OF assms]) (simp add: privacy_members_def)
  then show ?thesis unfolding copies_schema_def closed_def by (rule accepted_closed(1))
qed

subsection \<open>Documents that are accepted\<close>

text \<open>The rules by which a document is seen to be accepted, form by form.\<close>

named_theorems accepting "documents that a form of schema accepts"

definition accepts :: "nat \<Rightarrow> ext \<Rightarrow> config_ext \<Rightarrow> json \<Rightarrow> json \<Rightarrow> json \<Rightarrow> bool" where
  "accepts fuel X Y doc schema v \<longleftrightarrow> schema_valid fuel X Y doc schema v = Some True"

lemma entries_jobj: "jobj kvs = JObj ms \<Longrightarrow> set ms \<subseteq> set kvs"
proof -
  have put: "set (obj_put k x acc) \<subseteq> insert (k, x) (set acc)" for k x acc
    by (induction k x acc rule: obj_put.induct) auto
  have "set (fold (\<lambda>(k, x). obj_put k x) kvs acc) \<subseteq> set acc \<union> set kvs" for acc
  proof (induction kvs arbitrary: acc)
    case (Cons p kvs)
    obtain k x where p: "p = (k, x)" by fastforce
    show ?case using Cons [of "obj_put k x acc"] put [of k x acc] unfolding p by simp blast
  qed simp
  from this [of "[]"] show "jobj kvs = JObj ms \<Longrightarrow> set ms \<subseteq> set kvs" by (simp add: jobj_def)
qed

lemma jobj_cases [simp]: "as_u64 (jobj kvs) = None" "as_str (jobj kvs) = None"
  by (simp_all add: jobj_def as_u64_def as_str_def)

lemma accept_closed [accepting]:
  assumes "list_all (\<lambda>name. map_of (rev kvs) name \<noteq> None) names"
    and "list_all (\<lambda>(k, x). case map_of (rev props) k of None \<Rightarrow> False | Some p \<Rightarrow> accepts fuel X Y doc p x) kvs"
  shows "accepts (Suc fuel) X Y doc (closed_as names props) (jobj kvs)"
proof -
  obtain ms where m: "jobj kvs = JObj ms" by (simp add: jobj_def)
  have keys: "obj_get ms k = map_of (rev kvs) k" for k
    using jfind_jobj [of kvs k] by (simp add: m jfind_def)
  have "all_of (member_valid (schema_valid fuel X Y doc) (closed_as names props)) ms = Some True"
    using assms(2) subsetD [OF entries_jobj [OF m]]
    by (fastforce simp: all_of_True member_valid_def closed_as_def jget_jobj jfind_jobj list_all_iff accepts_def split: option.splits)
  moreover have "has_required (closed_as names props) ms = Some True"
    using assms(1) by (auto simp: has_required_def closed_as_def jget_jobj as_array_def as_str_def all_of_True keys list_all_iff)
  ultimately show ?thesis
    by (simp add: accepts_def evaluate_def choice_def value_listed_def typed_def closed_as_def jget_jobj jfind_jobj as_str_def
        as_array_def) (simp add: m closed_as_def)
qed

lemma accept_leaves [accepting]:
  "accepts (Suc fuel) X Y doc (const (JBool b)) (JBool b)"
  "accepts (Suc fuel) X Y doc (const (JStr t)) (JStr t)"
  "accepts (Suc fuel) X Y doc (const (JNat n)) (JNat n)"
  "name \<in> set names \<Longrightarrow> accepts (Suc fuel) X Y doc (enum names) (JStr name)"
  "int low \<le> i \<Longrightarrow> i \<le> int high \<Longrightarrow> high < 2 ^ 64 \<Longrightarrow> accepts (Suc fuel) X Y doc (integer_from low high) (JInt i)"
  "1 \<le> chars_count t \<Longrightarrow> chars_count t \<le> 1024 \<Longrightarrow> accepts (Suc fuel) X Y doc text_schema (JStr t)"
  "accepts (Suc fuel) X Y doc (jobj [(''type'', JStr ''boolean'')]) (JBool b)"
  "accepts (Suc fuel) X Y doc (jobj [(''type'', JStr ''null'')]) JNull"
  by (auto simp: accepts_def evaluate_def choice_def value_listed_def typed_def const_def enum_def integer_from_def text_schema_def
      text_valid_def within_range_def jget_jobj jfind_jobj as_str_def as_array_def as_u64_def is_object_def
      split: json.splits)

lemma accept_pattern [accepting]:
  "y_compiles Y p \<Longrightarrow> y_matches Y p t \<Longrightarrow> (p = B32_PATTERN \<Longrightarrow> decode X t (Some 32) \<noteq> None)
    \<Longrightarrow> (p = B64_PATTERN \<Longrightarrow> decode X t (Some 64) \<noteq> None) \<Longrightarrow> accepts (Suc fuel) X Y doc (pattern_schema p) (JStr t)"
  "y_compiles Y p \<Longrightarrow> y_matches Y p t \<Longrightarrow> p \<noteq> B32_PATTERN \<Longrightarrow> p \<noteq> B64_PATTERN \<Longrightarrow> chars_count t \<le> 4096
    \<Longrightarrow> accepts (Suc fuel) X Y doc (url_schema p) (JStr t)"
  by (auto simp: accepts_def evaluate_def choice_def value_listed_def typed_def pattern_schema_def url_schema_def
      text_valid_def within_range_def jget_jobj jfind_jobj as_str_def as_array_def as_u64_def)

lemma accept_array:
  assumes "schema = jobj kvs" "as_str (jget schema ''$ref'') = None" "jget schema ''anyOf'' = JNull" "jget schema ''oneOf'' = JNull"
    "value_listed schema (JArr xs)" "jget schema ''type'' = JStr ''array''" "within_range schema ''minItems'' ''maxItems'' (length xs)"
    "jfind schema ''items'' = Some s" "distinct xs" "list_all (accepts fuel X Y doc s) xs"
  shows "accepts (Suc fuel) X Y doc schema (JArr xs)"
proof -
  have "xs ! i \<notin> set (take i xs)" if "i < length xs" for i
    using assms(9) that by (auto simp: in_set_conv_nth nth_eq_iff_index_eq)
  then have "all_of (element_valid (schema_valid fuel X Y doc) schema xs) [0..<length xs] = Some True"
    using assms(8,10) by (auto simp: all_of_True element_valid_def list_all_iff accepts_def)
  with assms show ?thesis
    by (simp add: accepts_def evaluate_def choice_def as_array_def array_valid_def as_u64_def as_str_def typed_def)
qed

lemma accept_lists [accepting]:
  "low \<le> length xs \<Longrightarrow> length xs \<le> 128 \<Longrightarrow> distinct xs \<Longrightarrow> low < 2 ^ 64 \<Longrightarrow> list_all (accepts fuel X Y doc text_schema) xs
    \<Longrightarrow> accepts (Suc fuel) X Y doc (texts_schema low) (JArr xs)"
  "length xs \<le> length names \<Longrightarrow> distinct xs \<Longrightarrow> length names < 2 ^ 64 \<Longrightarrow> list_all (accepts fuel X Y doc (enum names)) xs
    \<Longrightarrow> accepts (Suc fuel) X Y doc (names_schema names) (JArr xs)"
  by (rule accept_array [OF texts_schema_def], simp_all add: texts_schema_def jget_jobj jfind_jobj as_str_def as_array_def
      value_listed_def within_range_def as_u64_def, rule accept_array [OF names_schema_def], simp_all add: names_schema_def jget_jobj
      jfind_jobj as_str_def as_array_def value_listed_def within_range_def as_u64_def)

text \<open>Exactly one alternative accepts; the others answer, because they are settled.\<close>

lemma count_of_filter:
  "(\<And>x. x \<in> set xs \<Longrightarrow> \<exists>b. f x = Some b) \<Longrightarrow> count_of f xs = Some (length (filter (\<lambda>x. f x = Some True) xs))"
  by (induction xs) fastforce+

lemma settled_rejects:
  assumes "settled fuel Y doc schema" and "\<not> accepts fuel X Y doc schema v"
  shows "schema_valid fuel X Y doc schema v = Some False"
  using assms settled_answers [OF assms(1), of X v] by (auto simp: accepts_def)

lemma accept_one_of:
  assumes "\<And>s. s \<in> set ss \<Longrightarrow> settled fuel Y doc s" and "length (filter (\<lambda>s. accepts fuel X Y doc s (jobj kvs)) ss) = 1"
  shows "accepts (Suc fuel) X Y doc (one_of ss) (jobj kvs)"
proof -
  have "count_of (\<lambda>s. schema_valid fuel X Y doc s (jobj kvs)) ss = Some 1"
    using assms by (subst count_of_filter) (auto simp: accepts_def intro: settled_answers)
  moreover have "jget (one_of ss) ''$ref'' = JNull" "jget (one_of ss) ''anyOf'' = JNull" "jget (one_of ss) ''oneOf'' = JArr ss"
      "value_listed (one_of ss) v" "typed (one_of ss) v" "has_required (one_of ss) ms = Some True"
      "member_valid sub (one_of ss) kv = Some True" for v ms sub kv
    by (simp_all add: one_of_def jget_jobj jfind_jobj as_array_def as_str_def value_listed_def typed_def has_required_def member_valid_def
        jfind_def [of JNull])
  ultimately show ?thesis
    by (simp add: accepts_def evaluate_def choice_def as_array_def as_str_def) (simp add: jobj_def all_of_True)
qed

lemma accept_nullable [accepting]:
  "accepts (Suc (Suc fuel)) X Y doc (nullable (integer_from low high)) JNull"
  by (simp add: accepts_def evaluate_def choice_def nullable_def integer_from_def jget_jobj jfind_jobj as_array_def value_listed_def
      typed_def as_str_def as_u64_def)

lemma accept_nullable_number [accepting]:
  assumes "int low \<le> i" "i \<le> int high" "high < 2 ^ 64"
  shows "accepts (Suc (Suc fuel)) X Y doc (nullable (integer_from low high)) (JInt i)"
proof -
  obtain n where i: "i = int n" using assms(1) by (metis nonneg_int_cases of_nat_0_le_iff order_trans)
  show ?thesis using assms unfolding i
    by (simp add: accepts_def evaluate_def choice_def nullable_def integer_from_def jget_jobj jfind_jobj as_array_def value_listed_def
        typed_def as_str_def as_u64_def within_range_def)
qed

lemma accept_ref [accepting]:
  "accepts fuel X Y privacy_schema retention_schema v \<Longrightarrow> accepts (Suc fuel) X Y privacy_schema (ref ''retention'') v"
  "accepts fuel X Y privacy_schema rate_schema v \<Longrightarrow> accepts (Suc fuel) X Y privacy_schema (ref ''rate'') v"
  "accepts fuel X Y privacy_schema copy_schema v \<Longrightarrow> accepts (Suc fuel) X Y privacy_schema (ref ''copy'') v"
  "accepts fuel X Y privacy_schema backup_schema v \<Longrightarrow> accepts (Suc fuel) X Y privacy_schema (ref ''backup'') v"
  "accepts fuel X Y privacy_schema replay_schema v \<Longrightarrow> accepts (Suc fuel) X Y privacy_schema (ref ''replay'') v"
  "accepts fuel X Y privacy_schema (pattern_schema B32_PATTERN) v \<Longrightarrow> accepts (Suc fuel) X Y privacy_schema (ref ''b32'') v"
  "accepts fuel X Y privacy_schema (pattern_schema B64_PATTERN) v \<Longrightarrow> accepts (Suc fuel) X Y privacy_schema (ref ''b64'') v"
  "accepts fuel X Y privacy_schema (pattern_schema UUID_PATTERN) v \<Longrightarrow> accepts (Suc fuel) X Y privacy_schema (ref ''uuid'') v"
  "accepts fuel X Y privacy_schema (url_schema URL_PATTERN) v \<Longrightarrow> accepts (Suc fuel) X Y privacy_schema (ref ''url'') v"
  "accepts fuel X Y privacy_schema (url_schema ORIGIN_PATTERN) v \<Longrightarrow> accepts (Suc fuel) X Y privacy_schema (ref ''origin'') v"
  by (simp_all add: accepts_def evaluate_def)

text \<open>A closed object is refused without a required member, with a wrong constant or a foreign name.\<close>

lemma reject_closed:
  "name \<in> set names \<Longrightarrow> map_of (rev kvs) name = None \<Longrightarrow> \<not> accepts fuel X Y doc (closed_as names props) (jobj kvs)"
  "map_of (rev props) name = Some p \<Longrightarrow> name \<in> set names \<Longrightarrow> (case map_of (rev kvs) name of None \<Rightarrow> True | Some x \<Rightarrow>
      \<not> accepts (fuel - 1) X Y doc p x) \<Longrightarrow> \<not> accepts fuel X Y doc (closed_as names props) (jobj kvs)"
proof -
  obtain ms where m: "jobj kvs = JObj ms" by (simp add: jobj_def)
  have keys: "obj_get ms k = map_of (rev kvs) k" for k
    using jfind_jobj [of kvs k] by (simp add: m jfind_def)
  show one: "\<not> accepts fuel X Y doc (closed_as names props) (jobj kvs)" if "name \<in> set names" "map_of (rev kvs) name = None"
  proof
    assume acc: "accepts fuel X Y doc (closed_as names props) (jobj kvs)"
    then obtain f where f: "fuel = Suc f" by (cases fuel) (auto simp: accepts_def)
    have "has_required (closed_as names props) ms = Some True"
      using acc by (simp add: accepts_def f m evaluate_def) (simp add: closed_as_def jget_jobj as_str_def)
    with that show False
      by (auto simp: has_required_def closed_as_def jget_jobj as_array_def as_str_def all_of_True keys)
  qed
  show "\<not> accepts fuel X Y doc (closed_as names props) (jobj kvs)"
    if p: "map_of (rev props) name = Some p" and n: "name \<in> set names" and c: "(case map_of (rev kvs) name of None \<Rightarrow> True | Some x \<Rightarrow>
      \<not> accepts (fuel - 1) X Y doc p x)"
  proof
    assume acc: "accepts fuel X Y doc (closed_as names props) (jobj kvs)"
    then obtain f where f: "fuel = Suc f" by (cases fuel) (auto simp: accepts_def)
    obtain x where x: "map_of (rev kvs) name = Some x" using one [OF n] acc by (cases "map_of (rev kvs) name") auto
    have "accepts f X Y doc p (jget (jobj kvs) name)"
      using accepted_closed(2) [OF acc [unfolded accepts_def f] p n] by (simp add: accepts_def)
    with c x show False by (simp add: f jget_jobj)
  qed
qed

lemma reject_const: "v \<noteq> c \<Longrightarrow> \<not> accepts fuel X Y doc (const c) v"
  by (cases fuel) (auto simp: accepts_def evaluate_def const_def jget_jobj jfind_jobj value_listed_def as_str_def)

lemma reject_enum: "name \<notin> set names \<Longrightarrow> \<not> accepts fuel X Y doc (enum names) (JStr name)"
  by (cases fuel) (auto simp: accepts_def evaluate_def enum_def jget_jobj jfind_jobj value_listed_def as_str_def as_array_def)

lemma accept_privacy:
  assumes "map fst props = map fst privacy_members"
    and "list_all2 (\<lambda>(k, p) (k', x). accepts fuel X Y privacy_schema p x) privacy_members props"
  shows "accepts (Suc fuel) X Y privacy_schema privacy_schema (jobj props)"
proof -
  obtain ms where m: "jobj props = JObj ms" by (simp add: jobj_def)
  have keys: "obj_get ms k = map_of (rev props) k" for k
    using jfind_jobj [of props k] by (simp add: m jfind_def)
  have dist: "distinct (map fst privacy_members)" by (simp add: privacy_members_def)
  have member: "\<exists>p. map_of (rev privacy_members) k = Some p \<and> accepts fuel X Y privacy_schema p x" if kx: "(k, x) \<in> set props" for k x
  proof -
    obtain i where i: "i < length props" "props ! i = (k, x)" using kx by (auto simp: in_set_conv_nth)
    have len: "length privacy_members = length props" by (rule list_all2_lengthD [OF assms(2)])
    obtain k' p where p: "privacy_members ! i = (k', p)" by fastforce
    have "k' = k" using arg_cong [OF assms(1), of "\<lambda>xs. xs ! i"] i p len by simp
    moreover have "(k', p) \<in> set privacy_members" using i(1) p len by (metis nth_mem)
    ultimately have "map_of (rev privacy_members) k = Some p" using dist by (simp add: rev_map [symmetric])
    moreover have "accepts fuel X Y privacy_schema p x" using list_all2_nthD2 [OF assms(2) i(1)] i(2) p by simp
    ultimately show ?thesis by blast
  qed
  have "all_of (member_valid (schema_valid fuel X Y privacy_schema) privacy_schema) ms = Some True"
  proof -
    have "member_valid (schema_valid fuel X Y privacy_schema) privacy_schema kv = Some True" if "kv \<in> set ms" for kv
    proof -
      obtain k x where kv: "kv = (k, x)" by fastforce
      then have "(k, x) \<in> set props" using that entries_jobj [OF m] by auto
      from member [OF this] show ?thesis by (auto simp: kv member_valid_def jfind_jobj accepts_def)
    qed
    then show ?thesis by (simp add: all_of_True)
  qed
  moreover have "has_required privacy_schema ms = Some True"
  proof -
    have "map_of (rev props) name \<noteq> None" if "name \<in> fst ` set privacy_members" for name
      using that arg_cong [OF assms(1), of set] by (simp add: map_of_eq_None_iff)
    then show ?thesis
      by (auto simp: has_required_def privacy_schema_def jget_jobj as_array_def as_str_def all_of_True keys)
  qed
  moreover have "jget privacy_schema ''anyOf'' = JNull" "jget privacy_schema ''oneOf'' = JNull" "value_listed privacy_schema (JObj ms)"
      "typed privacy_schema (JObj ms)"
    by (simp_all add: privacy_schema_def jget_jobj jfind_jobj value_listed_def typed_def as_array_def as_str_def is_object_def)
  ultimately show ?thesis
    by (simp add: accepts_def evaluate_def choice_def as_array_def m) (simp add: as_u64_def as_str_def)
qed

lemma accept_choice:
  "settled fuel Y doc a \<Longrightarrow> settled fuel Y doc b \<Longrightarrow> accepts fuel X Y doc a (jobj kvs) \<Longrightarrow> \<not> accepts fuel X Y doc b (jobj kvs)
    \<Longrightarrow> accepts (Suc fuel) X Y doc (one_of [a, b]) (jobj kvs)"
  "settled fuel Y doc a \<Longrightarrow> settled fuel Y doc b \<Longrightarrow> \<not> accepts fuel X Y doc a (jobj kvs) \<Longrightarrow> accepts fuel X Y doc b (jobj kvs)
    \<Longrightarrow> accepts (Suc fuel) X Y doc (one_of [a, b]) (jobj kvs)"
  "settled fuel Y doc a \<Longrightarrow> settled fuel Y doc b \<Longrightarrow> settled fuel Y doc c \<Longrightarrow> \<not> accepts fuel X Y doc a (jobj kvs)
    \<Longrightarrow> accepts fuel X Y doc b (jobj kvs) \<Longrightarrow> \<not> accepts fuel X Y doc c (jobj kvs)
    \<Longrightarrow> accepts (Suc fuel) X Y doc (one_of [a, b, c]) (jobj kvs)"
  "settled fuel Y doc a \<Longrightarrow> settled fuel Y doc b \<Longrightarrow> settled fuel Y doc c \<Longrightarrow> \<not> accepts fuel X Y doc a (jobj kvs)
    \<Longrightarrow> \<not> accepts fuel X Y doc b (jobj kvs) \<Longrightarrow> accepts fuel X Y doc c (jobj kvs)
    \<Longrightarrow> accepts (Suc fuel) X Y doc (one_of [a, b, c]) (jobj kvs)"
  by (rule accept_one_of; auto simp del: settled.simps)+

lemma reject_mode: "m \<noteq> mode \<Longrightarrow> \<not> accepts fuel X Y doc (mode_schema mode) (jobj [(''mode'', JStr m)])"
  unfolding mode_schema_def closed_def by (rule reject_closed(2)) (auto intro!: reject_const)

lemma reject_age: "\<not> accepts fuel X Y doc age_schema (jobj [(''mode'', JStr m)])"
  unfolding age_schema_def closed_def by (rule reject_closed(1) [of "''max_age_ms''"]) auto

lemma accept_mode [accepting]: "accepts (Suc (Suc fuel)) X Y doc (mode_schema mode) (jobj [(''mode'', JStr mode)])"
  unfolding mode_schema_def closed_def by (auto intro!: accepting)

lemma accept_retention [accepting]:
  assumes "mode = ''until_chain_deletion'' \<or> mode = ''indefinite''"
  shows "accepts (Suc (Suc (Suc fuel))) X Y doc retention_schema (jobj [(''mode'', JStr mode)])"
  using assms unfolding retention_schema_def
  by (elim disjE; simp only:; intro accept_choice(3) accept_choice(4) settling accepting reject_mode reject_age; simp)

lemma accept_replay: "accepts (Suc (Suc (Suc fuel))) X Y doc replay_schema (jobj [(''mode'', JStr ''durable'')])"
  unfolding replay_schema_def closed_def
  by (intro accept_choice(1) settling accepting reject_closed(1) [of "''recovery''"]) (auto intro!: settling accepting simp del: settled.simps)

lemma accept_rate [accepting]:
  "1 \<le> r \<Longrightarrow> r \<le> int MAX_INTEGER \<Longrightarrow> 1 \<le> b \<Longrightarrow> b \<le> int MAX_INTEGER
    \<Longrightarrow> accepts (Suc (Suc fuel)) X Y doc rate_schema (jobj [(''requests_per_minute'', JInt r), (''burst'', JInt b)])"
  unfolding rate_schema_def closed_def by (auto intro!: accepting simp: MAX_INTEGER_def)

lemma accept_no_backup: "accepts (Suc (Suc (Suc (Suc (Suc fuel))))) X Y doc backup_schema (jobj [(''enabled'', JBool False)])"
  unfolding backup_schema_def closed_def
proof (rule accept_choice(1), goal_cases)
  case 3
  show ?case by (auto intro!: accepting)
next
  case 4
  show ?case by (rule reject_closed(1) [of "''retention''"]) auto
qed (auto intro!: settling simp del: settled.simps)

lemma accept_indefinite:
  "accepts (Suc (Suc (Suc fuel))) X Y doc (one_of [mode_schema ''not_retained'', age_schema, mode_schema ''indefinite''])
     (jobj [(''mode'', JStr ''indefinite'')])"
  by (intro accept_choice(4) settling accepting reject_mode reject_age) simp


end
