(* ===== verification/Relay_Policy.thy ===== *)
theory Relay_Policy
  imports Relay_Config Relay_Disclosure
begin

text \<open>
  \<^verbatim>\<open>src/config.rs\<close>, \<^verbatim>\<open>RelayConfig::new\<close> and \<^verbatim>\<open>from_env\<close>: the relay starts only with a privacy
  disclosure that its schema accepts, that its own key signed and that promises what the relay does.
\<close>

definition CTX_PRIVACY :: bytes where "CTX_PRIVACY = ''PALLASYNC-RELAY-PRIVACY-v3'' @ [CHR 0x00]"

definition valid_url :: "config_ext \<Rightarrow> string \<Rightarrow> bool" where
  "valid_url Y t \<longleftrightarrow>
     list_all (\<lambda>c. of_char c < (128 :: nat)) t \<and> length t \<le> 4096
   \<and> (case y_url Y t of
        None \<Rightarrow> False
      | Some u \<Rightarrow> url_scheme u = ''https'' \<and> url_host u \<noteq> None \<and> url_username u = [] \<and> url_password u = None
          \<and> url_fragment u = None)"

definition valid_origin :: "config_ext \<Rightarrow> string \<Rightarrow> bool" where
  "valid_origin Y t \<longleftrightarrow>
     valid_url Y t
   \<and> (case y_url Y t of None \<Rightarrow> False | Some u \<Rightarrow> url_path u = ''/'' \<and> url_query u = None \<and> url_origin u = t)"

fun strings_ok :: "json \<Rightarrow> bool" where
  "strings_ok (JStr t) = (length t \<le> 4096 \<and> chars_count t \<le> 4096)"
| "strings_ok (JObj kvs) = list_all (\<lambda>kv. strings_ok (snd kv)) kvs"
| "strings_ok (JArr xs) = list_all strings_ok xs"
| "strings_ok v = True"

definition validate_strings :: "json \<Rightarrow> unit res" where
  "validate_strings v = reject (\<not> strings_ok v) ''INVALID_FIELD''"

subsection \<open>The checks in their order\<close>

definition SCHEMA_FUEL :: nat where "SCHEMA_FUEL = 9"

definition starts_with_bom :: "bytes \<Rightarrow> bool" where
  "starts_with_bom b \<longleftrightarrow> take 3 b = [char_of (239 :: nat), char_of (187 :: nat), char_of (191 :: nat)]"

definition check_documents :: "ext \<Rightarrow> config_ext \<Rightarrow> bytes \<Rightarrow> json \<Rightarrow> unit res" where
  "check_documents X Y markdown privacy =
     rbind (reject (length markdown > 1048576 \<or> \<not> (utf8_ok markdown \<and> \<not> starts_with_bom markdown)
        \<or> length (canonicalize_json X privacy) > 1048576) ''INVALID_FIELD'') (\<lambda>_.
     rbind (unwrap (schema_valid SCHEMA_FUEL X Y privacy_schema privacy_schema privacy)) (\<lambda>ok.
     reject (\<not> ok) ''INVALID_FIELD''))"

definition wrong_identity :: "ext \<Rightarrow> config_ext \<Rightarrow> bytes \<Rightarrow> bytes \<Rightarrow> json \<Rightarrow> nat \<Rightarrow> bool" where
  "wrong_identity X Y key markdown privacy t \<longleftrightarrow>
     \<not> valid_origin Y (s_of privacy ''relay_origin'')
   \<or> \<not> valid_ed_key X (x_b64enc X (x_public_key X key))
   \<or> jget privacy ''relay_key_id'' \<noteq> JStr (hash_bytes X (x_public_key X key))
   \<or> jget privacy ''markdown_sha256'' \<noteq> JStr (hash_bytes X markdown)
   \<or> n_of privacy ''published_at_ms'' > n_of privacy ''effective_at_ms''
   \<or> n_of privacy ''effective_at_ms'' > t
   \<or> jget privacy ''durability_tier'' \<noteq> JStr ''single-durable''
   \<or> s_of (jget privacy ''replay_protection'') ''mode'' \<notin> set [''durable'', ''restart_barrier'']
   \<or> jget (jget privacy ''deletion'') ''assurance'' \<noteq> JStr ''backup-expiry''
   \<or> jget (jget privacy ''backups'') ''enabled'' \<noteq> JBool False"

text \<open>One local store, without replicas, backups or keys that could be shredded.\<close>

definition wrong_storage :: "json \<Rightarrow> bool" where
  "wrong_storage privacy \<longleftrightarrow>
     jget (jget (jget privacy ''copies'') ''replica'') ''present'' \<noteq> JBool False
   \<or> jget (jget (jget privacy ''copies'') ''backup'') ''present'' \<noteq> JBool False
   \<or> jget (jget privacy ''deletion'') ''backup_delete_max_ms'' \<noteq> JNull
   \<or> jget (jget privacy ''deletion'') ''key_destroy_max_ms'' \<noteq> JNull"

definition kept_copies :: "string list" where
  "kept_copies = [''active_store'', ''wal'', ''snapshot_store'', ''staging'', ''cache'', ''attestations'', ''deletion_ledger'']"

definition missing_copy :: "json \<Rightarrow> bool" where
  "missing_copy privacy \<longleftrightarrow> list_ex (\<lambda>name. jget (jget (jget privacy ''copies'') name) ''present'' \<noteq> JBool True) kept_copies"

definition wrong_copy :: "json \<Rightarrow> string \<times> json \<Rightarrow> bool" where
  "wrong_copy privacy = (\<lambda>(name, c).
     (name \<in> set [''active_store'', ''wal'', ''snapshot_store'', ''staging''] \<and> jget c ''content'' \<noteq> JStr ''ciphertext'')
   \<or> (jget c ''present'' = JBool True \<and> jget c ''content'' = JStr ''ciphertext''
      \<and> (let d = n_of (jget c ''after_delete'') ''max_ms'' in
           jget (jget c ''after_delete'') ''mode'' \<noteq> JStr ''erase'' \<or> d = 0
         \<or> (name \<in> set [''active_store'', ''wal'', ''snapshot_store''] \<and> d > n_of (jget privacy ''deletion'') ''active_delete_max_ms''))))"

definition counted :: "string list" where
  "counted = [''record'', ''snapshot'', ''envelope'', ''device_meta'', ''receipt'', ''transparency'', ''control'']"

definition wrong_quota :: "json \<Rightarrow> nat option \<Rightarrow> bool" where
  "wrong_quota plan max_bytes \<longleftrightarrow>
     (case as_u64 (jget plan ''maximum_bytes'') of None \<Rightarrow> False | Some m \<Rightarrow> m < n_of plan ''minimum_bytes'')
   \<or> (case max_bytes of
        None \<Rightarrow> False
      | Some m \<Rightarrow> m > MAX_INTEGER \<or> m < n_of plan ''minimum_bytes''
          \<or> (case as_u64 (jget plan ''maximum_bytes'') of None \<Rightarrow> False | Some v \<Rightarrow> m > v))
   \<or> (max_bytes = None \<and> jget plan ''allow_unconfigured'' \<noteq> JBool True)"

definition rate_ceilings :: "(string \<times> nat \<times> nat) list" where
  "rate_ceilings = [(''authorized_signer'', 120, 30), (''record_upload_device'', 30, 10), (''enrollment_source_ip'', 6, 3),
     (''enrollment_offer'', 3, 1)]"

definition wrong_rates :: "json \<Rightarrow> bool" where
  "wrong_rates rates \<longleftrightarrow>
     list_ex (\<lambda>(scope, rate, burst). n_of (jget rates scope) ''requests_per_minute'' > rate \<or> n_of (jget rates scope) ''burst'' > burst)
       rate_ceilings
   \<or> n_of (jget rates ''public_document_ip'') ''requests_per_minute''
       < 2 * n_of (jget rates ''authorized_signer'') ''requests_per_minute''"

text \<open>The rate buckets are metadata that the relay keeps for good, so the disclosure has to say that.\<close>

definition wrong_metadata :: "json \<Rightarrow> bool" where
  "wrong_metadata privacy \<longleftrightarrow>
     (let m = jget privacy ''metadata''; cache = jget (jget privacy ''copies'') ''cache'' in
      (a_of m ''retained_fields'' = []
       \<and> (a_of m ''purposes'' \<noteq> [] \<or> a_of m ''recipients'' \<noteq> [] \<or> jget (jget m ''retention'') ''mode'' \<noteq> JStr ''not_retained''))
    \<or> \<not> list_all (\<lambda>field. JStr field \<in> set (a_of m ''retained_fields'')) [''ip'', ''timing'']
    \<or> jget (jget m ''retention'') ''mode'' \<noteq> JStr ''indefinite''
    \<or> a_of m ''purposes'' = [] \<or> a_of m ''recipients'' = []
    \<or> jget cache ''content'' \<noteq> JStr ''metadata''
    \<or> jget (jget cache ''retention'') ''mode'' \<noteq> JStr ''indefinite''
    \<or> jget (jget cache ''after_delete'') ''mode'' \<noteq> JStr ''retain_metadata''
    \<or> jget (jget cache ''after_delete'') ''max_ms'' \<noteq> JNull)"

definition disclosed_urls :: "string list" where
  "disclosed_urls = [''/operator/contact_url'', ''/change_notice/notice_url'', ''/change_notice/archive_url'']"

definition valid_link :: "config_ext \<Rightarrow> json \<Rightarrow> string \<Rightarrow> bool" where
  "valid_link Y privacy path =
     (case pointer privacy path of None \<Rightarrow> False | Some v \<Rightarrow> (case as_str v of None \<Rightarrow> False | Some u \<Rightarrow> valid_url Y u))"

definition check_copies :: "json \<Rightarrow> unit res" where
  "check_copies privacy =
     (case jget privacy ''copies'' of
        JObj kvs \<Rightarrow> reject (list_ex (wrong_copy privacy) kvs) ''INVALID_FIELD''
      | _ \<Rightarrow> Inl Panic)"

definition check_promises :: "json \<Rightarrow> nat option \<Rightarrow> unit res" where
  "check_promises privacy max_bytes =
     rbind (reject (wrong_storage privacy) ''INVALID_FIELD'') (\<lambda>_.
     rbind (reject (missing_copy privacy) ''INVALID_FIELD'') (\<lambda>_.
     rbind (check_copies privacy) (\<lambda>_.
     rbind (reject (jget (jget (jget (jget privacy ''copies'') ''active_store'') ''retention'') ''mode''
        \<noteq> JStr ''until_chain_deletion'') ''INVALID_FIELD'') (\<lambda>_.
     rbind (reject (\<not> list_all (\<lambda>name. JStr name \<in> set (a_of (jget privacy ''quota'') ''counted_components'')) counted)
        ''INVALID_FIELD'') (\<lambda>_.
     rbind (reject (wrong_quota (jget privacy ''quota'') max_bytes) ''INVALID_FIELD'') (\<lambda>_.
     rbind (reject (wrong_rates (jget privacy ''rate_limits'')) ''INVALID_FIELD'') (\<lambda>_.
     reject (wrong_metadata privacy) ''INVALID_FIELD'')))))))"

text \<open>The own signature; \<^verbatim>\<open>unwrap_or(false)\<close> takes an error for a wrong signature.\<close>

definition check_signature :: "ext \<Rightarrow> bytes \<Rightarrow> json \<Rightarrow> unit res" where
  "check_signature X key privacy =
     rbind (unwrap (signing_bytes X privacy CTX_PRIVACY ''relay_signature'')) (\<lambda>input.
     reject (verify_signature X (x_b64enc X (x_public_key X key)) (s_of privacy ''relay_signature'') input \<noteq> Some True)
       ''OBJECT_SIGNATURE_INVALID'')"

definition config_new ::
    "ext \<Rightarrow> config_ext \<Rightarrow> bytes \<Rightarrow> bytes \<Rightarrow> json \<Rightarrow> nat option \<Rightarrow> nat \<Rightarrow> config res" where
  "config_new X Y key markdown privacy max_bytes t =
     rbind (check_documents X Y markdown privacy) (\<lambda>_.
     rbind (reject (wrong_identity X Y key markdown privacy t) ''INVALID_FIELD'') (\<lambda>_.
     rbind (check_promises privacy max_bytes) (\<lambda>_.
     rbind (reject (\<not> list_all (valid_link Y privacy) disclosed_urls) ''INVALID_FIELD'') (\<lambda>_.
     rbind (validate_strings privacy) (\<lambda>_.
     rbind (check_signature X key privacy) (\<lambda>_.
     Inr \<lparr>cfg_key = key, cfg_origin = s_of privacy ''relay_origin'', cfg_key_id = hash_bytes X (x_public_key X key),
       cfg_privacy = privacy, cfg_markdown = markdown, cfg_max_bytes = max_bytes, cfg_shutdown_at_ms = None,
       cfg_migration_origin = None, cfg_stop_writes = False\<rparr>))))))"

subsection \<open>The environment\<close>

text \<open>
  \<^verbatim>\<open>from_env\<close>: the variables of the process, the files (their contents or the error's text) and the
  clock are arguments. An error is a text here, kept as the code of an \<open>Err\<close>.
\<close>

definition var_or :: "(string \<Rightarrow> string option) \<Rightarrow> string \<Rightarrow> string \<Rightarrow> string res" where
  "var_or env name message = ok_or message (env name)"

definition read_file :: "(string \<Rightarrow> string + bytes) \<Rightarrow> string \<Rightarrow> bytes res" where
  "read_file files path = (case files path of Inl message \<Rightarrow> Inl (err message) | Inr b \<Rightarrow> Inr b)"

definition decode_seed :: "ext \<Rightarrow> string \<Rightarrow> bytes res" where
  "decode_seed X t =
     (case decode X t (Some 32) of
        Some b \<Rightarrow> Inr b
      | None \<Rightarrow> Inl (err (if list_all b64_char t \<and> x_b64dec X t \<noteq> None then ''Invalid binary length or trailing bits''
          else ''Noncanonical Base64URL'')))"

definition number_var :: "(string \<Rightarrow> string option) \<Rightarrow> string \<Rightarrow> string \<Rightarrow> nat option res" where
  "number_var env name message =
     (case env name of
        None \<Rightarrow> Inr None
      | Some t \<Rightarrow> (case parse_u64 t of None \<Rightarrow> Inl (err message) | Some n \<Rightarrow> Inr (Some n)))"

definition stop_writes_var :: "(string \<Rightarrow> string option) \<Rightarrow> bool res" where
  "stop_writes_var env =
     (case env ''PALLASYNC_STOP_WRITES'' of
        None \<Rightarrow> Inr False
      | Some t \<Rightarrow> if t = ''true'' then Inr True else if t = ''false'' then Inr False
                else Inl (err ''Invalid write-stop setting''))"

definition rejected_disclosure :: "config res \<Rightarrow> config res" where
  "rejected_disclosure r =
     (case r of Inl (Err code _) \<Rightarrow> Inl (err (''Operator disclosure rejected: '' @ code)) | _ \<Rightarrow> r)"

definition SEED_VAR :: string where "SEED_VAR = ''PALLASYNC_RELAY_SIGNING_SEED''"
definition SEED_MISSING :: string where
  "SEED_MISSING = ''PALLASYNC_RELAY_SIGNING_SEED is required; inject an independently protected operator key''"

text \<open>The notice of a relay that is going to close, set after the disclosure was accepted.\<close>

definition with_notice :: "config_ext \<Rightarrow> (string \<Rightarrow> string option) \<Rightarrow> config \<Rightarrow> config res" where
  "with_notice Y env cfg =
     rbind (number_var env ''PALLASYNC_SHUTDOWN_AT_MS'' ''Invalid shutdown time'') (\<lambda>shutdown.
     let origin = (case env ''PALLASYNC_MIGRATION_ORIGIN'' of None \<Rightarrow> None | Some t \<Rightarrow> if t = [] then None else Some t) in
     rbind (stop_writes_var env) (\<lambda>stop.
     rbind (reject ((case shutdown of None \<Rightarrow> False | Some s \<Rightarrow> s > MAX_INTEGER)
        \<or> (case origin of None \<Rightarrow> False | Some o' \<Rightarrow> \<not> valid_origin Y o')) ''Invalid relay notice'') (\<lambda>_.
     Inr (cfg\<lparr>cfg_shutdown_at_ms := shutdown, cfg_migration_origin := origin, cfg_stop_writes := stop\<rparr>))))"

definition from_env ::
    "ext \<Rightarrow> config_ext \<Rightarrow> (string \<Rightarrow> string option) \<Rightarrow> (string \<Rightarrow> string + bytes) \<Rightarrow> nat \<Rightarrow> config res" where
  "from_env X Y env files t =
     rbind (var_or env SEED_VAR SEED_MISSING) (\<lambda>seed.
     rbind (decode_seed X seed) (\<lambda>key.
     rbind (var_or env ''PALLASYNC_PRIVACY_MARKDOWN'' ''PALLASYNC_PRIVACY_MARKDOWN is required'') (\<lambda>md_path.
     rbind (read_file files md_path) (\<lambda>md.
     rbind (var_or env ''PALLASYNC_PRIVACY_JSON'' ''PALLASYNC_PRIVACY_JSON is required'') (\<lambda>path.
     rbind (read_file files path) (\<lambda>disclosure.
     rbind (case parse X disclosure of Inl e \<Rightarrow> Inl (err e) | Inr v \<Rightarrow> Inr v) (\<lambda>privacy.
     rbind (number_var env ''PALLASYNC_QUOTA_BYTES'' ''Invalid quota'') (\<lambda>max_bytes.
     rbind (rejected_disclosure (config_new X Y key md privacy max_bytes t)) (with_notice Y env)))))))))"

subsection \<open>A disclosure\<close>

definition demo_copy :: "string \<Rightarrow> string \<Rightarrow> string \<Rightarrow> json \<Rightarrow> json" where
  "demo_copy content mode after limit = jobj [(''present'', JBool True), (''content'', JStr content),
     (''retention'', jobj [(''mode'', JStr mode)]), (''locations'', JArr [JStr ''here'']), (''recipients'', JArr [JStr ''none'']),
     (''purpose'', JStr ''sync''), (''after_delete'', jobj [(''mode'', JStr after), (''max_ms'', limit)])]"

definition demo_ciphertext :: json where
  "demo_ciphertext = demo_copy ''ciphertext'' ''until_chain_deletion'' ''erase'' (JNat 1000)"

definition demo_cache :: json where
  "demo_cache = demo_copy ''metadata'' ''indefinite'' ''retain_metadata'' JNull"

definition demo_evidence :: json where
  "demo_evidence = demo_copy ''authority_evidence'' ''indefinite'' ''retain_authority_evidence'' JNull"

definition demo_absent :: json where "demo_absent = jobj [(''present'', JBool False)]"

definition demo_rate_of :: "nat \<Rightarrow> nat \<Rightarrow> json" where
  "demo_rate_of rpm burst = jobj [(''requests_per_minute'', JNat rpm), (''burst'', JNat burst)]"

definition demo_disclosure :: "(string \<times> json) list" where
  "demo_disclosure = [
     (''type'', JStr ''PALLASYNC-RELAY-PRIVACY-v3''), (''version'', JStr ''3.0''), (''disclosure_id'', JStr ''0''),
     (''relay_origin'', JStr ''https://r''), (''relay_key_id'', JStr ''K''), (''revision'', JNat 1),
     (''published_at_ms'', JNat 0), (''effective_at_ms'', JNat 0), (''markdown_sha256'', JStr ''K''),
     (''operator'', jobj [(''name'', JStr ''me''), (''contact_url'', JStr ''https://r/c'')]),
     (''durability_tier'', JStr ''single-durable''),
     (''limits'', jobj [(''max_request_bytes'', JNat 65536), (''max_devices'', JNat 16), (''max_records_per_upload'', JNat 64),
        (''page_limit'', JNat 100)]),
     (''quota'', jobj [(''minimum_bytes'', JNat 0), (''maximum_bytes'', JNull), (''allow_unconfigured'', JBool True),
        (''counted_components'', JArr (map JStr counted)), (''allocation_rule'', JStr ''bytes'')]),
     (''rate_limits'', jobj [(''authorized_signer'', demo_rate_of 120 30), (''record_upload_device'', demo_rate_of 30 10),
        (''enrollment_source_ip'', demo_rate_of 6 3), (''enrollment_offer'', demo_rate_of 3 1),
        (''public_document_ip'', demo_rate_of 240 60)]),
     (''backups'', jobj [(''enabled'', JBool False)]),
     (''copies'', jobj [(''active_store'', demo_ciphertext), (''replica'', demo_absent), (''wal'', demo_ciphertext),
        (''snapshot_store'', demo_ciphertext), (''backup'', demo_absent), (''staging'', demo_ciphertext),
        (''temporary_export'', demo_absent), (''support'', demo_absent), (''cache'', demo_cache),
        (''operational_log'', demo_absent), (''attestations'', demo_evidence), (''deletion_ledger'', demo_evidence)]),
     (''deletion'', jobj [(''assurance'', JStr ''backup-expiry''), (''active_delete_max_ms'', JNat 1000),
        (''backup_delete_max_ms'', JNull), (''key_destroy_max_ms'', JNull)]),
     (''relay_key'', jobj [(''protection'', JStr ''os_keystore''), (''replacement_mode'', JStr ''explicit_trust_reestablishment''),
        (''automatic_rotation'', JBool False), (''new_transparency_id_required'', JBool True),
        (''old_verification_keys_retained'', JBool True)]),
     (''replay_protection'', jobj [(''mode'', JStr ''durable'')]),
     (''metadata'', jobj [(''retained_fields'', JArr [JStr ''ip'', JStr ''timing'']), (''purposes'', JArr [JStr ''rates'']),
        (''retention'', jobj [(''mode'', JStr ''indefinite'')]), (''recipients'', JArr [JStr ''operator''])]),
     (''change_notice'', jobj [(''minimum_notice_ms'', JNat 0), (''notice_url'', JStr ''https://r/n''),
        (''archive_url'', JStr ''https://r/a'')]),
     (''relay_signature'', JStr ''S'')]"

definition demo_url :: "string \<Rightarrow> url_parts option" where
  "demo_url t = Some \<lparr>url_scheme = ''https'', url_host = Some ''r'', url_username = [], url_password = None, url_path = ''/'',
     url_query = None, url_fragment = None, url_origin = t\<rparr>"

definition demo_matches :: "string \<Rightarrow> string \<Rightarrow> bool" where "demo_matches p t = True"

definition demo_config_ext :: config_ext where
  "demo_config_ext = \<lparr>y_compiles = demo_true, y_matches = demo_matches, y_url = demo_url\<rparr>"

lemma accept_ciphertext: "accepts (Suc (Suc (Suc (Suc (Suc (Suc fuel)))))) X Y privacy_schema copy_schema demo_ciphertext"
  unfolding copy_schema_def closed_def demo_ciphertext_def demo_copy_def
proof (rule accept_choice(2), goal_cases)
  case 3
  show ?case by (rule reject_closed(2) [of _ "''present''"]) (auto intro!: reject_const)
next
  case 4
  show ?case by (auto intro!: accepting simp: MAX_INTEGER_def chars_count_def cont_byte_def)
qed (auto intro!: settling simp del: settled.simps)

lemma accept_cache: "accepts (Suc (Suc (Suc (Suc (Suc (Suc fuel)))))) X Y privacy_schema copy_schema demo_cache"
  unfolding copy_schema_def closed_def demo_cache_def demo_copy_def
proof (rule accept_choice(2), goal_cases)
  case 3
  show ?case by (rule reject_closed(2) [of _ "''present''"]) (auto intro!: reject_const)
next
  case 4
  show ?case by (auto intro!: accepting simp: MAX_INTEGER_def chars_count_def cont_byte_def)
qed (auto intro!: settling simp del: settled.simps)

lemma accept_evidence: "accepts (Suc (Suc (Suc (Suc (Suc (Suc fuel)))))) X Y privacy_schema copy_schema demo_evidence"
  unfolding copy_schema_def closed_def demo_evidence_def demo_copy_def
proof (rule accept_choice(2), goal_cases)
  case 3
  show ?case by (rule reject_closed(2) [of _ "''present''"]) (auto intro!: reject_const)
next
  case 4
  show ?case by (auto intro!: accepting simp: MAX_INTEGER_def chars_count_def cont_byte_def)
qed (auto intro!: settling simp del: settled.simps)

lemma accept_absent: "accepts (Suc (Suc (Suc (Suc (Suc (Suc fuel)))))) X Y privacy_schema copy_schema demo_absent"
  unfolding copy_schema_def closed_def demo_absent_def
proof (rule accept_choice(1), goal_cases)
  case 3
  show ?case by (auto intro!: accepting)
next
  case 4
  show ?case by (rule reject_closed(1) [of "''content''"]) auto
qed (auto intro!: settling simp del: settled.simps)


text \<open>The parser plays no part in keys and signatures.\<close>

lemma serde_fields:
  "x_b64dec (demo_fast\<lparr>x_serde := f\<rparr>) = x_b64dec demo_fast" "x_b64enc (demo_fast\<lparr>x_serde := f\<rparr>) = x_b64enc demo_fast"
  "x_decompress (demo_fast\<lparr>x_serde := f\<rparr>) = x_decompress demo_fast" "x_compress (demo_fast\<lparr>x_serde := f\<rparr>) = x_compress demo_fast"
  "x_identity (demo_fast\<lparr>x_serde := f\<rparr>) = x_identity demo_fast"
  "x_torsion_free (demo_fast\<lparr>x_serde := f\<rparr>) = x_torsion_free demo_fast"
  "x_scalar_canonical (demo_fast\<lparr>x_serde := f\<rparr>) = x_scalar_canonical demo_fast"
  "x_verifying_key (demo_fast\<lparr>x_serde := f\<rparr>) = x_verifying_key demo_fast"
  "x_verify_strict (demo_fast\<lparr>x_serde := f\<rparr>) = x_verify_strict demo_fast"
  by simp_all

lemma decode_same: "decode (demo_fast\<lparr>x_serde := f\<rparr>) = decode demo_fast"
  by (intro HOL.ext) (unfold decode_def serde_fields, rule refl)

lemma keys_same: "valid_ed_key (demo_fast\<lparr>x_serde := f\<rparr>) = valid_ed_key demo_fast"
    "verify_signature (demo_fast\<lparr>x_serde := f\<rparr>) = verify_signature demo_fast"
  by (intro HOL.ext; unfold valid_ed_key_def verify_signature_def prime_point_def decode_same serde_fields, rule refl)+

lemma accept_demo: "accepts 9 (demo_fast\<lparr>x_serde := f\<rparr>) demo_config_ext privacy_schema privacy_schema (jobj demo_disclosure)"
proof -
  have demo: "y_compiles demo_config_ext p" "y_matches demo_config_ext p t" for p t
    by (simp_all add: demo_config_ext_def demo_true_def demo_matches_def)
  have pats: "URL_PATTERN \<noteq> B32_PATTERN" "URL_PATTERN \<noteq> B64_PATTERN" "ORIGIN_PATTERN \<noteq> B32_PATTERN"
      "ORIGIN_PATTERN \<noteq> B64_PATTERN" "UUID_PATTERN \<noteq> B32_PATTERN" "UUID_PATTERN \<noteq> B64_PATTERN" "B32_PATTERN \<noteq> B64_PATTERN"
    by (simp_all add: URL_PATTERN_def ORIGIN_PATTERN_def UUID_PATTERN_def B32_PATTERN_def B64_PATTERN_def)
  have "decode demo_fast ''K'' (Some 32) = Some (replicate 32 CHR ''#'')"
      "decode demo_fast ''S'' (Some 64) = Some (replicate 64 CHR ''$'')"
    by code_simp+
  then have dec: "decode (demo_fast\<lparr>x_serde := f\<rparr>) ''K'' (Some 32) = Some (replicate 32 CHR ''#'')"
      "decode (demo_fast\<lparr>x_serde := f\<rparr>) ''S'' (Some 64) = Some (replicate 64 CHR ''$'')"
    by (simp_all add: decode_same)
  have "accepts (Suc (Suc (Suc (Suc (Suc (Suc (Suc (Suc (Suc 0))))))))) (demo_fast\<lparr>x_serde := f\<rparr>) demo_config_ext privacy_schema privacy_schema (jobj demo_disclosure)"
  proof (rule accept_privacy)
    show "map fst demo_disclosure = map fst privacy_members"
      by (simp add: demo_disclosure_def privacy_members_def)
    show "list_all2 (\<lambda>(k, p) (k', x). accepts (Suc (Suc (Suc (Suc (Suc (Suc (Suc (Suc 0)))))))) (demo_fast\<lparr>x_serde := f\<rparr>) demo_config_ext privacy_schema p x)
        privacy_members demo_disclosure"
      unfolding demo_disclosure_def privacy_members_def limits_schema_def quota_schema_def rate_limits_schema_def copies_schema_def
        deletion_schema_def relay_key_schema_def metadata_schema_def closed_def demo_rate_of_def counted_def
      by (auto intro!: accepting accept_ciphertext accept_cache accept_evidence accept_absent accept_replay accept_no_backup accept_indefinite
          simp: demo pats pats [symmetric] dec MAX_INTEGER_def chars_count_def cont_byte_def)
  qed
  then show ?thesis by (simp add: eval_nat_numeral)
qed


definition demo_key :: bytes where "demo_key = replicate 32 CHR ''#''"

definition demo_accepted_config :: config where
  "demo_accepted_config = \<lparr>cfg_key = demo_key, cfg_origin = ''https://r'', cfg_key_id = ''K'', cfg_privacy = jobj demo_disclosure,
     cfg_markdown = [], cfg_max_bytes = None, cfg_shutdown_at_ms = None, cfg_migration_origin = None, cfg_stop_writes = False\<rparr>"

text \<open>What the parser makes of a text, and what the notice says, plays no part in it.\<close>

lemma demo_policy_written:
  assumes "length md \<le> 1048576" "utf8_ok md" "\<not> starts_with_bom md"
  shows "config_new (demo_fast\<lparr>x_serde := f\<rparr>) demo_config_ext demo_key md (jobj demo_disclosure) None t
    = Inr (demo_accepted_config\<lparr>cfg_markdown := md\<rparr>)"
proof -
  let ?X = "demo_fast\<lparr>x_serde := f\<rparr>"
  have docs: "check_documents ?X demo_config_ext md (jobj demo_disclosure) = Inr ()"
    using accept_demo assms by (simp add: check_documents_def SCHEMA_FUEL_def accepts_def canonicalize_json_def
        demo_fast_def demo_nil_def)
  have digest_text: "demo_enc (replicate 32 CHR ''#'') = ''K''" by code_simp
  have digest: "hash_bytes ?X b = ''K''" "hash_bytes demo_fast b = ''K''" for b
    using digest_text by (simp_all add: hash_bytes_def demo_fast_def demo_digest_def)
  have "wrong_identity demo_fast demo_config_ext demo_key [] (jobj demo_disclosure) 0 = False" by code_simp
  moreover have "n_of (jobj demo_disclosure) ''effective_at_ms'' = 0" by code_simp
  ultimately have "\<not> wrong_identity ?X demo_config_ext demo_key md (jobj demo_disclosure) t"
    by (simp add: wrong_identity_def digest keys_same)
  moreover have "check_promises (jobj demo_disclosure) None = Inr ()" by code_simp
  moreover have "list_all (valid_link demo_config_ext (jobj demo_disclosure)) disclosed_urls = True" by code_simp
  moreover have "validate_strings (jobj demo_disclosure) = Inr ()" by code_simp
  moreover have "check_signature demo_fast demo_key (jobj demo_disclosure) = Inr ()" by code_simp
  then have "check_signature ?X demo_key (jobj demo_disclosure) = Inr ()"
    by (simp add: check_signature_def signing_bytes_def canonicalize_json_def keys_same)
  moreover have "s_of (jobj demo_disclosure) ''relay_origin'' = ''https://r''" by code_simp
  ultimately show ?thesis by (simp add: config_new_def docs digest demo_accepted_config_def)
qed

lemma demo_policy_new: "config_new demo_fast demo_config_ext demo_key [] (jobj demo_disclosure) None 0 = Inr demo_accepted_config"
  using demo_policy_written [of "[]" "x_serde demo_fast" 0] by (simp add: starts_with_bom_def demo_accepted_config_def)

subsection \<open>What an accepted configuration promises\<close>

text \<open>
  C38: with patterns that compile, the evaluator answers every document within a recursion depth of
  nine, and more fuel gives the same answer: the recursion through references of the vendored schema ends.
\<close>

theorem privacy_schema_answers:
  assumes "list_all (y_compiles Y) disclosure_patterns"
  shows "\<exists>b. \<forall>extra. schema_valid (SCHEMA_FUEL + extra) X Y privacy_schema privacy_schema v = Some b"
proof -
  obtain b where "schema_valid (9 + 0) X Y privacy_schema privacy_schema v = Some b"
    using settled_answers [OF settled_privacy [OF assms, of 0]] by blast
  then show ?thesis using schema_valid_more [of "9 + 0" X Y privacy_schema privacy_schema v b] by (auto simp: SCHEMA_FUEL_def)
qed

lemma demo_compiles: "list_all (y_compiles demo_config_ext) disclosure_patterns"
  by (simp add: demo_config_ext_def demo_true_def list_all_iff)

theorem privacy_schema_answers_witness:
  "\<exists>b. \<forall>extra. schema_valid (SCHEMA_FUEL + extra) demo_fast demo_config_ext privacy_schema privacy_schema JNull = Some b"
  by (rule privacy_schema_answers [OF demo_compiles])

text \<open>
  C39: a configuration that is accepted has limits and rates within the schema's bounds and the
  ceilings of the protocol, a valid origin, the key id of its own key, a disclosure signed by that key, and
  a quota within the disclosed interval. The handlers' reads of these numbers never fall back on zero.
\<close>

theorem config_new_sound:
  assumes "config_new X Y key markdown privacy max_bytes t = Inr cfg"
  shows "limits_sound (limits cfg)
    \<and> list_all (\<lambda>scope. rate_sound (jget (jget (cfg_privacy cfg) ''rate_limits'') scope)) rate_scopes
    \<and> list_all (\<lambda>(scope, rate, burst). n_of (jget (jget (cfg_privacy cfg) ''rate_limits'') scope) ''requests_per_minute'' \<le> rate
         \<and> n_of (jget (jget (cfg_privacy cfg) ''rate_limits'') scope) ''burst'' \<le> burst) rate_ceilings
    \<and> valid_origin Y (cfg_origin cfg) \<and> cfg_key_id cfg = hash_bytes X (x_public_key X (cfg_key cfg))
    \<and> jget (cfg_privacy cfg) ''relay_key_id'' = JStr (cfg_key_id cfg)
    \<and> verify_signature X (x_b64enc X (x_public_key X (cfg_key cfg))) (s_of (cfg_privacy cfg) ''relay_signature'')
         (CTX_PRIVACY @ canonicalize_json X (jremove ''relay_signature'' (cfg_privacy cfg))) = Some True
    \<and> (case cfg_max_bytes cfg of None \<Rightarrow> jget (jget (cfg_privacy cfg) ''quota'') ''allow_unconfigured'' = JBool True
        | Some m \<Rightarrow> n_of (jget (cfg_privacy cfg) ''quota'') ''minimum_bytes'' \<le> m \<and> m \<le> MAX_INTEGER)"
proof -
  have acc: "schema_valid SCHEMA_FUEL X Y privacy_schema privacy_schema privacy = Some True"
    and ident: "\<not> wrong_identity X Y key markdown privacy t" and prom: "check_promises privacy max_bytes = Inr ()"
    and sig: "check_signature X key privacy = Inr ()"
    and cfg: "cfg = \<lparr>cfg_key = key, cfg_origin = s_of privacy ''relay_origin'', cfg_key_id = hash_bytes X (x_public_key X key),
       cfg_privacy = privacy, cfg_markdown = markdown, cfg_max_bytes = max_bytes, cfg_shutdown_at_ms = None,
       cfg_migration_origin = None, cfg_stop_writes = False\<rparr>"
    using assms by (auto simp: config_new_def check_documents_def)
  note acc = acc [unfolded SCHEMA_FUEL_def eval_nat_numeral BitM.simps]
  have "limits_sound (jget privacy ''limits'')" using accepted_limits acc by (simp add: eval_nat_numeral)
  moreover have "list_all (\<lambda>scope. rate_sound (jget (jget privacy ''rate_limits'') scope)) rate_scopes"
    using accepted_rates acc by (simp add: list_all_iff eval_nat_numeral)
  moreover have "\<not> wrong_rates (jget privacy ''rate_limits'')" and "\<not> wrong_quota (jget privacy ''quota'') max_bytes"
    using prom by (auto simp: check_promises_def)
  moreover have "verify_signature X (x_b64enc X (x_public_key X key)) (s_of privacy ''relay_signature'')
         (CTX_PRIVACY @ canonicalize_json X (jremove ''relay_signature'' privacy)) = Some True"
    using sig by (auto simp: check_signature_def signing_bytes_def split: if_splits)
  ultimately show ?thesis
    using ident by (auto simp: cfg limits_def wrong_rates_def list_all_iff list_ex_iff wrong_quota_def wrong_identity_def not_less
        split: option.splits)
qed

theorem config_new_sound_witness:
  "config_new demo_fast demo_config_ext demo_key [] (jobj demo_disclosure) None 0 = Inr demo_accepted_config
   \<and> limits_sound (limits demo_accepted_config)"
  using config_new_sound [OF demo_policy_new] demo_policy_new by blast

text \<open>
  C40: with patterns that compile, the construction never panics; it refuses with INVALID_FIELD or
  OBJECT_SIGNATURE_INVALID, without context.
\<close>

theorem config_new_refusals:
  assumes "list_all (y_compiles Y) disclosure_patterns"
  shows "case config_new X Y key markdown privacy max_bytes t of
      Inr cfg \<Rightarrow> cfg_privacy cfg = privacy
    | Inl e \<Rightarrow> e = err ''INVALID_FIELD'' \<or> e = err ''OBJECT_SIGNATURE_INVALID''"
proof (cases "config_new X Y key markdown privacy max_bytes t")
  case (Inr cfg)
  then have "cfg_privacy cfg = privacy" by (auto simp: config_new_def)
  with Inr show ?thesis by simp
next
  case (Inl e)
  obtain b where ans: "schema_valid SCHEMA_FUEL X Y privacy_schema privacy_schema privacy = Some b"
    using settled_answers [OF settled_privacy [OF assms, of 0]] by (auto simp: SCHEMA_FUEL_def)
  have obj: "is_object privacy" "is_object (jget privacy ''copies'')" if b
    using ans that accepted_privacy(1) accepted_copies by (auto simp: SCHEMA_FUEL_def eval_nat_numeral)
  have "e = err ''INVALID_FIELD'' \<or> e = err ''OBJECT_SIGNATURE_INVALID''"
  proof (cases b)
    case False
    with Inl ans show ?thesis by (auto simp: config_new_def check_documents_def rbind_Inl_iff reject_Inl_iff)
  next
    case True
    with Inl ans obj [OF True] show ?thesis
      by (auto simp: config_new_def check_documents_def check_promises_def check_copies_def check_signature_def signing_bytes_def
          validate_strings_def rbind_Inl_iff reject_Inl_iff is_object_def split: json.splits)
  qed
  with Inl show ?thesis by simp
qed

theorem config_new_refusals_witness:
  "case config_new demo_fast demo_config_ext [] [] (jobj demo_disclosure) None 0 of
      Inr cfg \<Rightarrow> cfg_privacy cfg = jobj demo_disclosure
    | Inl e \<Rightarrow> e = err ''INVALID_FIELD'' \<or> e = err ''OBJECT_SIGNATURE_INVALID''"
  by (rule config_new_refusals [OF demo_compiles])

end
