(* ===== verification/Relay_Legacy.thy ===== *)
theory Relay_Legacy
  imports Relay_Sync
begin

text \<open>
  \<^verbatim>\<open>src/api/legacy.rs\<close>: the frozen endpoints of protocol 2.1 over the tables of the former relay, which
  live in the same database file as the tables of version 3. A chain of version 2 can be read and deleted,
  and an operator can restore the parameters that the former relay did not keep. The tables are those of
  \<^verbatim>\<open>tests/fixtures/frozen-v2-schema.sql\<close>; every column is \<^verbatim>\<open>NOT NULL\<close> but the time of deletion, so the
  typed reads of a column do not fail.
\<close>

subsection \<open>Tables\<close>

record legacy_chain =
  lc_id :: string
  lc_salt :: string
  lc_admin_key :: string
  lc_created :: int
  lc_creator :: string
  lc_creator_key :: string
  lc_deleted :: "nat option"

record legacy_device =
  ld_chain :: string
  ld_id :: string
  ld_key :: string
  ld_name :: string
  ld_name_nonce :: string
  ld_status :: string
  ld_created :: int
  ld_updated :: int
  ld_signature :: string

record legacy_record_row =
  lr_chain :: string
  lr_id :: string
  lr_version :: string
  lr_epoch :: int
  lr_collection :: string
  lr_action :: string
  lr_payload :: string
  lr_nonce :: string
  lr_device :: string
  lr_lamport :: int
  lr_created :: int
  lr_signature :: string
  lr_seq :: nat

record legacy_nonce =
  ln_chain :: string
  ln_device :: string
  ln_nonce :: string
  ln_expires :: nat

record legacy_cursor =
  lk_chain :: string
  lk_id :: string

record evidence_row =
  le_chain :: string
  le_text :: bytes

text \<open>\<open>lg_present\<close>: the file holds the tables of the former relay. \<open>lg_v3\<close>: the tables of version 3.\<close>

record legacy =
  lg_present :: bool
  lg_chains :: "legacy_chain list"
  lg_devices :: "legacy_device list"
  lg_records :: "legacy_record_row list"
  lg_nonces :: "legacy_nonce list"
  lg_cursors :: "legacy_cursor list"
  lg_evidence :: "evidence_row list"
  lg_v3 :: db

type_synonym 'a ltx = "(legacy, 'a) M"

definition in_v3 :: "'a tx \<Rightarrow> 'a ltx" where
  "in_v3 m = (\<lambda>s. case m (lg_v3 s) of (r, st) \<Rightarrow> (r, s\<lparr>lg_v3 := st\<rparr>))"

definition undo :: "legacy \<Rightarrow> legacy \<Rightarrow> legacy" where
  "undo s s' = s\<lparr>lg_v3 := rollback_to (lg_v3 s) (lg_v3 s')\<rparr>"

definition ln_key :: "legacy_nonce \<Rightarrow> string \<times> string \<times> string" where
  "ln_key r = (ln_chain r, ln_device r, ln_nonce r)"

subsection \<open>Status codes for errors\<close>

text \<open>
  The errors of these endpoints are bare status codes: an \<open>Err\<close> whose code is the number's text.
\<close>

definition http :: "nat \<Rightarrow> failure" where
  "http n = err (show_nat n)"

definition ok_http :: "nat \<Rightarrow> 'a option \<Rightarrow> 'a res" where
  "ok_http n opt = (case opt of None \<Rightarrow> Inl (http n) | Some x \<Rightarrow> Inr x)"

definition refuse :: "bool \<Rightarrow> nat \<Rightarrow> unit res" where
  "refuse b n = (if b then Inl (http n) else Inr ())"

definition refuseM :: "bool \<Rightarrow> nat \<Rightarrow> ('s, unit) M" where
  "refuseM b n = lift (refuse b n)"

text \<open>\<^verbatim>\<open>map_err(|e| e.status())\<close> of an \<^verbatim>\<open>ApiError\<close>.\<close>

definition to_status :: "'a res \<Rightarrow> 'a res" where
  "to_status r =
     (case r of
        Inl (Err code ctx) \<Rightarrow> (case status code of None \<Rightarrow> Inl Panic | Some n \<Rightarrow> Inl (http n))
      | _ \<Rightarrow> r)"

definition to_statusM :: "('s, 'a) M \<Rightarrow> ('s, 'a) M" where
  "to_statusM m = (\<lambda>s. case m s of (r, t) \<Rightarrow> (to_status r, t))"

definition parsed :: "ext \<Rightarrow> nat \<Rightarrow> bytes \<Rightarrow> json res" where
  "parsed X n b = (case parse X b of Inl e \<Rightarrow> Inl (http n) | Inr v \<Rightarrow> Inr v)"

subsection \<open>Transactions\<close>

text \<open>One that is committed whatever its body returned, and one that is dropped on an error.\<close>

definition keep_legacy :: "web \<Rightarrow> nat \<Rightarrow> 'a ltx \<Rightarrow> 'a ltx" where
  "keep_legacy W i m =
     (\<lambda>s. if w_begin_fails W i then (Inl (http 503), s)
          else case m s of
            (Inl Panic, s') \<Rightarrow> (Inl Panic, undo s s')
          | (r, s') \<Rightarrow> if w_commit_fails W i then (Inl (http 503), undo s s') else (r, s'))"

definition legacy_tx :: "web \<Rightarrow> nat \<Rightarrow> 'a ltx \<Rightarrow> 'a ltx" where
  "legacy_tx W i m =
     (\<lambda>s. if w_begin_fails W i then (Inl (http 503), s)
          else case m s of
            (Inl e, s') \<Rightarrow> (Inl e, undo s s')
          | (Inr x, s') \<Rightarrow> if w_commit_fails W i then (Inl (http 503), undo s s') else (Inr x, s'))"

subsection \<open>Responses\<close>

record legacy_response =
  lp_status :: nat
  lp_body :: bytes
  lp_retry :: "nat option"
  lp_next :: "string option"
  lp_more :: "string option"

definition legacy_response_of :: "ext \<Rightarrow> nat \<Rightarrow> json option \<Rightarrow> legacy_response" where
  "legacy_response_of X n v = \<lparr>lp_status = n, lp_body = (case v of None \<Rightarrow> [] | Some v \<Rightarrow> canonicalize_json X v),
     lp_retry = (if n = 429 then Some 3600 else None), lp_next = None, lp_more = None\<rparr>"

definition ends_with :: "string \<Rightarrow> string \<Rightarrow> bool" where
  "ends_with suffix t \<longleftrightarrow> strip_suffix suffix t \<noteq> None"

definition starts_with :: "string \<Rightarrow> string \<Rightarrow> bool" where
  "starts_with prefix t \<longleftrightarrow> strip_prefix prefix t \<noteq> None"

definition is_legacy :: "string \<Rightarrow> bool" where
  "is_legacy path \<longleftrightarrow> path = ''/health'' \<or> starts_with ''/pallasync/v2/'' path"

subsection \<open>Authentication\<close>

definition TOKEN_CONTEXT :: bytes where "TOKEN_CONTEXT = ''PALLASYNC-CAPABILITY-v2.1'' @ [CHR 0x00]"

definition legacy_token_fields :: "string list" where
  "legacy_token_fields = [''v'', ''chain_id'', ''device_id'', ''method'', ''path'', ''query'', ''body_sha256'', ''issued_at_ms'',
     ''expires_at_ms'', ''nonce'', ''signature'']"

text \<open>\<^verbatim>\<open>as_object()\<close>, its length and its keys: exactly the named members.\<close>

definition has_members :: "string list \<Rightarrow> json \<Rightarrow> bool" where
  "has_members names v =
     (case v of JObj kvs \<Rightarrow> length kvs = length names \<and> list_all (\<lambda>k. obj_get kvs k \<noteq> None) names | _ \<Rightarrow> False)"

definition legacy_token :: "ext \<Rightarrow> string \<Rightarrow> http_request \<Rightarrow> json res" where
  "legacy_token X chain rq =
     rbind (ok_http 401 (case hq_authorization rq of Some (Some h) \<Rightarrow> strip_prefix ''PallaSync '' h | _ \<Rightarrow> None)) (\<lambda>raw.
     rbind (ok_http 401 (decode X raw None)) (\<lambda>bytes.
     rbind (parsed X 401 bytes) (\<lambda>token.
     rbind (refuse (\<not> has_members legacy_token_fields token
        \<or> jget token ''v'' \<noteq> JInt 1 \<or> jget token ''chain_id'' \<noteq> JStr chain \<or> jget token ''method'' \<noteq> JStr (hq_method rq)
        \<or> jget token ''path'' \<noteq> JStr (hq_path rq)
        \<or> jget token ''query'' \<noteq> JStr (case hq_query rq of None \<Rightarrow> [] | Some q \<Rightarrow> q)
        \<or> jget token ''body_sha256'' \<noteq> JStr (hash_bytes X [])) 401) (\<lambda>_.
     Inr token))))"

text \<open>The second reading of the clock happens only when the first comparison passes.\<close>

definition legacy_times :: "ext \<Rightarrow> nat \<Rightarrow> nat \<Rightarrow> unit ltx" where
  "legacy_times X issued expires =
     bindM (in_v3 (now X)) (\<lambda>t.
     bindM (refuseM (issued > t) 401) (\<lambda>_.
     bindM (in_v3 (now X)) (\<lambda>t.
     refuseM (expires \<le> t \<or> expires \<le> issued \<or> expires > MAX_INTEGER) 401)))"

definition legacy_nonce_use :: "ext \<Rightarrow> string \<Rightarrow> string \<Rightarrow> string \<Rightarrow> nat \<Rightarrow> unit ltx" where
  "legacy_nonce_use X chain oid nonce expires =
     bindM (in_v3 (now X)) (\<lambda>t.
     bindM (delete_rows lg_nonces_update (\<lambda>r. ln_expires r \<le> t)) (\<lambda>_.
     bindM (insert_ignore lg_nonces lg_nonces_update (same ln_key)
        \<lparr>ln_chain = chain, ln_device = oid, ln_nonce = nonce, ln_expires = expires\<rparr>) (\<lambda>inserted.
     refuseM (\<not> inserted) 401)))"

definition legacy_authenticate :: "ext \<Rightarrow> string \<Rightarrow> http_request \<Rightarrow> string ltx" where
  "legacy_authenticate X chain rq =
     bindM (lift (legacy_token X chain rq)) (\<lambda>token.
     bindM (lift (ok_http 401 (as_u64 (jget token ''issued_at_ms'')))) (\<lambda>issued.
     bindM (lift (ok_http 401 (as_u64 (jget token ''expires_at_ms'')))) (\<lambda>expires.
     bindM (legacy_times X issued expires) (\<lambda>_.
     bindM (lift (ok_http 401 (as_str (jget token ''device_id'')))) (\<lambda>oid.
     bindM (lift (ok_http 401 (as_str (jget token ''nonce'')))) (\<lambda>nonce.
     bindM (refuseM (decode X nonce (Some 16) = None) 401) (\<lambda>_.
     bindM (select_opt lg_devices (\<lambda>r. ld_chain r = chain \<and> ld_id r = oid)) (\<lambda>row.
     bindM (lift (ok_http 403 row)) (\<lambda>r.
     bindM (refuseM (ld_status r \<noteq> ''active'') 403) (\<lambda>_.
     bindM (lift (ok_http 401 (as_str (jget token ''signature'')))) (\<lambda>sg.
     bindM (refuseM (verify_signed_json X (ld_key r) sg token TOKEN_CONTEXT \<noteq> Some True) 401) (\<lambda>_.
     bindM (legacy_nonce_use X chain oid nonce expires) (\<lambda>_.
     ret oid)))))))))))))"

subsection \<open>Reads\<close>

definition check_original_parameters :: "ext \<Rightarrow> string \<Rightarrow> bytes option \<Rightarrow> bytes res" where
  "check_original_parameters X chain raw =
     rbind (ok_http 500 raw) (\<lambda>raw.
     rbind (parsed X 500 raw) (\<lambda>v.
     rbind (refuse (jget v ''protocol_version'' \<noteq> JStr ''2.1'' \<or> jget v ''chain_id'' \<noteq> JStr chain
        \<or> (case as_str (jget v ''signature'') of None \<Rightarrow> True | Some t \<Rightarrow> decode X t (Some 64) = None)) 500) (\<lambda>_.
     Inr raw)))"

definition legacy_parameters :: "ext \<Rightarrow> string \<Rightarrow> legacy_response ltx" where
  "legacy_parameters X chain =
     bindM (select_opt lg_evidence (\<lambda>r. le_chain r = chain)) (\<lambda>row.
     bindM (lift (check_original_parameters X chain (map_option le_text row))) (\<lambda>raw.
     bindM (lift (parsed X 500 raw)) (\<lambda>v.
     ret (legacy_response_of X 200 (Some v)))))"

definition legacy_device_json :: "string \<Rightarrow> legacy_device \<Rightarrow> json" where
  "legacy_device_json chain r = jobj [(''protocol_version'', JStr ''2.1''), (''chain_id'', JStr chain), (''device_id'', JStr (ld_id r)),
     (''device_public_key'', JStr (ld_key r)), (''encrypted_device_name'', JStr (ld_name r)),
     (''device_name_nonce'', JStr (ld_name_nonce r)), (''status'', JStr (ld_status r)), (''created_at_ms'', JInt (ld_created r)),
     (''updated_at_ms'', JInt (ld_updated r)), (''signature'', JStr (ld_signature r))]"

definition legacy_devices :: "ext \<Rightarrow> string \<Rightarrow> legacy_response ltx" where
  "legacy_devices X chain =
     bindM (select_all lg_devices (\<lambda>r. ld_chain r = chain)) (\<lambda>rows.
     ret (legacy_response_of X 200 (Some (jobj [(''devices'', JArr (map (legacy_device_json chain) (sort_key ld_id rows))),
       (''next_cursor'', JNull)]))))"

definition legacy_decimal :: "string \<Rightarrow> nat res" where
  "legacy_decimal t =
     (if t = [] \<or> \<not> list_all ascii_digit t then Inl (http 400)
      else ok_http 400 (case parse_u64 t of None \<Rightarrow> None | Some n \<Rightarrow> if n \<le> MAX_INTEGER then Some n else None))"

definition legacy_record :: "string \<Rightarrow> legacy_record_row \<Rightarrow> json" where
  "legacy_record chain r = jobj [(''chain_id'', JStr chain), (''protocol_version'', JStr (lr_version r)), (''record_id'', JStr (lr_id r)),
     (''collection_name'', JStr (lr_collection r)), (''action'', JStr (lr_action r)), (''encrypted_payload'', JStr (lr_payload r)),
     (''payload_nonce'', JStr (lr_nonce r)), (''device_id'', JStr (lr_device r)), (''signature'', JStr (lr_signature r)),
     (''epoch'', JInt (lr_epoch r)), (''lamport'', JInt (lr_lamport r)), (''created_at_ms'', JInt (lr_created r)),
     (''relay_seq'', JNat (lr_seq r)), (''server_sequence'', JNat (lr_seq r))]"

definition string_bytes :: "legacy_record_row \<Rightarrow> nat" where
  "string_bytes r = length (lr_payload r) + length (lr_signature r) + length (lr_nonce r) + length (lr_id r) + length (lr_device r)
     + length (lr_collection r) + length (lr_action r) + length (lr_version r)"

text \<open>\<^verbatim>\<open>WHERE chain_id=? AND server_sequence>? ORDER BY server_sequence LIMIT 1\<close>\<close>

definition next_row :: "legacy_record_row list \<Rightarrow> string \<Rightarrow> nat \<Rightarrow> legacy_record_row option" where
  "next_row rows chain after =
     (case sort_key lr_seq (filter (\<lambda>r. lr_chain r = chain \<and> lr_seq r > after) rows) of [] \<Rightarrow> None | r # _ \<Rightarrow> Some r)"

lemma next_row_Some:
  assumes "next_row rows chain after = Some r"
  shows "r \<in> set rows" "lr_chain r = chain" "after < lr_seq r"
    "\<And>r'. r' \<in> set rows \<Longrightarrow> lr_chain r' = chain \<Longrightarrow> after < lr_seq r' \<Longrightarrow> lr_seq r \<le> lr_seq r'"
proof -
  let ?s = "sort_key lr_seq (filter (\<lambda>r. lr_chain r = chain \<and> lr_seq r > after) rows)"
  obtain rs where s: "?s = r # rs" using assms by (auto simp: next_row_def split: list.splits)
  have mem: "set ?s = {r \<in> set rows. lr_chain r = chain \<and> after < lr_seq r}" by auto
  have "sorted (map lr_seq (r # rs))" using sorted_sort_key [of lr_seq "filter (\<lambda>r. lr_chain r = chain \<and> lr_seq r > after) rows"] s by simp
  then have first: "\<And>r'. r' \<in> set ?s \<Longrightarrow> lr_seq r \<le> lr_seq r'" using s by auto
  show "r \<in> set rows" "lr_chain r = chain" "after < lr_seq r" using mem s by auto
  show "\<And>r'. r' \<in> set rows \<Longrightarrow> lr_chain r' = chain \<Longrightarrow> after < lr_seq r' \<Longrightarrow> lr_seq r \<le> lr_seq r'"
    using first mem by blast
qed

lemma next_row_None: "next_row rows chain after = None \<longleftrightarrow> (\<forall>r \<in> set rows. lr_chain r = chain \<longrightarrow> lr_seq r \<le> after)"
proof -
  have "next_row rows chain after = None \<longleftrightarrow> filter (\<lambda>r. lr_chain r = chain \<and> lr_seq r > after) rows = []"
    by (auto simp: next_row_def split: list.splits dest: arg_cong [of _ _ length])
  then show ?thesis by (auto simp: filter_empty_conv not_less)
qed

text \<open>The records still to come.\<close>

definition remaining :: "legacy_record_row list \<Rightarrow> string \<Rightarrow> nat \<Rightarrow> nat" where
  "remaining rows chain after = length (filter (\<lambda>r. lr_chain r = chain \<and> lr_seq r > after) rows)"

lemma remaining_less:
  assumes "next_row rows chain after = Some r"
  shows "remaining rows chain (lr_seq r) < remaining rows chain after"
proof -
  have "filter (\<lambda>r'. lr_chain r' = chain \<and> lr_seq r < lr_seq r') rows
      = filter (\<lambda>r'. lr_seq r < lr_seq r') (filter (\<lambda>r'. lr_chain r' = chain \<and> after < lr_seq r') rows)"
    using next_row_Some(3) [OF assms] by (auto intro: filter_cong)
  moreover have "length (filter (\<lambda>r'. lr_seq r < lr_seq r') (filter (\<lambda>r'. lr_chain r' = chain \<and> after < lr_seq r') rows))
      < length (filter (\<lambda>r'. lr_chain r' = chain \<and> after < lr_seq r') rows)"
    using next_row_Some(1-3) [OF assms] by (intro length_filter_less [of r]) auto
  ultimately show ?thesis by (simp only: remaining_def)
qed

function records_loop ::
    "ext \<Rightarrow> legacy_record_row list \<Rightarrow> string \<Rightarrow> nat \<Rightarrow> nat \<Rightarrow> nat \<Rightarrow> nat \<Rightarrow> json list \<Rightarrow> (json list \<times> nat \<times> bool) res" where
  "records_loop X rows chain limit byte_limit after full acc =
     (case next_row rows chain after of
        None \<Rightarrow> Inr (acc, after, False)
      | Some r \<Rightarrow>
          if length acc = limit then Inr (acc, after, True)
          else if string_bytes r > byte_limit - full
          then (if acc = [] then Inl (http 413) else Inr (acc, after, True))
          else let v = legacy_record chain r; size = length (canonicalize_json X v) + 1 in
            if size > byte_limit - full
            then (if acc = [] then Inl (http 413) else Inr (acc, after, True))
            else records_loop X rows chain limit byte_limit (lr_seq r) (full + size) (acc @ [v]))"
  by pat_completeness auto
termination
  by (relation "measure (\<lambda>(X, rows, chain, limit, byte_limit, after, used, acc). remaining rows chain after)")
    (auto intro: remaining_less)

declare records_loop.simps [simp del]

definition legacy_records :: "ext \<Rightarrow> string \<Rightarrow> query_list \<Rightarrow> nat \<Rightarrow> nat \<Rightarrow> legacy_response ltx" where
  "legacy_records X chain q maximum byte_limit =
     bindM (lift (legacy_decimal (case query q ''cursor'' of Some t \<Rightarrow> t | None \<Rightarrow>
        (case query q ''after_seq'' of Some t \<Rightarrow> t | None \<Rightarrow> ''0'')))) (\<lambda>after.
     bindM (lift (legacy_decimal (case query q ''limit'' of Some t \<Rightarrow> t | None \<Rightarrow> ''200''))) (\<lambda>limit.
     bindM (refuseM (limit = 0 \<or> limit > maximum) 400) (\<lambda>_.
     bindM (gets lg_records) (\<lambda>rows.
     bindM (lift (records_loop X rows chain limit byte_limit after 128 [])) (\<lambda>(records, next_seq, again).
     bindM (in_v3 (now X)) (\<lambda>t.
     ret ((legacy_response_of X 200 (Some (jobj [(''records'', JArr records),
         (''next_cursor'', if again then JStr (show_nat next_seq) else JNull), (''server_time_ms'', JNat t)])))
       \<lparr>lp_next := Some (show_nat next_seq), lp_more := Some (if again then ''true'' else ''false'')\<rparr>)))))))"

subsection \<open>Deletion\<close>

definition legacy_delete :: "ext \<Rightarrow> string \<Rightarrow> legacy_response ltx" where
  "legacy_delete X chain =
     bindM (delete_rows lg_records_update (\<lambda>r. lr_chain r = chain)) (\<lambda>_.
     bindM (delete_rows lg_devices_update (\<lambda>r. ld_chain r = chain)) (\<lambda>_.
     bindM (delete_rows lg_nonces_update (\<lambda>r. ln_chain r = chain)) (\<lambda>_.
     bindM (delete_rows lg_cursors_update (\<lambda>r. lk_chain r = chain)) (\<lambda>_.
     bindM (delete_rows lg_evidence_update (\<lambda>r. le_chain r = chain)) (\<lambda>_.
     bindM (in_v3 (now X)) (\<lambda>t.
     bindM (update_rows lg_chains_update (\<lambda>r. lc_id r = chain \<and> lc_deleted r = None) (\<lambda>r. r\<lparr>lc_deleted := Some t\<rparr>)) (\<lambda>_.
     ret (legacy_response_of X 200 None))))))))"

subsection \<open>Requests\<close>

definition legacy_route :: "string list \<Rightarrow> (string \<times> string) option" where
  "legacy_route pieces =
     (case pieces of
        [chain] \<Rightarrow> Some (chain, ''delete'')
      | [chain, x] \<Rightarrow> if x \<in> set [''parameters'', ''devices'', ''records''] then Some (chain, x) else None
      | _ \<Rightarrow> None)"

definition legacy_limit :: "config \<Rightarrow> string \<Rightarrow> nat res" where
  "legacy_limit cfg name = unwrap (as_u64 (jget (limits cfg) name))"

text \<open>The transaction of a request on a chain that passed the checks of its form.\<close>

definition legacy_chain_body :: "ext \<Rightarrow> config \<Rightarrow> http_request \<Rightarrow> string \<Rightarrow> string \<Rightarrow> query_list \<Rightarrow> legacy_response ltx" where
  "legacy_chain_body X cfg rq chain route q =
     bindM (gets lg_present) (\<lambda>present.
     bindM (refuseM (\<not> present) 404) (\<lambda>_.
     bindM (select_opt lg_chains (\<lambda>r. lc_id r = chain)) (\<lambda>row.
     bindM (lift (ok_http 404 row)) (\<lambda>c.
     bindM (refuseM (lc_deleted c \<noteq> None) 410) (\<lambda>_.
     if route = ''parameters'' then legacy_parameters X chain
     else
       bindM (legacy_authenticate X chain rq) (\<lambda>oid.
       bindM (to_statusM (in_v3 (rate X cfg ''authorized_signer'' (hash_bytes X (''legacy:'' @ chain @ '':'' @ oid))))) (\<lambda>_.
       if route = ''devices'' then legacy_devices X chain
       else if route = ''records'' then
         bindM (lift (legacy_limit cfg ''page_limit'')) (\<lambda>maximum.
         bindM (lift (legacy_limit cfg ''max_request_bytes'')) (\<lambda>byte_limit.
         legacy_records X chain q maximum byte_limit))
       else legacy_delete X chain)))))))"

definition legacy_query_ok :: "string \<Rightarrow> query_list \<Rightarrow> bool" where
  "legacy_query_ok route q \<longleftrightarrow>
     (if route \<noteq> ''records'' then q = []
      else list_all (\<lambda>kv. fst kv \<in> set [''after_seq'', ''cursor'', ''limit'']) q
         \<and> \<not> (query q ''after_seq'' \<noteq> None \<and> query q ''cursor'' \<noteq> None))"

definition legacy_chain_request :: "ext \<Rightarrow> config \<Rightarrow> web \<Rightarrow> http_request \<Rightarrow> query_list \<Rightarrow> legacy_response ltx" where
  "legacy_chain_request X cfg W rq q =
     bindM (lift (ok_http 404 (strip_prefix ''/pallasync/v2/chains/'' (hq_path rq)))) (\<lambda>rest.
     bindM (lift (ok_http 404 (legacy_route (split_on CHR ''/'' rest)))) (\<lambda>(chain, route).
     bindM (refuseM ((route = ''delete'' \<and> hq_method rq \<noteq> ''DELETE'') \<or> (route \<noteq> ''delete'' \<and> hq_method rq \<noteq> ''GET'')) 405) (\<lambda>_.
     bindM (refuseM (decode X chain (Some 32) = None) 400) (\<lambda>_.
     bindM (refuseM (\<not> legacy_query_ok route q) 400) (\<lambda>_.
     legacy_tx W 1 (legacy_chain_body X cfg rq chain route q))))))"

text \<open>Documents that need no token are rated by the source address.\<close>

definition legacy_public_rate :: "ext \<Rightarrow> config \<Rightarrow> web \<Rightarrow> http_request \<Rightarrow> unit ltx" where
  "legacy_public_rate X cfg W rq =
     (if ends_with ''/health'' (hq_path rq) \<or> ends_with ''/parameters'' (hq_path rq)
      then to_statusM (keep_legacy W 0 (in_v3 (rate X cfg ''public_document_ip'' (hash_bytes X (hq_source rq)))))
      else ret ())"

definition legacy_run :: "ext \<Rightarrow> config \<Rightarrow> web \<Rightarrow> http_request \<Rightarrow> legacy_response ltx" where
  "legacy_run X cfg W rq =
     bindM (refuseM (hq_method rq \<notin> set [''GET'', ''DELETE'']) 405) (\<lambda>_.
     bindM (lift (legacy_limit cfg ''max_request_bytes'')) (\<lambda>max_bytes.
     bindM (refuseM (hq_timeout rq) 408) (\<lambda>_.
     bindM (refuseM (length (hq_body rq) > max_bytes) 413) (\<lambda>_.
     bindM (refuseM (hq_body rq \<noteq> [] \<or> (hq_encoding rq \<noteq> None \<and> hq_encoding rq \<noteq> Some (Some ''identity''))) 400) (\<lambda>_.
     bindM (legacy_public_rate X cfg W rq) (\<lambda>_.
     bindM (lift (case canonical_query (case hq_query rq of None \<Rightarrow> [] | Some t \<Rightarrow> t) of
        Inl e \<Rightarrow> Inl (http 400) | Inr q \<Rightarrow> Inr q)) (\<lambda>q.
     if hq_path rq \<in> set [''/health'', ''/pallasync/v2/health''] then
       bindM (refuseM (hq_method rq \<noteq> ''GET'') 405) (\<lambda>_.
       bindM (refuseM (q \<noteq> []) 400) (\<lambda>_.
       ret (legacy_response_of X 200 (Some (jobj [(''status'', JStr ''ok''), (''protocol_version'', JStr ''2.1'')])))))
     else legacy_chain_request X cfg W rq q)))))))"

text \<open>\<open>None\<close>: the connection dies with a panic.\<close>

definition legacy_handle :: "ext \<Rightarrow> config \<Rightarrow> web \<Rightarrow> http_request \<Rightarrow> legacy \<Rightarrow> legacy_response option \<times> legacy" where
  "legacy_handle X cfg W rq s =
     (case legacy_run X cfg W rq s of
        (Inr r, s') \<Rightarrow> (Some r, s')
      | (Inl (Err code ctx), s') \<Rightarrow> (Some (legacy_response_of X (digits_val code) None), s')
      | (Inl Panic, s') \<Rightarrow> (None, s'))"

subsection \<open>Restoring the parameters\<close>

text \<open>The operator's command; an error is a text, kept as the code of an \<open>Err\<close>.\<close>

definition parameter_members :: "string list" where
  "parameter_members = [''protocol_version'', ''chain_id'', ''chain_salt'', ''created_at_ms'', ''creator_device_id'',
     ''creator_public_key'', ''admin_public_key'', ''signature'']"

definition check_binary :: "ext \<Rightarrow> json \<Rightarrow> string \<Rightarrow> unit res" where
  "check_binary X v field =
     rbind (ok_or ''Invalid legacy binary field'' (as_str (jget v field))) (\<lambda>t.
     reject (decode X t (Some (if field = ''signature'' then 64 else 32)) = None) ''Invalid legacy binary field'')"

definition check_parameters :: "ext \<Rightarrow> json \<Rightarrow> string res" where
  "check_parameters X v =
     rbind (reject (\<not> is_object v) ''Legacy parameters must be an object'') (\<lambda>_.
     rbind (reject (\<not> has_members parameter_members v \<or> jget v ''protocol_version'' \<noteq> JStr ''2.1'')
        ''Invalid original legacy parameter fields'') (\<lambda>_.
     rbind (rall (check_binary X v) [''chain_id'', ''chain_salt'', ''creator_public_key'', ''admin_public_key'', ''signature'']) (\<lambda>_.
     rbind (ok_or ''Missing legacy chain'' (as_str (jget v ''chain_id''))) (\<lambda>chain.
     rbind (reject ((case as_str (jget v ''creator_device_id'') of None \<Rightarrow> True | Some t \<Rightarrow> x_uuid_parse X t = None)
        \<or> (case as_u64 (jget v ''created_at_ms'') of None \<Rightarrow> True | Some t \<Rightarrow> t > MAX_INTEGER)) ''Invalid legacy creator/time'') (\<lambda>_.
     Inr chain)))))"

definition authority_conflict :: "json \<Rightarrow> legacy_chain \<Rightarrow> bool" where
  "authority_conflict v c \<longleftrightarrow> jget v ''chain_salt'' \<noteq> JStr (lc_salt c) \<or> jget v ''admin_public_key'' \<noteq> JStr (lc_admin_key c)
     \<or> jget v ''creator_device_id'' \<noteq> JStr (lc_creator c) \<or> jget v ''creator_public_key'' \<noteq> JStr (lc_creator_key c)"

definition retain_body :: "ext \<Rightarrow> json \<Rightarrow> string \<Rightarrow> unit ltx" where
  "retain_body X v chain =
     bindM (gets (\<lambda>s. if lg_present s then Some (find (\<lambda>r. lc_id r = chain) (lg_chains s)) else None)) (\<lambda>found.
     bindM (lift (ok_or ''Original legacy authority fields unavailable'' found)) (\<lambda>row.
     bindM (lift (ok_or ''Original legacy chain not found'' row)) (\<lambda>c.
     bindM (rejectM (lc_deleted c \<noteq> None) ''Cannot restore parameters of a deleted legacy chain'') (\<lambda>_.
     bindM (rejectM (authority_conflict v c) ''Original parameters conflict with preserved legacy authority'') (\<lambda>_.
     bindM (rejectM (jget v ''created_at_ms'' \<noteq> JInt (lc_created c)) ''Original creation time conflicts with preserved legacy authority'') (\<lambda>_.
     let canonical = canonicalize_json X v in
     bindM (rejectM (\<not> utf8_ok canonical) ''Invalid legacy UTF-8'') (\<lambda>_.
     bindM (insert_ignore lg_evidence lg_evidence_update (same le_chain) \<lparr>le_chain = chain, le_text = canonical\<rparr>) (\<lambda>_.
     bindM (map_errM ''Legacy evidence unavailable'' (select_one lg_evidence (\<lambda>r. le_chain r = chain))) (\<lambda>saved.
     rejectM (parse X (le_text saved) \<noteq> Inr v) ''Refusing to replace original legacy parameter evidence'')))))))))"

definition retain_parameters :: "ext \<Rightarrow> web \<Rightarrow> bytes \<Rightarrow> unit ltx" where
  "retain_parameters X W raw =
     bindM (lift (case parse X raw of Inl e \<Rightarrow> Inl (err ''Invalid original legacy JSON'') | Inr v \<Rightarrow> Inr v)) (\<lambda>v.
     bindM (lift (check_parameters X v)) (\<lambda>chain.
     (\<lambda>s. if w_begin_fails W 0 then (Inl (err ''Legacy store unavailable''), s)
          else case retain_body X v chain s of
            (Inl e, s') \<Rightarrow> (Inl e, undo s s')
          | (Inr u, s') \<Rightarrow> if w_commit_fails W 0 then (Inl (err ''Legacy evidence commit failed''), undo s s') else (Inr u, s'))))"

end
