(* ===== verification/Relay_Operator.thy ===== *)
theory Relay_Operator
  imports Relay_Policy Relay_Legacy
begin

text \<open>
  \<^verbatim>\<open>src/bin/pallasync-operator.rs\<close>: the operator's command line. It signs the first revision of a
  disclosure, verifies a signed one with the validator of the server, and restores legacy parameters.
  The files, the standard input, the clock and the random identifier are the record \<open>operator_world\<close>; the
  effect on the file system is the list of files of the new directory. An error is a text, kept as the
  code of an \<open>Err\<close>.
\<close>

record operator_world =
  z_files :: "string \<Rightarrow> string + bytes"       \<comment> \<open>the contents of a file, or the error's text\<close>
  z_exists :: "string \<Rightarrow> bool"
  z_stdin :: "bytes option"                    \<comment> \<open>\<open>None\<close>: it cannot be read\<close>
  z_fresh :: nat                               \<comment> \<open>the number of the \<^verbatim>\<open>Uuid::new_v4\<close>\<close>
  z_now :: nat
  z_later :: nat                               \<comment> \<open>the clock when the validator reads it\<close>
  z_date :: "nat \<Rightarrow> string option"             \<comment> \<open>\<^verbatim>\<open>chrono\<close>: milliseconds to RFC 3339\<close>
  z_pretty :: "json \<Rightarrow> bytes"                  \<comment> \<open>\<^verbatim>\<open>serde_json::to_vec_pretty\<close>\<close>
  z_write_error :: "string option"             \<comment> \<open>the first failure of writing the directory\<close>
  z_runtime :: bool                            \<comment> \<open>the asynchronous runtime starts\<close>
  z_opens :: "string \<Rightarrow> bool"                  \<comment> \<open>\<^verbatim>\<open>init_db_with_url\<close> succeeds\<close>

datatype report =
    Signed config "(string \<times> bytes) list"
  | Verified json string
  | Retained

definition NL :: string where "NL = [CHR 0x0A]"

text \<open>\<^verbatim>\<open>Path::join\<close> with a relative name, and whether \<^verbatim>\<open>Path::parent\<close> is there.\<close>

definition join_path :: "string \<Rightarrow> string \<Rightarrow> string" where
  "join_path dir name = (if dir = [] \<or> last dir = CHR ''/'' then dir @ name else dir @ ''/'' @ name)"

definition has_parent :: "string \<Rightarrow> bool" where
  "has_parent path \<longleftrightarrow>
     (case path of
        [] \<Rightarrow> False
      | c # rest \<Rightarrow> c \<noteq> CHR ''/'' \<or> list_ex (\<lambda>piece. piece \<noteq> [] \<and> piece \<noteq> ''.'') (split_on CHR ''/'' rest))"

definition read_public :: "operator_world \<Rightarrow> string \<Rightarrow> bytes res" where
  "read_public z path =
     rbind (read_file (z_files z) path) (\<lambda>b.
     rbind (reject (length b > 1048576) ''Policy exceeds 1 MiB'') (\<lambda>_.
     Inr b))"

subsection \<open>The key\<close>

definition trim_newlines :: "string \<Rightarrow> string" where
  "trim_newlines t = rev (dropWhile (\<lambda>c. c = CHR 0x0D \<or> c = CHR 0x0A) (rev t))"

definition key_from_stdin :: "ext \<Rightarrow> operator_world \<Rightarrow> bytes res" where
  "key_from_stdin X z =
     rbind (ok_or ''Invalid seed input'' (z_stdin z)) (\<lambda>b.
     rbind (reject (\<not> utf8_ok (take 65 b)) ''Invalid seed input'') (\<lambda>_.
     ok_or ''Expected a canonical Base64URL 32-byte seed on stdin'' (decode X (trim_newlines (take 65 b)) (Some 32))))"

definition policy_rejected :: "config res \<Rightarrow> config res" where
  "policy_rejected r =
     (case r of Inl (Err code _) \<Rightarrow> Inl (err (''Policy rejected by server validator: '' @ code)) | _ \<Rightarrow> r)"

definition read_policy :: "ext \<Rightarrow> operator_world \<Rightarrow> string \<Rightarrow> json res" where
  "read_policy X z path =
     rbind (read_public z path) (\<lambda>b. case parse X b of Inl e \<Rightarrow> Inl (err e) | Inr v \<Rightarrow> Inr v)"

subsection \<open>Signing\<close>

definition derived_fields :: "string list" where
  "derived_fields = [''relay_signature'', ''relay_key_id'', ''disclosure_id'', ''revision'', ''published_at_ms'', ''effective_at_ms'',
     ''markdown_sha256'']"

definition no_derived :: "json \<Rightarrow> unit res" where
  "no_derived p =
     rall (\<lambda>name. reject (jfind p name \<noteq> None) (''Draft must not supply derived field: '' @ name)) derived_fields"

definition policy_header :: "string \<Rightarrow> nat \<Rightarrow> string \<Rightarrow> string \<Rightarrow> bytes" where
  "policy_header ident t date key_id =
     ''# Relay privacy policy'' @ NL @ NL @ ''Revision: 1  '' @ NL @ ''Disclosure ID: '' @ ident @ ''  '' @ NL
     @ ''Published / effective (UTC): '' @ date @ ''  '' @ NL @ ''Published / effective (Unix milliseconds): '' @ show_nat t @ ''  '' @ NL
     @ ''Relay key ID: '' @ key_id @ NL @ NL"

definition fill_policy :: "ext \<Rightarrow> string \<Rightarrow> nat \<Rightarrow> string \<Rightarrow> bytes \<Rightarrow> json \<Rightarrow> json" where
  "fill_policy X ident t key_id md p =
     jset ''markdown_sha256'' (JStr (hash_bytes X md)) (jset ''relay_key_id'' (JStr key_id)
       (jset ''effective_at_ms'' (JNat t) (jset ''published_at_ms'' (JNat t) (jset ''disclosure_id'' (JStr ident)
         (jset ''revision'' (JNat 1) p)))))"

definition policy_files :: "ext \<Rightarrow> operator_world \<Rightarrow> string \<Rightarrow> config \<Rightarrow> (string \<times> bytes) list" where
  "policy_files X z output cfg =
     [(join_path output ''privacy.md'', cfg_markdown cfg), (join_path output ''privacy.json'', z_pretty z (cfg_privacy cfg)),
      (join_path output ''relay-public-key.txt'', x_b64enc X (x_public_key X (cfg_key cfg)) @ NL)]"

text \<open>The errors of a signature that fails are not told apart.\<close>

definition sign_policy :: "ext \<Rightarrow> config_ext \<Rightarrow> operator_world \<Rightarrow> string \<Rightarrow> string \<Rightarrow> nat option \<Rightarrow> report res" where
  "sign_policy X Y z draft output max_bytes =
     rbind (reject (z_exists z output) ''Policy directory already exists; refusing to overwrite a published revision'') (\<lambda>_.
     rbind (key_from_stdin X z) (\<lambda>key.
     rbind (read_public z (join_path draft ''privacy.md'')) (\<lambda>draft_md.
     rbind (read_policy X z (join_path draft ''privacy.json'')) (\<lambda>p.
     rbind (reject (\<not> is_object p) ''Policy draft must be an object'') (\<lambda>_.
     rbind (no_derived p) (\<lambda>_.
     rbind (unwrap (z_date z (z_now z))) (\<lambda>date.
     let ident = x_uuid_str X (x_fresh X (z_fresh z)); key_id = hash_bytes X (x_public_key X key);
         md = policy_header ident (z_now z) date key_id @ draft_md in
     rbind (ok_or ''Degenerate relay signature'' (sign_relay X key (fill_policy X ident (z_now z) key_id md p) CTX_PRIVACY)) (\<lambda>p.
     rbind (policy_rejected (config_new X Y key md p max_bytes (z_later z))) (\<lambda>cfg.
     rbind (reject (\<not> has_parent output) ''Output directory needs a parent'') (\<lambda>_.
     case z_write_error z of
       Some e \<Rightarrow> Inl (err e)
     | None \<Rightarrow> Inr (Signed cfg (policy_files X z output cfg))))))))))))"

subsection \<open>Verifying, and the command line\<close>

definition quota_arg :: "string \<Rightarrow> nat option res" where
  "quota_arg t = (if t = ''none'' then Inr None else rbind (ok_or ''Invalid quota'' (parse_u64 t)) (\<lambda>n. Inr (Some n)))"

definition verify_policy :: "ext \<Rightarrow> config_ext \<Rightarrow> operator_world \<Rightarrow> string \<Rightarrow> string \<Rightarrow> report res" where
  "verify_policy X Y z path q =
     rbind (key_from_stdin X z) (\<lambda>key.
     rbind (read_policy X z (join_path path ''privacy.json'')) (\<lambda>p.
     rbind (read_public z (join_path path ''privacy.md'')) (\<lambda>md.
     rbind (quota_arg q) (\<lambda>max_bytes.
     rbind (policy_rejected (config_new X Y key md p max_bytes (z_later z))) (\<lambda>cfg.
     Inr (Verified (jget (cfg_privacy cfg) ''revision'') (cfg_key_id cfg)))))))"

definition retain_command :: "ext \<Rightarrow> operator_world \<Rightarrow> web \<Rightarrow> string \<Rightarrow> string \<Rightarrow> report ltx" where
  "retain_command X z W input url =
     bindM (lift (read_public z input)) (\<lambda>b.
     bindM (rejectM (\<not> z_runtime z) ''Operator runtime unavailable'') (\<lambda>_.
     bindM (rejectM (\<not> z_opens z url) ''Legacy store unavailable'') (\<lambda>_.
     bindM (retain_parameters X W b) (\<lambda>_.
     ret Retained))))"

definition usage :: string where
  "usage = ''Usage: pallasync-operator sign DRAFT_DIR POLICY_DIR QUOTA|none'' @ NL
     @ ''       pallasync-operator verify POLICY_DIR QUOTA|none'' @ NL
     @ ''       pallasync-operator retain-legacy-parameters ORIGINAL_JSON DATABASE_URL'' @ NL
     @ ''Policy seed is read from stdin only; legacy restoration uses public bytes only.''"

text \<open>The database is the one at the given URL.\<close>

definition operator_run :: "ext \<Rightarrow> config_ext \<Rightarrow> operator_world \<Rightarrow> web \<Rightarrow> string list \<Rightarrow> report ltx" where
  "operator_run X Y z W args =
     (case args of
        [command, a, b, c] \<Rightarrow>
          if command = ''sign'' then lift (rbind (quota_arg c) (sign_policy X Y z a b)) else lift (Inl (err usage))
      | [command, a, b] \<Rightarrow>
          if command = ''retain-legacy-parameters'' then retain_command X z W a b
          else if command = ''verify'' then lift (verify_policy X Y z a b)
          else lift (Inl (err usage))
      | _ \<Rightarrow> lift (Inl (err usage)))"

subsection \<open>What is signed can be started\<close>

text \<open>A policy that was accepted is accepted at any later time.\<close>

lemma config_new_later:
  assumes "config_new X Y key md p max_bytes t = Inr cfg" and "t \<le> t'"
  shows "config_new X Y key md p max_bytes t' = Inr cfg"
  using assms by (auto simp: config_new_def wrong_identity_def rbind_Inr_iff)

lemma config_new_parts:
  assumes "config_new X Y key md p max_bytes t = Inr cfg"
  shows "cfg_privacy cfg = p" "cfg_markdown cfg = md" "cfg_key cfg = key" "cfg_key_id cfg = hash_bytes X (x_public_key X key)"
    "length md \<le> 1048576"
  using assms by (auto simp: config_new_def check_documents_def)

lemma key_later: "z_stdin z' = z_stdin z \<Longrightarrow> key_from_stdin X z' = key_from_stdin X z"
  by (simp add: key_from_stdin_def)

lemma signed_revision: "is_object p \<Longrightarrow> sign_relay X key (fill_policy X ident t key_id md p) CTX_PRIVACY = Some q \<Longrightarrow>
    jget q ''revision'' = JNat 1"
  by (auto simp: sign_relay_def Let_def fill_policy_def split: option.splits bool.splits)

lemma sign_policy_parts:
  assumes "sign_policy X Y z draft output max_bytes = Inr (Signed cfg files)"
  obtains key md p where "key_from_stdin X z = Inr key" "files = policy_files X z output cfg"
    "config_new X Y key md p max_bytes (z_later z) = Inr cfg" "jget p ''revision'' = JNat 1"
proof -
  have ok: "config_new X Y key md p max_bytes t = Inr c" if "policy_rejected (config_new X Y key md p max_bytes t) = Inr c" for key md p t c
    using that by (auto simp: policy_rejected_def split: sum.splits failure.splits)
  show thesis
    using assms unfolding sign_policy_def Let_def
    by (auto split: option.splits dest!: ok intro!: that dest: signed_revision)
qed

text \<open>
  C33: what the operator's command signs and writes, its verification accepts at any later time, and
  the server starts with it: both get the configuration that was signed. The written JSON has to be read
  back as it was, and to stay within the mebibyte that the verification reads.
\<close>

theorem signed_policy_accepted:
  assumes sign: "sign_policy X Y z draft output max_bytes = Inr (Signed cfg files)"
    and printed: "parse X (z_pretty z (cfg_privacy cfg)) = Inr (cfg_privacy cfg)" "length (z_pretty z (cfg_privacy cfg)) \<le> 1048576"
    and later: "z_stdin z' = z_stdin z" "z_later z \<le> z_later z'" "list_all (\<lambda>(path, b). z_files z' path = Inr b) files"
    and quota: "quota_arg q = Inr max_bytes" "number_var env ''PALLASYNC_QUOTA_BYTES'' ''Invalid quota'' = Inr max_bytes"
    and env: "env SEED_VAR = map_option (\<lambda>b. trim_newlines (take 65 b)) (z_stdin z)"
      "env ''PALLASYNC_PRIVACY_MARKDOWN'' = Some (join_path output ''privacy.md'')"
      "env ''PALLASYNC_PRIVACY_JSON'' = Some (join_path output ''privacy.json'')"
  shows "verify_policy X Y z' output q = Inr (Verified (JNat 1) (cfg_key_id cfg))
    \<and> from_env X Y env (z_files z') (z_later z') = with_notice Y env cfg"
proof -
  obtain key md p where key: "key_from_stdin X z = Inr key" and files: "files = policy_files X z output cfg"
    and new: "config_new X Y key md p max_bytes (z_later z) = Inr cfg" and rev: "jget p ''revision'' = JNat 1"
    by (rule sign_policy_parts [OF sign])
  note parts = config_new_parts [OF new]
  have again: "config_new X Y key md p max_bytes (z_later z') = Inr cfg" by (rule config_new_later [OF new later(2)])
  have at: "z_files z' (join_path output ''privacy.md'') = Inr md" "z_files z' (join_path output ''privacy.json'') = Inr (z_pretty z p)"
    using later(3) parts by (simp_all add: files policy_files_def)
  have "verify_policy X Y z' output q = Inr (Verified (JNat 1) (cfg_key_id cfg))"
    using key key_later [OF later(1)] at printed parts quota(1) again rev
    by (simp add: verify_policy_def read_policy_def read_public_def read_file_def policy_rejected_def)
  moreover obtain b where b: "z_stdin z = Some b" "decode X (trim_newlines (take 65 b)) (Some 32) = Some key"
    using key by (auto simp: key_from_stdin_def)
  then have "from_env X Y env (z_files z') (z_later z') = with_notice Y env cfg"
    using at printed parts quota(2) again env
    by (simp add: from_env_def var_or_def decode_seed_def read_file_def rejected_disclosure_def)
  ultimately show ?thesis by blast
qed

subsection \<open>Example\<close>

fun raw_of :: "json \<Rightarrow> raw" where
  "raw_of JNull = RNull"
| "raw_of (JBool b) = RBool b"
| "raw_of (JInt i) = RU64 (nat i)"
| "raw_of (JStr t) = RStr t"
| "raw_of (JArr xs) = RArr (map raw_of xs)"
| "raw_of (JObj kvs) = RObj (map (\<lambda>kv. (fst kv, raw_of (snd kv))) kvs)"

definition demo_draft :: json where
  "demo_draft = JObj (filter (\<lambda>kv. fst kv \<notin> set derived_fields) (fold (\<lambda>(k, x). obj_put k x) demo_disclosure []))"

definition demo_sign_serde :: "string \<Rightarrow> raw option" where
  "demo_sign_serde t = Some (raw_of (if t = [] then demo_draft else jobj demo_disclosure))"

definition demo_sign_ext :: ext where "demo_sign_ext = demo_fast\<lparr>x_serde := demo_sign_serde\<rparr>"

definition demo_operator :: operator_world where
  "demo_operator = \<lparr>z_files = (\<lambda>path. Inr []), z_exists = (\<lambda>path. False), z_stdin = Some (''K'' @ NL), z_fresh = 0, z_now = 0,
     z_later = 0, z_date = (\<lambda>t. Some ''date''), z_pretty = (\<lambda>p. ''x''), z_write_error = None, z_runtime = True,
     z_opens = (\<lambda>url. True)\<rparr>"

lemma demo_parsed: "parse demo_sign_ext [] = Inr demo_draft" "parse demo_sign_ext ''x'' = Inr (jobj demo_disclosure)"
  by code_simp+

lemma demo_filled: "sign_relay demo_sign_ext demo_key (fill_policy demo_sign_ext ''0'' 0 ''K'' [] demo_draft) CTX_PRIVACY = Some (jobj demo_disclosure)"
  by code_simp

definition demo_notice :: bytes where "demo_notice = policy_header ''0'' 0 ''date'' ''K''"

definition demo_signed_config :: config where "demo_signed_config = demo_accepted_config\<lparr>cfg_markdown := demo_notice\<rparr>"

lemma demo_digests: "hash_bytes demo_sign_ext b = ''K''"
proof -
  have "demo_enc (replicate 32 CHR ''#'') = ''K''" by code_simp
  then show ?thesis by (simp add: demo_sign_ext_def hash_bytes_def demo_fast_def demo_digest_def)
qed

lemma demo_signed: "sign_policy demo_sign_ext demo_config_ext demo_operator ''draft'' ''policy'' None
    = Inr (Signed demo_signed_config (policy_files demo_sign_ext demo_operator ''policy'' demo_signed_config))"
proof -
  have key: "key_from_stdin demo_sign_ext demo_operator = Inr demo_key" by code_simp
  have ident: "x_uuid_str demo_sign_ext (x_fresh demo_sign_ext 0) = ''0''" by code_simp
  have draft: "no_derived demo_draft = Inr ()"
    "is_object demo_draft" by code_simp+
  have "fill_policy demo_sign_ext ''0'' 0 ''K'' demo_notice demo_draft = fill_policy demo_sign_ext ''0'' 0 ''K'' [] demo_draft"
    by (simp add: fill_policy_def demo_digests)
  then have sg: "sign_relay demo_sign_ext demo_key (fill_policy demo_sign_ext ''0'' 0 ''K'' demo_notice demo_draft) CTX_PRIVACY
      = Some (jobj demo_disclosure)" using demo_filled by simp
  have notice: "length demo_notice \<le> 1048576" "utf8_ok demo_notice" "\<not> starts_with_bom demo_notice" by code_simp+
  have new: "config_new demo_sign_ext demo_config_ext demo_key demo_notice (jobj demo_disclosure) None 0 = Inr demo_signed_config"
    unfolding demo_sign_ext_def demo_signed_config_def by (rule demo_policy_written [OF notice])
  have parent: "has_parent ''policy''" by code_simp
  have files: "read_public demo_operator path = Inr []" for path
    by (simp add: read_public_def read_file_def demo_operator_def)
  have world: "z_exists demo_operator p = False" "z_now demo_operator = 0" "z_later demo_operator = 0" "z_fresh demo_operator = 0"
    "z_date demo_operator t = Some ''date''" "z_write_error demo_operator = None" for p t
    by (simp_all add: demo_operator_def)
  show ?thesis
    by (simp add: sign_policy_def key read_policy_def files demo_parsed draft world ident demo_digests demo_notice_def [symmetric] sg new
        policy_rejected_def parent Let_def)
qed

definition demo_env :: "string \<Rightarrow> string option" where
  "demo_env name =
     (if name = SEED_VAR then Some ''K''
      else if name = ''PALLASYNC_PRIVACY_MARKDOWN'' then Some ''policy/privacy.md''
      else if name = ''PALLASYNC_PRIVACY_JSON'' then Some ''policy/privacy.json'' else None)"

definition demo_later_operator :: operator_world where
  "demo_later_operator = demo_operator\<lparr>z_later := 9, z_files := (\<lambda>path.
     if path = ''policy/privacy.md'' then Inr demo_notice else if path = ''policy/privacy.json'' then Inr ''x'' else Inr (''K'' @ NL))\<rparr>"

theorem signed_policy_accepted_witness:
  "verify_policy demo_sign_ext demo_config_ext demo_later_operator ''policy'' ''none'' = Inr (Verified (JNat 1) ''K'')
   \<and> from_env demo_sign_ext demo_config_ext demo_env (z_files demo_later_operator) 9
       = with_notice demo_config_ext demo_env demo_signed_config"
proof -
  have cfg: "cfg_privacy demo_signed_config = jobj demo_disclosure" "cfg_markdown demo_signed_config = demo_notice"
    "cfg_key_id demo_signed_config = ''K''" "cfg_key demo_signed_config = demo_key"
    by (simp_all add: demo_signed_config_def demo_accepted_config_def)
  have pretty: "z_pretty demo_operator p = ''x''" for p by (simp add: demo_operator_def)
  have paths: "join_path ''policy'' ''privacy.md'' = ''policy/privacy.md''" "join_path ''policy'' ''privacy.json'' = ''policy/privacy.json''"
    "join_path ''policy'' ''relay-public-key.txt'' = ''policy/relay-public-key.txt''" by code_simp+
  have pub: "x_b64enc demo_sign_ext (x_public_key demo_sign_ext demo_key) = ''K''" by code_simp
  have "list_all (\<lambda>(path, b). z_files demo_later_operator path = Inr b) (policy_files demo_sign_ext demo_operator ''policy'' demo_signed_config)"
    by (simp add: policy_files_def paths cfg pretty pub demo_later_operator_def)
  moreover have "trim_newlines (take 65 (''K'' @ NL)) = ''K''" by code_simp
  moreover have "z_stdin demo_operator = Some (''K'' @ NL)" by (simp add: demo_operator_def)
  moreover have "SEED_VAR \<noteq> ''PALLASYNC_PRIVACY_MARKDOWN''" "SEED_VAR \<noteq> ''PALLASYNC_PRIVACY_JSON''" by code_simp+
  moreover have "demo_env ''PALLASYNC_QUOTA_BYTES'' = None" by code_simp
  ultimately show ?thesis
    using signed_policy_accepted [OF demo_signed, where z' = demo_later_operator and q = "''none''" and env = demo_env]
    by (simp add: cfg pretty demo_parsed demo_later_operator_def demo_operator_def quota_arg_def number_var_def paths demo_env_def)
qed

end
