(* ===== verification/Relay_Legacy_Laws.thy ===== *)
theory Relay_Legacy_Laws
  imports Relay_Legacy Relay_Frame
begin

text \<open>
  What the legacy endpoints promise: they leave the tables of version 3 alone, a request that fails
  changes nothing, a deleted chain stays deleted, the pages of records are gap-free and come to an end,
  and restored parameters are read back as they were given.
\<close>

subsection \<open>Steps of a legacy request\<close>

text \<open>
  A preorder on the legacy tables that the statements of a request on one chain respect, whose
  transactions are kept or undone.
\<close>

locale legacy_order = run_order R for R :: "legacy \<Rightarrow> legacy \<Rightarrow> bool" +
  fixes chain :: string
  assumes tick: "R s (s\<lparr>lg_v3 := (lg_v3 s)\<lparr>db_tick := db_tick (lg_v3 s) + 1\<rparr>\<rparr>)"
    and rates: "R s (s\<lparr>lg_v3 := db_rates_update f (lg_v3 s)\<rparr>)"
    and nonces: "R s (lg_nonces_update (filter p1) s)" "ln_chain r1 = chain \<Longrightarrow> R s (lg_nonces_update (\<lambda>rows. rows @ [r1]) s)"
    and deleting: "R s (lg_records_update (filter p2) s)" "R s (lg_devices_update (filter p3) s)"
      "R s (lg_cursors_update (filter p4) s)" "R s (lg_evidence_update (filter p5) s)"
    and tombstone: "R s (lg_chains_update (map (\<lambda>r. if lc_id r = chain \<and> lc_deleted r = None then r\<lparr>lc_deleted := Some t\<rparr> else r)) s)"
    and undone: "R s s' \<Longrightarrow> R s (undo s s')"
begin

lemma keeps_clock: "keeps R (in_v3 (now X))"
  using tick by (simp add: keeps_def in_v3_def now_def)

lemma keeps_rate: "keeps R (in_v3 (rate X cfg scope identity))"
proof -
  have counted: "R s (s\<lparr>lg_v3 := db_rates_update f ((lg_v3 s)\<lparr>db_tick := db_tick (lg_v3 s) + 1\<rparr>)\<rparr>)" for s f
    using order_trans [OF tick rates [of "s\<lparr>lg_v3 := (lg_v3 s)\<lparr>db_tick := db_tick (lg_v3 s) + 1\<rparr>\<rparr>" f]] by simp
  show ?thesis
    using tick counted
    by (simp add: keeps_def in_v3_def rate_def now_def bindM_def select_opt_def gets_def Let_def upsert_row_def lift_def)
qed

lemma keeps_status: "keeps R m \<Longrightarrow> keeps R (to_statusM m)"
  unfolding keeps_def to_statusM_def by (auto split: prod.splits) (metis snd_conv)

lemma keeps_refuse: "keeps R (refuseM b n)"
  unfolding refuseM_def by (rule basic_steps(3))

lemma keeps_nonces: "keeps R (delete_rows lg_nonces_update p)"
  "ln_chain r = chain \<Longrightarrow> keeps R (insert_ignore lg_nonces lg_nonces_update clash r)"
  using nonces by (auto intro: keeps_delete keeps_insert_ignore)

lemmas legacy_flow = keeps_bind keeps_cases keeps_refuse keeps_clock keeps_rate keeps_status keeps_nonces basic_steps

lemma keeps_legacy_authenticate: "keeps R (legacy_authenticate X chain rq)"
  unfolding legacy_authenticate_def legacy_times_def legacy_nonce_use_def by (intro legacy_flow) simp

lemma keeps_legacy_reads: "keeps R (legacy_parameters X chain)" "keeps R (legacy_devices X chain)"
  "keeps R (legacy_records X chain q maximum byte_limit)"
  unfolding legacy_parameters_def legacy_devices_def legacy_records_def by (intro legacy_flow)+

lemma keeps_legacy_delete: "keeps R (legacy_delete X chain)"
  unfolding legacy_delete_def
  by (intro legacy_flow keeps_delete deleting) (auto intro: keeps_update tombstone)

lemma keeps_legacy_body: "keeps R (legacy_chain_body X cfg rq chain route q)"
  unfolding legacy_chain_body_def
  by (intro legacy_flow keeps_legacy_authenticate keeps_legacy_reads keeps_legacy_delete)

lemma keeps_legacy_tx: "keeps R m \<Longrightarrow> keeps R (legacy_tx W i m)"
  unfolding keeps_def legacy_tx_def by (auto split: prod.splits sum.splits intro: order_refl) (metis undone snd_conv)+

lemma keeps_keep_legacy: "keeps R m \<Longrightarrow> keeps R (keep_legacy W i m)"
  unfolding keeps_def keep_legacy_def
  by (auto split: prod.splits sum.splits failure.splits intro: order_refl) (metis undone snd_conv)+

lemma keeps_public_rate: "keeps R (legacy_public_rate X cfg W rq)"
  unfolding legacy_public_rate_def by (intro legacy_flow keeps_keep_legacy)

end

text \<open>The whole request, when the order is kept on whatever chain the path names.\<close>

locale legacy_requests = legacy_order +
  assumes bodies: "keeps R (legacy_chain_body X cfg rq c route q)"
begin

lemma keeps_legacy_run: "keeps R (legacy_run X cfg W rq)"
  unfolding legacy_run_def legacy_chain_request_def
  by (intro legacy_flow keeps_public_rate keeps_legacy_tx bodies)

lemma legacy_handle_keeps: "R s (snd (legacy_handle X cfg W rq s))"
proof -
  obtain r s' where run: "legacy_run X cfg W rq s = (r, s')" by fastforce
  have "R s s'" by (rule keepsD [OF keeps_legacy_run run])
  then show ?thesis by (auto simp: legacy_handle_def run split: sum.splits failure.splits)
qed

end

subsection \<open>The tables of version 3\<close>

definition v3_fixed :: "legacy \<Rightarrow> legacy \<Rightarrow> bool" where
  "v3_fixed s s' \<longleftrightarrow> (lg_v3 s')\<lparr>db_rates := [], db_tick := 0\<rparr> = (lg_v3 s)\<lparr>db_rates := [], db_tick := 0\<rparr>
     \<and> db_ids (lg_v3 s') = db_ids (lg_v3 s)"

lemma v3_fixed_order: "legacy_order v3_fixed chain"
  by unfold_locales (auto simp: v3_fixed_def undo_def rollback_to_def)

interpretation isolated: legacy_requests v3_fixed "[]"
  using v3_fixed_order [of "[]"] unfolding legacy_requests_def legacy_requests_axioms_def
  by (auto intro: legacy_order.keeps_legacy_body v3_fixed_order)

text \<open>What a request that fails leaves as it was: every table of version 2.\<close>

definition v2_fixed :: "legacy \<Rightarrow> legacy \<Rightarrow> bool" where
  "v2_fixed s s' \<longleftrightarrow> s'\<lparr>lg_v3 := lg_v3 s\<rparr> = s"

interpretation idle: run_order v2_fixed
  by unfold_locales (metis legacy.surjective legacy.update_convs(8) v2_fixed_def)+

definition fails_clean :: "'a ltx \<Rightarrow> bool" where
  "fails_clean m \<longleftrightarrow> (\<forall>s. case m s of (Inl e, s') \<Rightarrow> v2_fixed s s' | (Inr x, s') \<Rightarrow> True)"

lemma v2_fixed_v3: "v2_fixed s (s\<lparr>lg_v3 := st\<rparr>)"
  by (simp add: v2_fixed_def)

lemma keeps_in_v3: "keeps v2_fixed (in_v3 m)"
  by (simp add: keeps_def in_v3_def v2_fixed_v3 split: prod.splits)

lemma fails_clean_keeps: "keeps v2_fixed m \<Longrightarrow> fails_clean m"
  unfolding keeps_def fails_clean_def by (auto split: prod.splits sum.splits) (metis snd_conv)

lemma fails_clean_bind:
  assumes "keeps v2_fixed m" and "\<And>x. fails_clean (f x)"
  shows "fails_clean (bindM m f)"
  unfolding fails_clean_def
proof
  fix s
  obtain r t where m: "m s = (r, t)" by fastforce
  have st: "v2_fixed s t" by (rule keepsD [OF assms(1) m])
  show "case bindM m f s of (Inl e, s') \<Rightarrow> v2_fixed s s' | (Inr x, s') \<Rightarrow> True"
  proof (cases r)
    case (Inl e)
    then show ?thesis using st by (simp add: bindM_def m)
  next
    case (Inr x)
    have "case f x t of (Inl e, s') \<Rightarrow> v2_fixed t s' | (Inr x, s') \<Rightarrow> True"
      using assms(2) by (simp add: fails_clean_def)
    then show ?thesis using st idle.order_trans by (auto simp: bindM_def m Inr split: prod.splits sum.splits)
  qed
qed

lemma fails_clean_tx: "fails_clean (legacy_tx W i m)"
  by (auto simp: fails_clean_def legacy_tx_def undo_def v2_fixed_v3 idle.order_refl split: prod.splits sum.splits)

lemma keeps_v2_keep: "keeps v2_fixed m \<Longrightarrow> keeps v2_fixed (keep_legacy W i m)"
  unfolding keeps_def keep_legacy_def
  by (auto simp: undo_def v2_fixed_v3 idle.order_refl split: prod.splits sum.splits failure.splits) (metis snd_conv)+

lemma keeps_v2_refuse: "keeps v2_fixed (refuseM b n)"
  unfolding refuseM_def by (rule idle.basic_steps(3))

lemma keeps_v2_public: "keeps v2_fixed (legacy_public_rate X cfg W rq)"
proof -
  have "keeps v2_fixed (to_statusM m)" if "keeps v2_fixed m" for m :: "unit ltx"
    using that unfolding keeps_def to_statusM_def by (auto split: prod.splits) (metis snd_conv)
  from this [OF keeps_v2_keep [OF keeps_in_v3]] show ?thesis
    unfolding legacy_public_rate_def by (intro idle.keeps_cases idle.basic_steps)
qed

lemma legacy_run_fails_clean: "fails_clean (legacy_run X cfg W rq)"
proof -
  have request: "fails_clean (legacy_chain_request X cfg W rq q)" for q
    unfolding legacy_chain_request_def
    by (intro fails_clean_bind keeps_v2_refuse idle.basic_steps fails_clean_tx) (auto intro!: fails_clean_bind keeps_v2_refuse
        idle.basic_steps fails_clean_tx split: prod.splits)
  show ?thesis
    unfolding legacy_run_def
    by (intro fails_clean_bind keeps_v2_refuse keeps_v2_public idle.basic_steps)
      (auto intro!: request fails_clean_keeps idle.keeps_bind keeps_v2_refuse idle.basic_steps)
qed

text \<open>A request that succeeds is answered 200.\<close>

lemma legacy_body_status: "legacy_chain_body X cfg rq chain route q s = (Inr r, s') \<Longrightarrow> lp_status r = 200"
  by (auto simp: legacy_chain_body_def legacy_parameters_def legacy_devices_def legacy_records_def legacy_delete_def bindM_run
      legacy_response_of_def split: if_splits prod.splits)

lemma legacy_tx_Inr: "legacy_tx W i m s = (Inr x, s') \<Longrightarrow> m s = (Inr x, s')"
  by (auto simp: legacy_tx_def split: if_splits prod.splits sum.splits)

lemma legacy_run_status: "legacy_run X cfg W rq s = (Inr r, s') \<Longrightarrow> lp_status r = 200"
  by (auto simp: legacy_run_def legacy_chain_request_def bindM_run legacy_response_of_def split: if_splits prod.splits
      dest!: legacy_tx_Inr legacy_body_status)

text \<open>The restoration does not touch the tables of version 3; a token check does not touch the chains.\<close>

interpretation apart: run_order "\<lambda>s s'. lg_v3 s' = lg_v3 s"
  by unfold_locales auto

lemma retain_cases:
  "\<exists>v c. snd (retain_parameters X W raw s) \<in> {s, undo s (snd (retain_body X v c s)), snd (retain_body X v c s)}"
proof (cases "parse X raw")
  case (Inr v)
  show ?thesis
  proof (cases "check_parameters X v")
    case chk: (Inr c)
    obtain r s' where body: "retain_body X v c s = (r, s')" by fastforce
    then have "snd (retain_parameters X W raw s) \<in> {s, undo s (snd (retain_body X v c s)), snd (retain_body X v c s)}"
      by (cases r) (auto simp: retain_parameters_def bindM_def lift_def Inr chk body)
    then show ?thesis by blast
  qed (simp add: retain_parameters_def bindM_def lift_def Inr)
qed (simp add: retain_parameters_def bindM_def lift_def)

lemma retain_body_apart: "keeps (\<lambda>s s'. lg_v3 s' = lg_v3 s) (retain_body X v chain)"
  unfolding retain_body_def Let_def
  by (intro apart.keeps_bind apart.keeps_map_err apart.basic_steps apart.keeps_insert_ignore) simp

lemma retain_v3: "lg_v3 (snd (retain_parameters X W raw s)) = lg_v3 s"
proof -
  have "lg_v3 (snd (retain_body X v chain s)) = lg_v3 s" for v chain
    using retain_body_apart [of X v chain] by (simp add: keeps_def)
  then show ?thesis using retain_cases [of X W raw s] by (auto simp: undo_def rollback_to_def)
qed

interpretation steady: run_order "\<lambda>s s'. lg_chains s' = lg_chains s \<and> lg_present s' = lg_present s"
  by unfold_locales auto

lemma authenticate_steady:
  "keeps (\<lambda>s s'. lg_chains s' = lg_chains s \<and> lg_present s' = lg_present s) (legacy_authenticate X chain rq)"
proof -
  have clock: "keeps (\<lambda>s s'. lg_chains s' = lg_chains s \<and> lg_present s' = lg_present s) (in_v3 m)" for m :: "nat tx"
    by (simp add: keeps_def in_v3_def split: prod.splits)
  show ?thesis
    unfolding legacy_authenticate_def legacy_times_def legacy_nonce_use_def refuseM_def
    by (intro steady.keeps_bind clock steady.basic_steps steady.keeps_delete steady.keeps_insert_ignore) simp_all
qed

text \<open>
  C34: whatever a legacy request or an operator's restoration does, the tables of version 3 stay as
  they were, but for the rate buckets and the clock; and a legacy request that is not answered 200 leaves
  every table of version 2 as it was.
\<close>

theorem legacy_isolated:
  "(lg_v3 (snd (legacy_handle X cfg W rq s)))\<lparr>db_rates := [], db_tick := 0\<rparr> = (lg_v3 s)\<lparr>db_rates := [], db_tick := 0\<rparr>
   \<and> lg_v3 (snd (retain_parameters X W raw s)) = lg_v3 s
   \<and> (case legacy_handle X cfg W rq s of
        (Some r, s') \<Rightarrow> lp_status r = 200 \<or> s'\<lparr>lg_v3 := lg_v3 s\<rparr> = s
      | (None, s') \<Rightarrow> s'\<lparr>lg_v3 := lg_v3 s\<rparr> = s)"
proof (intro conjI)
  show "(lg_v3 (snd (legacy_handle X cfg W rq s)))\<lparr>db_rates := [], db_tick := 0\<rparr> = (lg_v3 s)\<lparr>db_rates := [], db_tick := 0\<rparr>"
    using isolated.legacy_handle_keeps [of s X cfg W rq] by (simp add: v3_fixed_def)
  show "lg_v3 (snd (retain_parameters X W raw s)) = lg_v3 s" by (rule retain_v3)
  obtain r s' where run: "legacy_run X cfg W rq s = (r, s')" by fastforce
  have clean: "s'\<lparr>lg_v3 := lg_v3 s\<rparr> = s" if "r = Inl e" for e
    using spec [OF legacy_run_fails_clean [unfolded fails_clean_def], of s X cfg W rq] run that by (simp add: v2_fixed_def)
  show "case legacy_handle X cfg W rq s of
        (Some r, s') \<Rightarrow> lp_status r = 200 \<or> s'\<lparr>lg_v3 := lg_v3 s\<rparr> = s
      | (None, s') \<Rightarrow> s'\<lparr>lg_v3 := lg_v3 s\<rparr> = s"
    using legacy_run_status [of X cfg W rq s] clean
    by (auto simp: legacy_handle_def run split: sum.splits failure.splits)
qed

subsection \<open>A deleted chain stays deleted\<close>

definition legacy_gone :: "string \<Rightarrow> legacy \<Rightarrow> bool" where
  "legacy_gone g s \<longleftrightarrow> lg_present s
     \<and> (case find (\<lambda>r. lc_id r = g) (lg_chains s) of None \<Rightarrow> False | Some c \<Rightarrow> lc_deleted c \<noteq> None)
     \<and> (\<forall>r \<in> set (lg_records s). lr_chain r \<noteq> g) \<and> (\<forall>r \<in> set (lg_devices s). ld_chain r \<noteq> g)
     \<and> (\<forall>r \<in> set (lg_nonces s). ln_chain r \<noteq> g) \<and> (\<forall>r \<in> set (lg_cursors s). lk_chain r \<noteq> g)
     \<and> (\<forall>r \<in> set (lg_evidence s). le_chain r \<noteq> g)"

definition stays_gone :: "string \<Rightarrow> legacy \<Rightarrow> legacy \<Rightarrow> bool" where
  "stays_gone g s s' \<longleftrightarrow> (legacy_gone g s \<longrightarrow> legacy_gone g s')"

lemma find_tombstone:
  "find (\<lambda>r. lc_id r = g) (map (\<lambda>r. if lc_id r = chain \<and> lc_deleted r = None then r\<lparr>lc_deleted := Some t\<rparr> else r) rows)
     = map_option (\<lambda>r. if lc_id r = chain \<and> lc_deleted r = None then r\<lparr>lc_deleted := Some t\<rparr> else r) (find (\<lambda>r. lc_id r = g) rows)"
  by (induction rows) auto

lemma legacy_gone_v3 [simp]: "legacy_gone g (s\<lparr>lg_v3 := st\<rparr>) = legacy_gone g s"
  by (simp add: legacy_gone_def)

lemma stays_gone_order:
  assumes "chain \<noteq> g"
  shows "legacy_order (stays_gone g) chain"
proof (unfold_locales, goal_cases)
  case (5 p s)
  then show ?case by (auto simp: stays_gone_def legacy_gone_def)
next
  case (6 r s)
  with assms show ?case by (auto simp: stays_gone_def legacy_gone_def)
next
  case (11 t s)
  with assms show ?case by (auto simp: stays_gone_def legacy_gone_def find_tombstone split: option.splits)
next
  case (7 p s)
  then show ?case by (auto simp: stays_gone_def legacy_gone_def)
next
  case (8 p s)
  then show ?case by (auto simp: stays_gone_def legacy_gone_def)
next
  case (9 p s)
  then show ?case by (auto simp: stays_gone_def legacy_gone_def)
next
  case (10 p s)
  then show ?case by (auto simp: stays_gone_def legacy_gone_def)
qed (simp_all add: stays_gone_def undo_def)

lemma gone_refused:
  assumes "legacy_gone g s"
  shows "legacy_chain_body X cfg rq g route q s = (Inl (http 410), s)"
  using assms
  by (auto simp: legacy_gone_def legacy_chain_body_def bindM_def gets_def refuseM_def refuse_def lift_def select_opt_def ok_http_def
      split: option.splits)

interpretation gone: legacy_requests "stays_gone g" "CHR ''x'' # g" for g
proof -
  have "keeps (stays_gone g) (legacy_chain_body X cfg rq c route q)" for X cfg rq c route q
  proof (cases "c = g")
    case True
    then show ?thesis using gone_refused by (auto simp: keeps_def stays_gone_def)
  next
    case False
    then show ?thesis by (intro legacy_order.keeps_legacy_body stays_gone_order)
  qed
  then show "legacy_requests (stays_gone g) (CHR ''x'' # g)"
    unfolding legacy_requests_def legacy_requests_axioms_def using stays_gone_order [of "CHR ''x'' # g" g] by auto
qed

text \<open>What happens to the database file: legacy requests, restorations, and anything on the tables of version 3.\<close>

inductive legacy_later :: "ext \<Rightarrow> legacy \<Rightarrow> legacy \<Rightarrow> bool" for X where
  later_refl: "legacy_later X s s"
| later_request: "legacy_later X s t \<Longrightarrow> legacy_later X s (snd (legacy_handle X cfg W rq t))"
| later_retain: "legacy_later X s t \<Longrightarrow> legacy_later X s (snd (retain_parameters X W raw t))"
| later_v3: "legacy_later X s t \<Longrightarrow> legacy_later X s (t\<lparr>lg_v3 := st\<rparr>)"

lemma retain_stays_gone: "stays_gone g s (snd (retain_parameters X W raw s))"
proof -
  have body: "v2_fixed s (snd (retain_body X v g s))" if "legacy_gone g s" for v
    using that by (auto simp: legacy_gone_def retain_body_def bindM_def gets_def lift_def rejectM_def reject_def v2_fixed_def
        split: option.splits)
  have other: "keeps (stays_gone g) (retain_body X v c)" if "c \<noteq> g" for v c
    using that unfolding retain_body_def Let_def
    by (intro gone.keeps_bind gone.keeps_map_err gone.basic_steps gone.keeps_insert_ignore)
      (auto simp: stays_gone_def legacy_gone_def)
  have "stays_gone g s (snd (retain_body X v c s))" for v c
  proof (cases "c = g")
    case True
    show ?thesis unfolding stays_gone_def
    proof
      assume "legacy_gone g s"
      with body True show "legacy_gone g (snd (retain_body X v c s))" by (metis legacy_gone_v3 v2_fixed_def)
    qed
  next
    case False
    then show ?thesis using other [of c v] by (simp add: keeps_def)
  qed
  then show ?thesis using retain_cases [of X W raw s] by (auto simp: stays_gone_def undo_def)
qed

lemma later_stays_gone: "legacy_later X s t \<Longrightarrow> legacy_gone g s \<Longrightarrow> legacy_gone g t"
proof (induction rule: legacy_later.induct)
  case (later_request s t cfg W rq)
  then show ?case using gone.legacy_handle_keeps [of g t X cfg W rq] by (simp add: stays_gone_def)
next
  case (later_retain s t W raw)
  then show ?case using retain_stays_gone [of g t X W raw] by (simp add: stays_gone_def)
qed auto

definition names_chain :: "http_request \<Rightarrow> string \<Rightarrow> string \<Rightarrow> bool" where
  "names_chain rq chain route \<longleftrightarrow>
     (case strip_prefix ''/pallasync/v2/chains/'' (hq_path rq) of
        None \<Rightarrow> False
      | Some rest \<Rightarrow> legacy_route (split_on CHR ''/'' rest) = Some (chain, route))"

lemma names_chain_run:
  assumes "names_chain rq chain route" and "legacy_run X cfg W rq s = (Inr r, s')"
  obtains t q where "v2_fixed s t" "legacy_chain_body X cfg rq chain route q t = (Inr r, s')"
proof -
  obtain rest where rest: "strip_prefix ''/pallasync/v2/chains/'' (hq_path rq) = Some rest"
      "legacy_route (split_on CHR ''/'' rest) = Some (chain, route)"
    using assms(1) by (auto simp: names_chain_def split: option.splits)
  have path: "hq_path rq \<noteq> ''/health''" "hq_path rq \<noteq> ''/pallasync/v2/health''"
    using rest(1) by (auto simp: strip_prefix_def)
  obtain t q where t: "legacy_public_rate X cfg W rq s = (Inr (), t)" "legacy_chain_request X cfg W rq q t = (Inr r, s')"
    using assms(2) path by (auto simp: legacy_run_def bindM_run refuseM_def refuse_def split: if_splits)
  have "legacy_tx W 1 (legacy_chain_body X cfg rq chain route q) t = (Inr r, s')"
    using t(2) rest by (auto simp: legacy_chain_request_def bindM_run ok_http_def refuseM_def refuse_def split: if_splits)
  from that [OF keepsD [OF keeps_v2_public t(1)] legacy_tx_Inr [OF this]] show ?thesis .
qed

text \<open>No error carries the status 200.\<close>

definition no_success :: "'a res \<Rightarrow> bool" where
  "no_success r \<longleftrightarrow> (case r of Inl (Err code ctx) \<Rightarrow> digits_val code \<noteq> 200 | _ \<Rightarrow> True)"

definition refuses :: "'a ltx \<Rightarrow> bool" where
  "refuses m \<longleftrightarrow> (\<forall>s. no_success (fst (m s)))"

lemma no_success_basic:
  "no_success (Inr x)" "no_success (Inl Panic)" "n \<noteq> 200 \<Longrightarrow> no_success (Inl (http n))"
  "n \<noteq> 200 \<Longrightarrow> no_success (ok_http n opt)" "n \<noteq> 200 \<Longrightarrow> no_success (refuse b n)" "n \<noteq> 200 \<Longrightarrow> no_success (parsed X n bytes)"
  "no_success (unwrap opt')"
  by (auto simp: no_success_def http_def err_def ok_http_def refuse_def parsed_def unwrap_def split: option.splits sum.splits)

lemma no_success_bind: "no_success m \<Longrightarrow> (\<And>x. no_success (f x)) \<Longrightarrow> no_success (rbind m f)"
  by (cases m) (auto simp: no_success_def)

lemma no_success_status: "no_success (to_status r)"
proof -
  have "n \<noteq> 200" if "status code = Some n" for code n
    using status_range [OF that] by simp
  then show ?thesis
    by (auto simp: to_status_def no_success_def http_def err_def split: sum.splits failure.splits option.splits)
qed

lemma no_success_tests:
  "no_success (legacy_token X chain rq)" "no_success (check_original_parameters X chain raw)" "no_success (legacy_decimal t)"
  "no_success (legacy_limit cfg name)"
  unfolding legacy_token_def check_original_parameters_def legacy_decimal_def legacy_limit_def
  by (auto intro!: no_success_bind no_success_basic split: option.splits)

lemma no_success_loop: "no_success (records_loop X rows chain limit byte_limit after full acc)"
proof (induction X rows chain limit byte_limit after full acc rule: records_loop.induct)
  case (1 X rows chain limit byte_limit after full acc)
  then show ?case
    by (subst records_loop.simps) (auto simp: Let_def intro!: no_success_basic split: option.splits)
qed

lemma refuses_basic:
  "no_success r \<Longrightarrow> refuses (lift r)" "refuses (ret x)" "refuses (gets f)" "refuses (select_opt sel p)" "refuses (select_all sel' p')"
  "n \<noteq> 200 \<Longrightarrow> refuses (refuseM b n)" "refuses (in_v3 (now X))" "refuses (to_statusM m)" "refuses (delete_rows upd p2)"
  "refuses (update_rows upd p3 f3)" "refuses (insert_ignore sel2 upd2 clash row)"
  by (auto simp: refuses_def no_success_basic refuseM_def in_v3_def now_def to_statusM_def no_success_status select_opt_def
      select_all_def delete_rows_def update_rows_def insert_ignore_def split: prod.splits)

lemma refuses_bind:
  assumes "refuses m" and "\<And>x. refuses (f x)"
  shows "refuses (bindM m f)"
proof -
  have "no_success (fst (bindM m f s))" for s
  proof (cases "m s")
    case (Pair r t)
    have "no_success r" using assms(1) Pair by (metis fst_conv refuses_def)
    then show ?thesis using assms(2) by (cases r) (auto simp: bindM_def Pair refuses_def no_success_def)
  qed
  then show ?thesis by (simp add: refuses_def)
qed

lemma refuses_cases:
  "refuses a \<Longrightarrow> refuses b \<Longrightarrow> refuses (if cond then a else b)"
  "(\<And>y z. refuses (g y z)) \<Longrightarrow> refuses (case p of (y, z) \<Rightarrow> g y z)"
  by (auto split: prod.splits)

lemma refuses_tx: "refuses m \<Longrightarrow> refuses (legacy_tx W i m)"
  by (auto simp: refuses_def legacy_tx_def no_success_basic split: prod.splits sum.splits) (metis fst_conv)

lemmas refusing = refuses_bind refuses_cases refuses_basic no_success_basic no_success_tests no_success_loop refuses_tx

lemma refuses_body: "refuses (legacy_chain_body X cfg rq chain route q)"
  unfolding legacy_chain_body_def legacy_authenticate_def legacy_times_def legacy_nonce_use_def legacy_parameters_def
    legacy_devices_def legacy_records_def legacy_delete_def
  by (intro refusing) simp_all

lemma refuses_run: "refuses (legacy_run X cfg W rq)"
proof -
  have query: "no_success (case r of Inl e \<Rightarrow> Inl (http 400) | Inr q \<Rightarrow> Inr q)" for r :: "query_list res"
    by (auto intro: no_success_basic split: sum.splits)
  have "refuses (legacy_chain_request X cfg W rq q)" for q
    unfolding legacy_chain_request_def by (intro refusing refuses_body) simp_all
  then show ?thesis
    unfolding legacy_run_def legacy_public_rate_def by (intro refusing query) simp_all
qed

lemma answered_200:
  assumes "legacy_handle X cfg W rq s = (Some r, s')" and "lp_status r = 200"
  shows "legacy_run X cfg W rq s = (Inr r, s')"
proof -
  have "no_success (fst (legacy_run X cfg W rq s))" using refuses_run by (simp add: refuses_def)
  then show ?thesis
    using assms by (auto simp: legacy_handle_def no_success_def legacy_response_of_def split: prod.splits sum.splits failure.splits)
qed

lemma deletion_erases:
  assumes "legacy_chain_body X cfg rq g ''delete'' q t = (Inr r, s')"
  shows "legacy_gone g s'"
proof -
  obtain c where c: "find (\<lambda>r. lc_id r = g) (lg_chains t) = Some c" and present: "lg_present t"
    using assms by (auto simp: legacy_chain_body_def bindM_run refuseM_def refuse_def select_opt_def ok_http_def split: if_splits option.splits)
  obtain oid u v where auth: "legacy_authenticate X g rq t = (Inr oid, u)"
      and rated: "to_statusM (in_v3 (rate X cfg ''authorized_signer'' (hash_bytes X (''legacy:'' @ g @ '':'' @ oid)))) u = (Inr (), v)"
      and del: "legacy_delete X g v = (Inr r, s')"
    using assms by (auto simp: legacy_chain_body_def bindM_run refuseM_def refuse_def select_opt_def ok_http_def split: if_splits option.splits)
  let ?same = "\<lambda>s s'. lg_chains s' = lg_chains s \<and> lg_present s' = lg_present s"
  have "?same t u" by (rule keepsD [OF authenticate_steady auth])
  moreover have "?same u v" using rated by (auto simp: to_statusM_def in_v3_def split: prod.splits)
  ultimately have v: "find (\<lambda>r. lc_id r = g) (lg_chains v) = Some c" "lg_present v" using c present by auto
  have "lc_id c = g" using c by (auto simp: find_Some_iff)
  then show ?thesis
    using del v by (auto simp: legacy_delete_def bindM_run delete_rows_def update_rows_def in_v3_def now_def legacy_gone_def
        find_tombstone)
qed

text \<open>
  C35: a deletion that was answered removes every row of the chain, and from then on, whatever
  requests, restorations and transactions of version 3 follow, no row of the chain comes back and no
  request on the chain is answered 200.
\<close>

theorem legacy_deletion_is_final:
  assumes "legacy_handle X cfg W rq s = (Some r, s1)" and "lp_status r = 200" and "names_chain rq g ''delete''"
    and "legacy_later X s1 s2"
  shows "legacy_gone g s2
    \<and> (\<forall>cfg' W' rq' route. names_chain rq' g route \<longrightarrow>
         (case fst (legacy_handle X cfg' W' rq' s2) of None \<Rightarrow> True | Some r' \<Rightarrow> lp_status r' \<noteq> 200))"
proof -
  from assms(3) answered_200 [OF assms(1,2)] obtain t q where "legacy_chain_body X cfg rq g ''delete'' q t = (Inr r, s1)"
    by (rule names_chain_run)
  then have "legacy_gone g s1" by (rule deletion_erases)
  with assms(4) have gone: "legacy_gone g s2" by (rule later_stays_gone)
  have "lp_status r' \<noteq> 200" if on: "names_chain rq' g route" and ans: "fst (legacy_handle X cfg' W' rq' s2) = Some r'"
    for cfg' W' rq' route r'
  proof
    assume ok: "lp_status r' = 200"
    obtain s' where "legacy_handle X cfg' W' rq' s2 = (Some r', s')" using ans by (metis prod.collapse)
    from on answered_200 [OF this ok] obtain t q where
        t: "v2_fixed s2 t" "legacy_chain_body X cfg' rq' g route q t = (Inr r', s')"
      by (rule names_chain_run)
    have "legacy_gone g t" using gone t(1) by (metis legacy_gone_v3 v2_fixed_def)
    from gone_refused [OF this] t(2) show False by simp
  qed
  with gone show ?thesis by (auto split: option.splits)
qed

subsection \<open>Pages of records\<close>

text \<open>The records of a chain after a number, in their order; the number is the primary key.\<close>

definition rows_after :: "legacy_record_row list \<Rightarrow> string \<Rightarrow> nat \<Rightarrow> legacy_record_row list" where
  "rows_after rows chain after = sort_key lr_seq (filter (\<lambda>r. lr_chain r = chain \<and> lr_seq r > after) rows)"

lemma next_row_rows: "next_row rows chain after = (case rows_after rows chain after of [] \<Rightarrow> None | r # _ \<Rightarrow> Some r)"
  by (simp add: next_row_def rows_after_def)

lemma rows_after_step:
  assumes "distinct (map lr_seq rows)" and "next_row rows chain after = Some r"
  shows "rows_after rows chain after = r # rows_after rows chain (lr_seq r)"
proof -
  obtain rs where rs: "rows_after rows chain after = r # rs"
    using assms(2) by (auto simp: next_row_rows split: list.splits)
  let ?f = "filter (\<lambda>r. lr_chain r = chain \<and> lr_seq r > after) rows"
  have "sorted (map lr_seq (r # rs))" using rs sorted_sort_key [of lr_seq ?f] by (simp add: rows_after_def)
  moreover have "distinct (map lr_seq (r # rs))"
  proof -
    have "distinct (map lr_seq ?f)" using assms(1) by (rule distinct_map_filter)
    then have "distinct (map lr_seq (sort_key lr_seq ?f))" by (simp add: distinct_map)
    then show ?thesis using rs by (simp add: rows_after_def)
  qed
  ultimately have later: "lr_seq r < lr_seq x" if "x \<in> set rs" for x
    using that by (auto simp: less_le)
  have "rows_after rows chain (lr_seq r) = filter (\<lambda>x. lr_seq x > lr_seq r) (rows_after rows chain after)"
    using next_row_Some(3) [OF assms(2)]
    by (auto simp: rows_after_def filter_sort [symmetric] intro!: arg_cong [of _ _ "sort_key lr_seq"] filter_cong)
  also have "\<dots> = rs" using later by (simp add: rs filter_id_conv)
  finally show ?thesis by (simp add: rs)
qed

definition row_size :: "ext \<Rightarrow> string \<Rightarrow> legacy_record_row \<Rightarrow> nat" where
  "row_size X chain r = length (canonicalize_json X (legacy_record chain r)) + 1"

lemma loop_page:
  assumes "distinct (map lr_seq rows)" and "records_loop X rows chain limit byte_limit after full acc = Inr (out, nxt, again)"
    and "length acc \<le> limit"
  shows "\<exists>page. rows_after rows chain after = page @ rows_after rows chain nxt \<and> out = acc @ map (legacy_record chain) page
    \<and> (again \<longleftrightarrow> rows_after rows chain nxt \<noteq> []) \<and> length out \<le> limit \<and> (page = [] \<or> full + sum_list (map (row_size X chain) page) \<le> byte_limit)
    \<and> (page = [] \<longrightarrow> nxt = after)"
  using assms
proof (induction X rows chain limit byte_limit after full acc arbitrary: out nxt again rule: records_loop.induct)
  case (1 X rows chain limit byte_limit after full acc)
  show ?case
  proof (cases "next_row rows chain after")
    case None
    then show ?thesis using 1 by (auto simp: records_loop.simps [of X rows] next_row_rows split: list.splits)
  next
    case (Some r)
    note step = rows_after_step [OF 1(2) Some]
    let ?size = "row_size X chain r"
    show ?thesis
    proof (cases "length acc = limit \<or> string_bytes r > byte_limit - full \<or> ?size > byte_limit - full")
      case True
      then show ?thesis using 1(3-) Some step
        by (auto simp: records_loop.simps [of X rows] row_size_def Let_def split: if_splits)
    next
      case False
      then have rec: "records_loop X rows chain limit byte_limit (lr_seq r) (full + ?size) (acc @ [legacy_record chain r])
          = Inr (out, nxt, again)"
        using 1(3) Some by (simp add: records_loop.simps [of X rows] row_size_def Let_def)
      have len: "length (acc @ [legacy_record chain r]) \<le> limit" using False 1(4) by simp
      obtain page where p: "rows_after rows chain (lr_seq r) = page @ rows_after rows chain nxt"
          "out = (acc @ [legacy_record chain r]) @ map (legacy_record chain) page"
          "again \<longleftrightarrow> rows_after rows chain nxt \<noteq> []" "length out \<le> limit"
          "page = [] \<or> full + ?size + sum_list (map (row_size X chain) page) \<le> byte_limit"
        using 1(1) [OF Some _ _ refl refl _ 1(2) rec [unfolded row_size_def] len, folded row_size_def] False by auto
      have "full + ?size \<le> byte_limit" using False by (auto simp: row_size_def)
      then have "full + sum_list (map (row_size X chain) (r # page)) \<le> byte_limit" using p(5) by auto
      moreover have "rows_after rows chain after = (r # page) @ rows_after rows chain nxt" using step p(1) by simp
      ultimately show ?thesis using p(2-4) by (intro exI [of _ "r # page"]) simp
    qed
  qed
qed

text \<open>
  A page of records is the next records of the chain in their order and without a gap, at most as
  many as asked for and within the byte limit; it says that more follow exactly when a record is left.
\<close>

theorem legacy_page_contiguous:
  assumes "distinct (map lr_seq rows)" and "records_loop X rows chain limit byte_limit after 128 [] = Inr (out, nxt, again)"
  shows "\<exists>page. rows_after rows chain after = page @ rows_after rows chain nxt \<and> out = map (legacy_record chain) page
    \<and> (again \<longleftrightarrow> rows_after rows chain nxt \<noteq> []) \<and> length page \<le> limit
    \<and> (page = [] \<or> 128 + sum_list (map (row_size X chain) page) \<le> byte_limit)"
  using loop_page [OF assms] by fastforce

text \<open>A client that asks with the number the last page ended at, until no more records are announced.\<close>

primrec legacy_pages :: "nat \<Rightarrow> ext \<Rightarrow> legacy_record_row list \<Rightarrow> string \<Rightarrow> nat \<Rightarrow> nat \<Rightarrow> string \<Rightarrow> json list option" where
  "legacy_pages 0 X rows chain limit byte_limit cur = None"
| "legacy_pages (Suc n) X rows chain limit byte_limit cur =
     (case legacy_decimal cur of
        Inl e \<Rightarrow> None
      | Inr after \<Rightarrow>
          (case records_loop X rows chain limit byte_limit after 128 [] of
             Inl e \<Rightarrow> None
           | Inr (out, nxt, again) \<Rightarrow>
               if again then map_option (\<lambda>rest. out @ rest) (legacy_pages n X rows chain limit byte_limit (show_nat nxt))
               else Some out))"

definition row_fits :: "ext \<Rightarrow> string \<Rightarrow> nat \<Rightarrow> legacy_record_row \<Rightarrow> bool" where
  "row_fits X chain byte_limit r \<longleftrightarrow> string_bytes r \<le> byte_limit - 128 \<and> row_size X chain r \<le> byte_limit - 128 \<and> lr_seq r \<le> MAX_INTEGER"

lemma loop_continues: "acc \<noteq> [] \<Longrightarrow> \<exists>t. records_loop X rows chain limit byte_limit after full acc = Inr t"
proof (induction X rows chain limit byte_limit after full acc rule: records_loop.induct)
  case (1 X rows chain limit byte_limit after full acc)
  then show ?case by (subst records_loop.simps) (auto simp: Let_def split: option.splits)
qed

lemma legacy_decimal_show: "n \<le> MAX_INTEGER \<Longrightarrow> legacy_decimal (show_nat n) = Inr n"
  using show_nat_digits [of n] by (simp add: legacy_decimal_def ok_http_def parse_u64_show_nat MAX_INTEGER_def)

lemma page_progress:
  assumes "distinct (map lr_seq rows)" and "1 \<le> limit"
    and fits: "\<And>r. r \<in> set rows \<Longrightarrow> lr_chain r = chain \<Longrightarrow> row_fits X chain byte_limit r"
  obtains page nxt again where "records_loop X rows chain limit byte_limit after 128 [] = Inr (map (legacy_record chain) page, nxt, again)"
    "rows_after rows chain after = page @ rows_after rows chain nxt" "again \<longleftrightarrow> rows_after rows chain nxt \<noteq> []"
    "rows_after rows chain after \<noteq> [] \<Longrightarrow> page \<noteq> []"
proof -
  have "\<exists>t. records_loop X rows chain limit byte_limit after 128 [] = Inr t
      \<and> (rows_after rows chain after \<noteq> [] \<longrightarrow> fst t \<noteq> [])"
  proof (cases "next_row rows chain after")
    case None
    then show ?thesis by (auto simp: records_loop.simps [of X rows] next_row_rows split: list.splits)
  next
    case (Some r)
    have "row_fits X chain byte_limit r" by (rule fits [OF next_row_Some(1,2) [OF Some]])
    then have rec: "records_loop X rows chain limit byte_limit after 128 [] =
        records_loop X rows chain limit byte_limit (lr_seq r) (128 + row_size X chain r) [legacy_record chain r]"
      using Some assms(2) by (subst records_loop.simps) (simp add: row_fits_def row_size_def Let_def)
    obtain out nxt again where loop: "records_loop X rows chain limit byte_limit (lr_seq r) (128 + row_size X chain r)
        [legacy_record chain r] = Inr (out, nxt, again)"
      using loop_continues [of "[legacy_record chain r]"] by (metis list.distinct(1) prod_cases3)
    from loop_page [OF assms(1) loop] assms(2) have "out \<noteq> []" by auto
    with rec loop show ?thesis by simp
  qed
  then obtain out nxt again where loop: "records_loop X rows chain limit byte_limit after 128 [] = Inr (out, nxt, again)"
      and some: "rows_after rows chain after \<noteq> [] \<longrightarrow> out \<noteq> []"
    by (metis fst_conv prod_cases3)
  from loop_page [OF assms(1) loop] loop some that show ?thesis by fastforce
qed

text \<open>
  C36: a client that follows the pages reaches the end, after at most one page per record and one more,
  and has then received every record of the chain after its starting point, each once and in order,
  provided that each record alone fits into a page.
\<close>

theorem legacy_pages_reach_end:
  assumes "distinct (map lr_seq rows)" and "1 \<le> limit" and "after \<le> MAX_INTEGER"
    and "\<forall>r \<in> set rows. lr_chain r = chain \<longrightarrow> row_fits X chain byte_limit r"
    and "length (rows_after rows chain after) < fuel"
  shows "legacy_pages fuel X rows chain limit byte_limit (show_nat after)
    = Some (map (legacy_record chain) (rows_after rows chain after))"
  using assms(3,5)
proof (induction fuel arbitrary: after)
  case 0
  then show ?case by simp
next
  case (Suc fuel)
  obtain page nxt again where loop: "records_loop X rows chain limit byte_limit after 128 [] = Inr (map (legacy_record chain) page, nxt, again)"
      and rows: "rows_after rows chain after = page @ rows_after rows chain nxt" "again \<longleftrightarrow> rows_after rows chain nxt \<noteq> []"
      "rows_after rows chain after \<noteq> [] \<Longrightarrow> page \<noteq> []"
    using page_progress [OF assms(1,2), of chain X byte_limit after] assms(4) by metis
  show ?case
  proof (cases "rows_after rows chain nxt")
    case Nil
    then show ?thesis using loop rows Suc.prems(1) by (simp add: legacy_decimal_show)
  next
    case (Cons r rs)
    have "next_row rows chain nxt = Some r" by (simp add: next_row_rows Cons)
    from next_row_Some [OF this] assms(4) have "nxt \<le> MAX_INTEGER" by (force simp: row_fits_def)
    moreover have "length (rows_after rows chain nxt) < fuel" using Suc.prems(2) rows(1,3) Cons by (cases page) auto
    ultimately have "legacy_pages fuel X rows chain limit byte_limit (show_nat nxt) = Some (map (legacy_record chain) (rows_after rows chain nxt))"
      by (rule Suc.IH)
    then show ?thesis using loop rows Cons Suc.prems(1) by (simp add: legacy_decimal_show)
  qed
qed

subsection \<open>Restored parameters\<close>

text \<open>
  C37: after a successful restoration the parameters are served exactly as they were given, and no
  evidence that was there before has changed.
\<close>

theorem retained_parameters_served:
  assumes "retain_parameters X W raw s = (Inr u, s')"
  shows "\<exists>v chain. parse X raw = Inr v \<and> jget v ''chain_id'' = JStr chain
    \<and> legacy_parameters X chain s' = (Inr (legacy_response_of X 200 (Some v)), s')
    \<and> take (length (lg_evidence s)) (lg_evidence s') = lg_evidence s"
proof -
  obtain v chain where v: "parse X raw = Inr v" and chk: "check_parameters X v = Inr chain" and body: "retain_body X v chain s = (Inr (), s')"
    using assms by (auto simp: retain_parameters_def bindM_run split: sum.splits if_splits prod.splits)
  have c: "jget v ''chain_id'' = JStr chain" "jget v ''protocol_version'' = JStr ''2.1''"
      "check_binary X v ''signature'' = Inr ()"
    using chk by (auto simp: check_parameters_def as_str_def split: json.splits)
  have sg: "\<exists>t. as_str (jget v ''signature'') = Some t \<and> decode X t (Some 64) \<noteq> None"
    using c(3) by (auto simp: check_binary_def)
  obtain saved where saved: "find (\<lambda>r. le_chain r = chain) (lg_evidence s') = Some saved" "parse X (le_text saved) = Inr v"
    and kept: "take (length (lg_evidence s)) (lg_evidence s') = lg_evidence s"
    using body by (auto simp: retain_body_def bindM_run Let_def insert_ignore_def select_one_def map_errM_def
        split: if_splits option.splits)
  have "legacy_parameters X chain s' = (Inr (legacy_response_of X 200 (Some v)), s')"
    using saved c(1,2) sg by (auto simp: legacy_parameters_def bindM_run select_opt_def check_original_parameters_def ok_http_def
        parsed_def refuse_def)
  with v c(1) kept show ?thesis by blast
qed

text \<open>Without a limit a client asks for 200 records, which a relay with a smaller page limit refuses.\<close>

theorem legacy_default_limit_refused:
  assumes "query q ''limit'' = None" and "maximum < 200"
  shows "fst (legacy_records X chain q maximum byte_limit s) = Inl (http 400)"
proof -
  let ?after = "legacy_decimal (case query q ''cursor'' of Some t \<Rightarrow> t | None \<Rightarrow>
        (case query q ''after_seq'' of Some t \<Rightarrow> t | None \<Rightarrow> ''0''))"
  have dec: "legacy_decimal ''200'' = Inr 200" by code_simp
  have "?after = Inl (http 400) \<or> (\<exists>n. ?after = Inr n)"
    by (auto simp: legacy_decimal_def ok_http_def split: option.splits)
  then show ?thesis
    using assms dec by (elim disjE exE) (simp_all add: legacy_records_def bindM_def refuseM_def refuse_def)
qed

subsection \<open>Examples\<close>

definition demo_legacy_token :: raw where
  "demo_legacy_token = RObj [(''v'', RU64 1), (''chain_id'', RStr ''K''), (''device_id'', RStr ''d''), (''method'', RStr ''DELETE''),
     (''path'', RStr ''/pallasync/v2/chains/K''), (''query'', RStr []), (''body_sha256'', RStr ''K''), (''issued_at_ms'', RU64 0),
     (''expires_at_ms'', RU64 1000000), (''nonce'', RStr ''0123456789abcdef''), (''signature'', RStr ''S'')]"

definition demo_legacy_serde :: "string \<Rightarrow> raw option" where "demo_legacy_serde t = Some demo_legacy_token"

definition demo_legacy_ext :: ext where "demo_legacy_ext = demo_fast\<lparr>x_serde := demo_legacy_serde\<rparr>"

definition demo_legacy_cfg :: config where
  "demo_legacy_cfg = demo_cfg\<lparr>cfg_privacy := jobj [(''limits'', jobj [(''max_request_bytes'', JInt 65536), (''page_limit'', JInt 100)]),
     (''rate_limits'', jobj [(''authorized_signer'', jobj [(''burst'', JInt 5), (''requests_per_minute'', JInt 60)])])]\<rparr>"

definition demo_legacy_row :: "nat \<Rightarrow> legacy_record_row" where
  "demo_legacy_row n = \<lparr>lr_chain = ''K'', lr_id = show_nat n, lr_version = ''2.1'', lr_epoch = 0, lr_collection = ''c'', lr_action = ''put'',
     lr_payload = ''p'', lr_nonce = ''n'', lr_device = ''d'', lr_lamport = 0, lr_created = 0, lr_signature = ''S'', lr_seq = n\<rparr>"

definition demo_legacy :: legacy where
  "demo_legacy = \<lparr>lg_present = True,
     lg_chains = [\<lparr>lc_id = ''K'', lc_salt = ''K'', lc_admin_key = ''K'', lc_created = 5, lc_creator = ''d'', lc_creator_key = ''K'',
        lc_deleted = None\<rparr>],
     lg_devices = [\<lparr>ld_chain = ''K'', ld_id = ''d'', ld_key = ''K'', ld_name = ''n'', ld_name_nonce = ''n'', ld_status = ''active'',
        ld_created = 0, ld_updated = 0, ld_signature = ''S''\<rparr>],
     lg_records = [demo_legacy_row 1, demo_legacy_row 3], lg_nonces = [], lg_cursors = [], lg_evidence = [], lg_v3 = empty_db\<rparr>"

definition demo_legacy_rq :: http_request where
  "demo_legacy_rq = \<lparr>hq_method = ''DELETE'', hq_path = ''/pallasync/v2/chains/K'', hq_query = None, hq_encoding = None,
     hq_content_type = None, hq_authorization = Some (Some ''PallaSync ''), hq_body = [], hq_timeout = False, hq_source = ''local''\<rparr>"

definition demo_quiet :: web where
  "demo_quiet = \<lparr>w_mime = (\<lambda>t. None), w_begin_fails = (\<lambda>i. False), w_commit_fails = (\<lambda>i. False), w_rollback_fails = False,
     w_uploads = no_faults, w_busy = False\<rparr>"

theorem legacy_deletion_is_final_witness:
  "\<exists>r s1. legacy_handle demo_legacy_ext demo_legacy_cfg demo_quiet demo_legacy_rq demo_legacy = (Some r, s1) \<and> lp_status r = 200
     \<and> legacy_gone ''K'' s1"
proof -
  obtain o1 s1 where run: "legacy_handle demo_legacy_ext demo_legacy_cfg demo_quiet demo_legacy_rq demo_legacy = (o1, s1)" by fastforce
  have "map_option lp_status (fst (legacy_handle demo_legacy_ext demo_legacy_cfg demo_quiet demo_legacy_rq demo_legacy)) = Some 200"
    by code_simp
  then obtain r where r: "o1 = Some r" "lp_status r = 200" using run by auto
  have "names_chain demo_legacy_rq ''K'' ''delete''" by code_simp
  from legacy_deletion_is_final [OF run [unfolded r(1)] r(2) this later_refl] run r show ?thesis by blast
qed

theorem legacy_page_contiguous_witness:
  "\<exists>out nxt again page. records_loop demo_fast (lg_records demo_legacy) ''K'' 1 1000 0 128 [] = Inr (out, nxt, again)
     \<and> rows_after (lg_records demo_legacy) ''K'' 0 = page @ rows_after (lg_records demo_legacy) ''K'' nxt
     \<and> out = map (legacy_record ''K'') page"
proof -
  have d: "distinct (map lr_seq (lg_records demo_legacy))" by code_simp
  have "is_ok (records_loop demo_fast (lg_records demo_legacy) ''K'' 1 1000 0 128 [])" by code_simp
  then obtain out nxt again where l: "records_loop demo_fast (lg_records demo_legacy) ''K'' 1 1000 0 128 [] = Inr (out, nxt, again)"
    unfolding is_ok_iff by (metis prod.collapse)
  show ?thesis using legacy_page_contiguous [OF d l] l by blast
qed

theorem legacy_pages_reach_end_witness:
  "legacy_pages 3 demo_fast (lg_records demo_legacy) ''K'' 1 1000 (show_nat 0)
     = Some (map (legacy_record ''K'') (rows_after (lg_records demo_legacy) ''K'' 0))"
proof (rule legacy_pages_reach_end)
  show "distinct (map lr_seq (lg_records demo_legacy))" by code_simp
  show "\<forall>r \<in> set (lg_records demo_legacy). lr_chain r = ''K'' \<longrightarrow> row_fits demo_fast ''K'' 1000 r" by code_simp
  show "length (rows_after (lg_records demo_legacy) ''K'' 0) < 3" by code_simp
qed simp_all

definition demo_parameters :: raw where
  "demo_parameters = RObj [(''protocol_version'', RStr ''2.1''), (''chain_id'', RStr ''K''), (''chain_salt'', RStr ''K''),
     (''created_at_ms'', RU64 5), (''creator_device_id'', RStr ''d''), (''creator_public_key'', RStr ''K''),
     (''admin_public_key'', RStr ''K''), (''signature'', RStr ''S'')]"

definition demo_parameters_serde :: "string \<Rightarrow> raw option" where "demo_parameters_serde t = Some demo_parameters"

theorem retained_parameters_served_witness:
  "\<exists>u s' v. retain_parameters (demo_fast\<lparr>x_serde := demo_parameters_serde\<rparr>) demo_quiet [] demo_legacy = (Inr u, s')
     \<and> legacy_parameters (demo_fast\<lparr>x_serde := demo_parameters_serde\<rparr>) ''K'' s'
       = (Inr (legacy_response_of (demo_fast\<lparr>x_serde := demo_parameters_serde\<rparr>) 200 (Some v)), s')"
proof -
  let ?X = "demo_fast\<lparr>x_serde := demo_parameters_serde\<rparr>"
  have "is_ok (fst (retain_parameters ?X demo_quiet [] demo_legacy))" by code_simp
  then obtain u s' where run: "retain_parameters ?X demo_quiet [] demo_legacy = (Inr u, s')"
    by (metis is_ok_iff prod.collapse)
  have "map_option (\<lambda>v. jget v ''chain_id'') (case parse ?X [] of Inl e \<Rightarrow> None | Inr v \<Rightarrow> Some v) = Some (JStr ''K'')" by code_simp
  with retained_parameters_served [OF run] run show ?thesis by (auto split: sum.splits)
qed

theorem legacy_default_limit_refused_witness:
  "fst (legacy_records demo_fast ''K'' [] 100 65536 demo_legacy) = Inl (http 400)"
  by (rule legacy_default_limit_refused) (simp_all add: query_def)

end
