(* ===== verification/Relay_Service.thy ===== *)
theory Relay_Service
  imports Relay_System Relay_Operator Relay_Legacy_Laws
begin

text \<open>
  The service as it is deployed: \<^verbatim>\<open>src/lib.rs\<close> and the head of \<^verbatim>\<open>handle\<close> choose between the
  two protocols over one database file, \<^verbatim>\<open>src/db/mod.rs\<close> and \<^verbatim>\<open>src/main.rs\<close> open the file, start the
  process and run the maintenance every second, and the operator's commands work on the same file.
\<close>

subsection \<open>One file, two protocols\<close>

text \<open>\<open>sv_file\<close>: the database file with the tables of both protocols; \<open>sv_transfers\<close>: the permits of the process.\<close>

record service =
  sv_file :: legacy
  sv_transfers :: "(string \<times> nat) list"

datatype reply = Old legacy_response | New response

definition app_of :: "service \<Rightarrow> app" where
  "app_of s = \<lparr>ap_db = lg_v3 (sv_file s), ap_transfers = sv_transfers s\<rparr>"

definition with_app :: "service \<Rightarrow> app \<Rightarrow> service" where
  "with_app s ap = \<lparr>sv_file = (sv_file s)\<lparr>lg_v3 := ap_db ap\<rparr>, sv_transfers = ap_transfers ap\<rparr>"

definition serve_http :: "ext \<Rightarrow> config \<Rightarrow> web \<Rightarrow> http_request \<Rightarrow> service \<Rightarrow> reply option \<times> service" where
  "serve_http X cfg W rq s =
     (if is_legacy (hq_path rq)
      then case legacy_handle X cfg W rq (sv_file s) of (r, f) \<Rightarrow> (map_option Old r, s\<lparr>sv_file := f\<rparr>)
      else case handle X cfg W rq (app_of s) of (r, ap) \<Rightarrow> (map_option New r, with_app s ap))"

subsection \<open>Opening the file\<close>

definition database_url :: "(string \<Rightarrow> string option) \<Rightarrow> string" where
  "database_url env = (case env ''DATABASE_URL'' of None \<Rightarrow> ''sqlite:pallasync.sqlite'' | Some u \<Rightarrow> u)"

text \<open>\<^verbatim>\<open>contains(":memory:")\<close>, the source's only test for a database that is not in a file.\<close>

definition in_memory :: "string \<Rightarrow> bool" where
  "in_memory url \<longleftrightarrow> list_ex (\<lambda>t. strip_prefix '':memory:'' t \<noteq> None) (suffixes url)"

text \<open>
  The path without the scheme and the parameters, made absolute with the current directory and then
  resolved (\<^verbatim>\<open>canonicalize\<close>, which fails for a file that is not there).
\<close>

definition url_path_of :: "string \<Rightarrow> string" where
  "url_path_of url =
     (let rest = (case strip_prefix ''sqlite://'' url of Some t \<Rightarrow> t
        | None \<Rightarrow> (case strip_prefix ''sqlite:'' url of Some t \<Rightarrow> t | None \<Rightarrow> url))
      in takeWhile (\<lambda>c. c \<noteq> CHR ''?'') rest)"

definition resolved_path :: "string \<Rightarrow> (string \<Rightarrow> string option) \<Rightarrow> string \<Rightarrow> string" where
  "resolved_path cwd canonical url =
     (if in_memory url then '':memory:''
      else let path = url_path_of url; path = (if strip_prefix ''/'' path \<noteq> None then path else join_path cwd path)
        in (case canonical path of None \<Rightarrow> path | Some p \<Rightarrow> p))"

definition max_connections :: "string \<Rightarrow> nat" where
  "max_connections url = (if in_memory url then 1 else 5)"

subsection \<open>The process\<close>

text \<open>
  What the start of the process finds: the environment, the files, the clock, the working directory; the
  error's text when SQLite does not open the file, or the address is not one or cannot be bound.
\<close>

record surroundings =
  su_env :: "string \<Rightarrow> string option"
  su_files :: "string \<Rightarrow> string + bytes"
  su_now :: nat
  su_cwd :: string
  su_canonical :: "string \<Rightarrow> string option"
  su_open_error :: "string \<Rightarrow> string option"
  su_bind_error :: "string \<Rightarrow> string option"
  su_busy :: bool

definition io_check :: "string option \<Rightarrow> ('s, unit) M" where
  "io_check e = (case e of None \<Rightarrow> ret () | Some t \<Rightarrow> lift (Inl (err t)))"

definition NOT_PERSISTENT :: string where
  "NOT_PERSISTENT = ''Public use requires persistent storage ('' @ [CHR 0xC2, CHR 0xA7] @ ''17.1)''"

definition start_process :: "ext \<Rightarrow> config_ext \<Rightarrow> surroundings \<Rightarrow> config ltx" where
  "start_process X Y u =
     bindM (lift (from_env X Y (su_env u) (su_files u) (su_now u))) (\<lambda>cfg.
     let url = database_url (su_env u) in
     bindM (io_check (su_open_error u url)) (\<lambda>_.
     bindM (rejectM (resolved_path (su_cwd u) (su_canonical u) url = '':memory:'') NOT_PERSISTENT) (\<lambda>_.
     bindM (in_v3 (app_new X cfg (su_busy u))) (\<lambda>_.
     bindM (io_check (su_bind_error u (case su_env u ''PALLASYNC_BIND_ADDR'' of None \<Rightarrow> ''127.0.0.1:3000'' | Some t \<Rightarrow> t))) (\<lambda>_.
     ret cfg)))))"

text \<open>
  One tick of the task: completion of deletions, then retention, whatever the first returned; a panic
  ends the task. The first component says whether it goes on.
\<close>

definition maintenance_tick :: "ext \<Rightarrow> config \<Rightarrow> bool \<Rightarrow> db \<Rightarrow> bool \<times> db" where
  "maintenance_tick X cfg busy st =
     (case complete_deletions X cfg busy st of
        (Inl Panic, st1) \<Rightarrow> (False, st1)
      | (_, st1) \<Rightarrow> (case maintenance X cfg st1 of (r, st2) \<Rightarrow> (r \<noteq> Inl Panic, st2)))"

subsection \<open>Steps\<close>

text \<open>
  A request, the end of a transfer, a tick, a start (which takes new permits) and a command of the operator.
  The steps of version 3 are themselves sequences of transactions (\<open>relay_run\<close>); which responses hold a
  permit is the concern of \<open>serving\<close>.
\<close>

inductive service_step :: "ext \<Rightarrow> config_ext \<Rightarrow> service \<Rightarrow> service \<Rightarrow> bool" for X Y where
  step_request: "serve_http X cfg W rq s = (r, s') \<Longrightarrow> service_step X Y s s'"
| step_sent: "service_step X Y s (with_app s (body_sent ci (app_of s)))"
| step_tick: "maintenance_tick X cfg busy (lg_v3 (sv_file s)) = (on, st) \<Longrightarrow>
    service_step X Y s (s\<lparr>sv_file := (sv_file s)\<lparr>lg_v3 := st\<rparr>\<rparr>)"
| step_start: "start_process X Y u (sv_file s) = (r, f) \<Longrightarrow> service_step X Y s \<lparr>sv_file = f, sv_transfers = []\<rparr>"
| step_operator: "operator_run X Y z W args (sv_file s) = (r, f) \<Longrightarrow> service_step X Y s (s\<lparr>sv_file := f\<rparr>)"

inductive service_run :: "ext \<Rightarrow> config_ext \<Rightarrow> service \<Rightarrow> service \<Rightarrow> bool" for X Y where
  service_start: "service_run X Y s s"
| service_more: "service_run X Y s s1 \<Longrightarrow> service_step X Y s1 s2 \<Longrightarrow> service_run X Y s s2"

text \<open>
  What every transaction of version 3 keeps and the statements of the legacy endpoints keep, every step
  of the service keeps.
\<close>

locale service_order = legacy_requests R chain
  for R :: "legacy \<Rightarrow> legacy \<Rightarrow> bool" and chain :: string +
  fixes X :: ext
  assumes v3_run: "relay_run X (lg_v3 f) st \<Longrightarrow> R f (f\<lparr>lg_v3 := st\<rparr>)"
    and restoring: "R f (snd (retain_parameters X W raw f))"
begin

lemma tick_run: "relay_run X st (snd (maintenance_tick X cfg busy st))"
proof -
  obtain r st1 where c: "complete_deletions X cfg busy st = (r, st1)" by fastforce
  obtain r2 st2 where m: "maintenance X cfg st1 = (r2, st2)" by fastforce
  have "relay_run X st st1" by (rule keepsD [OF run_completion c])
  moreover have "relay_run X st1 st2" by (rule keepsD [OF run_maintenance m])
  ultimately show ?thesis using run.order_trans
    by (auto simp: maintenance_tick_def c m split: sum.splits failure.splits)
qed

lemma start_keeps: "keeps R (start_process X Y u)"
proof -
  have "keeps R (in_v3 (app_new X cfg busy))" for cfg busy
  proof -
    have "relay_run X st (snd (app_new X cfg busy st))" for st
      using run_app_new by (simp add: keeps_def)
    then show ?thesis using v3_run by (auto simp: keeps_def in_v3_def split: prod.splits) (metis snd_conv)
  qed
  then show ?thesis
    unfolding start_process_def io_check_def Let_def by (intro keeps_bind keeps_cases basic_steps)
qed

lemma operator_keeps: "keeps R (operator_run X Y z W args)"
proof -
  have restored: "keeps R (retain_parameters X W b)" for b using restoring by (simp add: keeps_def)
  have words: "keeps R a \<Longrightarrow> (\<And>y ys. keeps R (b y ys)) \<Longrightarrow> keeps R (case xs of [] \<Rightarrow> a | y # ys \<Rightarrow> b y ys)"
    for a and b :: "string \<Rightarrow> string list \<Rightarrow> report ltx" and xs
    by (cases xs) auto
  show ?thesis unfolding operator_run_def retain_command_def
    by (intro words keeps_bind keeps_cases basic_steps restored)
qed

lemma step_kept: "service_step X Y s s' \<Longrightarrow> R (sv_file s) (sv_file s')"
proof (induction rule: service_step.induct)
  case (step_request cfg W rq s r s')
  have "R (sv_file s) ((sv_file s)\<lparr>lg_v3 := ap_db (snd (handle X cfg W rq (app_of s)))\<rparr>)"
    by (rule v3_run) (use run.handle_keeps [OF run_clock(1) run_prepare run_serve, of X "app_of s" cfg W rq] in \<open>simp add: app_of_def\<close>)
  with step_request legacy_handle_keeps [of "sv_file s" _ cfg W rq] show ?case
    by (auto simp: serve_http_def with_app_def split: if_splits prod.splits) (metis snd_conv)+
next
  case (step_tick cfg busy s on st)
  then show ?case using v3_run [OF tick_run [of "lg_v3 (sv_file s)" cfg busy]] by simp
next
  case (step_start u s r f)
  then show ?case using keepsD [OF start_keeps] by auto
next
  case (step_operator z W args s r f)
  then show ?case using keepsD [OF operator_keeps] by auto
qed (simp add: with_app_def body_sent_def app_of_def set_permits_def order_refl)

lemma service_kept: "service_run X Y s s' \<Longrightarrow> R (sv_file s) (sv_file s')"
  by (induction rule: service_run.induct) (auto intro: order_refl order_trans step_kept)

end

subsection \<open>What the service keeps\<close>

lemma evident_order: "legacy_order (\<lambda>f f'. evidence_kept (lg_v3 f) (lg_v3 f')) chain"
  by unfold_locales (auto simp: evidence_kept_def undo_def rollback_to_def intro: prefix_order.trans)

interpretation evident: service_order "\<lambda>f f'. evidence_kept (lg_v3 f) (lg_v3 f')" "[]" X for X
  using evident_order [of "[]"] unfolding service_order_def service_order_axioms_def legacy_requests_def legacy_requests_axioms_def
  by (auto simp: retain_v3 evidence.order_refl intro: legacy_order.keeps_legacy_body evident_order evidence.run_kept)

lemma bound_order: "legacy_order (\<lambda>f f'. operator_kept (lg_v3 f) (lg_v3 f')) chain"
  by unfold_locales (auto simp: undo_def rollback_to_def operator_kept_def split: option.splits)

interpretation bound: service_order "\<lambda>f f'. operator_kept (lg_v3 f) (lg_v3 f')" "[]" X for X
  using bound_order [of "[]"] unfolding service_order_def service_order_axioms_def legacy_requests_def legacy_requests_axioms_def
  by (auto simp: retain_v3 operators.order_refl intro: legacy_order.keeps_legacy_body bound_order operators.run_kept)

interpretation erased: service_order "stays_gone g" "CHR ''x'' # g" X for g X
  by unfold_locales (auto simp: stays_gone_def retain_stays_gone [unfolded stays_gone_def])

text \<open>
  C31: whatever sequence of requests of both protocols, ticks of the maintenance, starts and
  commands of the operator works on the file, the evidence of version 3 is only added to, the file stays
  with its operator, and a deleted legacy chain stays erased.
\<close>

theorem service_keeps:
  assumes "service_run X Y s s'"
  shows "evidence_kept (lg_v3 (sv_file s)) (lg_v3 (sv_file s')) \<and> operator_kept (lg_v3 (sv_file s)) (lg_v3 (sv_file s'))
    \<and> (legacy_gone g (sv_file s) \<longrightarrow> legacy_gone g (sv_file s'))"
  using evident.service_kept [OF assms] bound.service_kept [OF assms] erased.service_kept [OF assms, of g]
  by (simp add: stays_gone_def)

lemma app_new_split:
  assumes "app_new X cfg busy st = (Inr (), st')"
  obtains st1 where "transaction (bindM (start_barrier X cfg) (\<lambda>_. bind_operator X cfg)) st = (Inr (), st1)" "relay_run X st1 st'"
proof -
  let ?notices = "bindM (gets (\<lambda>st. filter (\<lambda>ci. ci \<notin> set (map d_chain (db_deletions st))) (map ch_id (db_chains st))))
      (\<lambda>ids. foldM (republish X cfg) ids ())"
  obtain st1 st2 where run: "transaction (bindM (start_barrier X cfg) (\<lambda>_. bind_operator X cfg)) st = (Inr (), st1)"
      "complete_deletions X cfg busy st1 = (Inr (), st2)" "transaction ?notices st2 = (Inr (), st')"
    using assms by (auto simp: app_new_def bindM_run)
  from run(3) have "relay_tx X st2 st'"
    by (auto simp: transaction_def bindM_run gets_def split: prod.splits sum.splits intro: tx_republish)
  with keepsD [OF run_completion run(2)] have "relay_run X st1 st'" by (rule run_step)
  with run(1) show thesis by (rule that)
qed

lemma bound_by:
  assumes "transaction (bindM (start_barrier X cfg) (\<lambda>_. bind_operator X cfg)) st = (Inr (), st1)"
  obtains row where "db_operator st1 = Some (disclosed X cfg row)"
    "\<not> (case row of None \<Rightarrow> False | Some r \<Rightarrow> operator_conflict X cfg r)"
proof -
  from assms have "\<exists>row. db_operator st1 = Some (disclosed X cfg row) \<and> \<not> (case row of None \<Rightarrow> False | Some r \<Rightarrow> operator_conflict X cfg r)"
    by (auto simp: transaction_def bindM_run bind_operator_def modify_def split: prod.splits sum.splits)
  then show thesis using that by blast
qed

text \<open>
  C32: a process that starts has a configuration that \<^verbatim>\<open>from_env\<close> accepted, the URL of its database
  does not contain the text \<^verbatim>\<open>:memory:\<close>, and the database is bound to the origin and relay key of that
  configuration; the tables of version 2 are as they were. (The text of the URL is all the source looks
  at: SQLite also keeps a database in memory for a URL with the parameter \<^verbatim>\<open>mode=memory\<close>, which is not refused.)
\<close>

theorem start_process_binds:
  assumes "start_process X Y u f = (Inr cfg, f')"
  shows "from_env X Y (su_env u) (su_files u) (su_now u) = Inr cfg \<and> \<not> in_memory (database_url (su_env u))
    \<and> (\<exists>r. db_operator (lg_v3 f') = Some r \<and> op_origin r = cfg_origin cfg \<and> op_key_id r = cfg_key_id cfg)
    \<and> f'\<lparr>lg_v3 := lg_v3 f\<rparr> = f"
proof -
  obtain st' where env: "from_env X Y (su_env u) (su_files u) (su_now u) = Inr cfg"
    and memory: "resolved_path (su_cwd u) (su_canonical u) (database_url (su_env u)) \<noteq> '':memory:''"
    and new: "app_new X cfg (su_busy u) (lg_v3 f) = (Inr (), st')" and f': "f' = f\<lparr>lg_v3 := st'\<rparr>"
    using assms by (auto simp: start_process_def bindM_run io_check_def in_v3_def Let_def split: option.splits prod.splits)
  obtain st1 where bind: "transaction (bindM (start_barrier X cfg) (\<lambda>_. bind_operator X cfg)) (lg_v3 f) = (Inr (), st1)"
    and rest: "relay_run X st1 st'"
    using new by (rule app_new_split)
  from bind obtain row where "db_operator st1 = Some (disclosed X cfg row)"
      "\<not> (case row of None \<Rightarrow> False | Some r \<Rightarrow> operator_conflict X cfg r)"
    by (rule bound_by)
  moreover have "operator_kept st1 st'" by (rule operators.run_kept [OF rest])
  ultimately have "\<exists>r. db_operator st' = Some r \<and> op_origin r = cfg_origin cfg \<and> op_key_id r = cfg_key_id cfg"
    by (auto simp: operator_kept_def disclosed_def operator_conflict_def Let_def split: option.splits)
  then show ?thesis using env memory by (auto simp: f' resolved_path_def split: if_splits)
qed

subsection \<open>Examples\<close>

theorem service_keeps_witness:
  "\<exists>s'. service_run demo_legacy_ext demo_config_ext
       \<lparr>sv_file = snd (legacy_handle demo_legacy_ext demo_legacy_cfg demo_quiet demo_legacy_rq demo_legacy), sv_transfers = []\<rparr> s'
     \<and> legacy_gone ''K'' (sv_file s')"
proof -
  let ?s = "\<lparr>sv_file = snd (legacy_handle demo_legacy_ext demo_legacy_cfg demo_quiet demo_legacy_rq demo_legacy), sv_transfers = []\<rparr>"
  have run: "service_run demo_legacy_ext demo_config_ext ?s (snd (serve_http demo_legacy_ext demo_legacy_cfg demo_quiet demo_legacy_rq ?s))"
    by (rule service_more [OF service_start step_request [OF surjective_pairing]])
  have "legacy_gone ''K'' (snd (legacy_handle demo_legacy_ext demo_legacy_cfg demo_quiet demo_legacy_rq demo_legacy))" by code_simp
  with service_keeps [OF run, of "''K''"] run show ?thesis by auto
qed

definition demo_start_env :: "string \<Rightarrow> string option" where
  "demo_start_env name = (if name = ''DATABASE_URL'' then Some ''sqlite:///data/relay'' else demo_env name)"

definition demo_surroundings :: surroundings where
  "demo_surroundings = \<lparr>su_env = demo_start_env, su_files = z_files demo_later_operator, su_now = 9, su_cwd = ''/'', su_canonical = Some,
     su_open_error = (\<lambda>t. None), su_bind_error = (\<lambda>t. None), su_busy = False\<rparr>"

lemma demo_environment: "from_env demo_sign_ext demo_config_ext demo_start_env (z_files demo_later_operator) 9 = Inr demo_signed_config"
proof -
  have seed: "decode_seed demo_sign_ext ''K'' = Inr demo_key" by code_simp
  have vars: "demo_start_env SEED_VAR = Some ''K''" "demo_start_env ''PALLASYNC_PRIVACY_MARKDOWN'' = Some ''policy/privacy.md''"
    "demo_start_env ''PALLASYNC_PRIVACY_JSON'' = Some ''policy/privacy.json''" "demo_start_env ''PALLASYNC_QUOTA_BYTES'' = None"
    "demo_start_env ''PALLASYNC_SHUTDOWN_AT_MS'' = None" "demo_start_env ''PALLASYNC_MIGRATION_ORIGIN'' = None"
    "demo_start_env ''PALLASYNC_STOP_WRITES'' = None" by code_simp+
  have files: "z_files demo_later_operator ''policy/privacy.md'' = Inr demo_notice"
    "z_files demo_later_operator ''policy/privacy.json'' = Inr ''x''"
    by (simp_all add: demo_later_operator_def)
  have "length demo_notice \<le> 1048576" "utf8_ok demo_notice" "\<not> starts_with_bom demo_notice" by code_simp+
  then have "config_new demo_sign_ext demo_config_ext demo_key demo_notice (jobj demo_disclosure) None 9 = Inr demo_signed_config"
    unfolding demo_sign_ext_def demo_signed_config_def by (rule demo_policy_written)
  moreover have "with_notice demo_config_ext demo_start_env demo_signed_config = Inr demo_signed_config"
    by (simp add: with_notice_def number_var_def stop_writes_var_def vars demo_signed_config_def demo_accepted_config_def)
  ultimately show ?thesis
    by (simp add: from_env_def var_or_def vars seed read_file_def files demo_parsed number_var_def rejected_disclosure_def)
qed

theorem start_process_binds_witness:
  "\<exists>f'. start_process demo_sign_ext demo_config_ext demo_surroundings demo_legacy = (Inr demo_signed_config, f')
     \<and> (\<exists>r. db_operator (lg_v3 f') = Some r \<and> op_origin r = ''https://r'')"
proof -
  have url: "database_url demo_start_env = ''sqlite:///data/relay''" by code_simp
  have path: "resolved_path ''/'' Some ''sqlite:///data/relay'' = ''/data/relay''" by code_simp
  have "is_ok (fst (app_new demo_sign_ext demo_signed_config False empty_db))" by code_simp
  then obtain st where new: "app_new demo_sign_ext demo_signed_config False (lg_v3 demo_legacy) = (Inr (), st)"
    by (cases "app_new demo_sign_ext demo_signed_config False empty_db") (auto simp: is_ok_iff demo_legacy_def)
  have "start_process demo_sign_ext demo_config_ext demo_surroundings demo_legacy = (Inr demo_signed_config, demo_legacy\<lparr>lg_v3 := st\<rparr>)"
    by (simp add: start_process_def bindM_def lift_def ret_def demo_surroundings_def demo_environment url path io_check_def rejectM_def reject_def
        in_v3_def new Let_def)
  from start_process_binds [OF this] this show ?thesis
    by (auto simp: demo_signed_config_def demo_accepted_config_def)
qed

end
