(* ===== verification/Spec2Isabelle.thy ===== *)
theory Spec2Isabelle
  imports Relay_Reseed_Demo Relay_Gone Relay_Service
begin

text \<open>
  PallaSync relay: a store-and-forward server for end-to-end encrypted device chains. A chain has an
  administrator, devices, epochs of keys, a hash-linked data log of accepted objects and a hash-linked
  transparency log of what the relay did. The relay checks signatures and rules, never sees plain text,
  and proves what it accepted by receipts, heads and the transparency log. The code is an HTTP service in
  Rust over SQLite; this development models it from the endpoint catalogue and the request handling down to
  the rows, as functions of the database.

  \<^bold>\<open>How the model corresponds to the code.\<close> The database (\<^verbatim>\<open>src/src/db/schema.sql\<close>) is the record
  \<open>db\<close> of tables, a table a list of rows in insertion order; a primary key or unique index is the
  collision test of the insert that names it, and a trigger is part of the statement that fires it. A
  handler is a function in the state monad \<open>tx\<close>: it returns a value, an \<open>ApiError\<close> (code and context)
  or a panic, and the database it leaves; a handler that takes \<open>&mut Chain\<close> returns the new chain. JSON
  values are the datatype \<open>json\<close> with objects as sorted association lists. Numbers of the code that are
  \<open>u64\<close> are naturals; the source keeps them at most 2^53-1 by its own guards (\<open>MAX_INTEGER\<close>), which the
  invariants state. What the relay calls and does not contain (SHA-256, Ed25519, base64, the JSON reader
  and the canonical printer, Unicode normalisation, UUIDs, the clock, \<open>f64\<close> rounding) is the record
  \<open>ext\<close>, an argument of every definition; \<open>ext_ok\<close> names the documented laws the proofs use of it.

  \<^bold>\<open>Theories\<close>, in the order they build on each other.

  \<^item> \<^verbatim>\<open>Relay_Prelude\<close>: results, the state monad, its weakest-precondition rules (collections
    \<open>wp_rules\<close>, \<open>frame_rules\<close>). \<^verbatim>\<open>Relay_Json\<close>: strings as Rust has them, decimal numbers, JSON objects.
    \<^verbatim>\<open>Relay_Ext\<close>: the parameters, their laws, and executable instances for evaluation.
  \<^item> \<^verbatim>\<open>Relay_Crypto\<close>: \<^verbatim>\<open>crypto/jcs.rs\<close> (strict parser) and \<^verbatim>\<open>crypto/verify.rs\<close> (keys, signatures, hashes).
    \<^verbatim>\<open>Relay_Error\<close>: \<^verbatim>\<open>api/error.rs\<close>. \<^verbatim>\<open>Relay_Wire\<close>: \<^verbatim>\<open>api/wire.rs\<close> (closed schemas, canonical query).
  \<^item> \<^verbatim>\<open>Relay_Db\<close>: the tables, the SQL statements, and the locale \<open>keyed_table\<close> that every table with a
    primary key interprets. \<^verbatim>\<open>Relay_Store\<close>: \<^verbatim>\<open>api/store.rs\<close>. \<^verbatim>\<open>Relay_Log\<close>: hash-linked sequences, the
    locale \<open>hash_link\<close> (interpreted for both logs), the invariant \<open>chain_ok\<close> of a chain's two logs.
  \<^item> \<^verbatim>\<open>Relay_Auth\<close>: \<^verbatim>\<open>api/auth.rs\<close>. \<^verbatim>\<open>Relay_Domain\<close>: \<^verbatim>\<open>api/domain.rs\<close>. \<^verbatim>\<open>Relay_Contract\<close>: the relation
    \<open>evolves\<close>, the contract every state-changing operation keeps for its chain. \<^verbatim>\<open>Relay_Retention\<close>:
    \<^verbatim>\<open>api/retention.rs\<close>. \<^verbatim>\<open>Relay_Config\<close>: \<^verbatim>\<open>config.rs\<close>. \<^verbatim>\<open>Relay_Mutation\<close>: \<^verbatim>\<open>api/mutation.rs\<close>.
  \<^item> \<^verbatim>\<open>Relay_Deletion\<close>: \<^verbatim>\<open>api/deletion.rs\<close>. \<^verbatim>\<open>Relay_Batch\<close>: \<^verbatim>\<open>api/batch.rs\<close>. \<^verbatim>\<open>Relay_Read\<close>:
    \<^verbatim>\<open>api/read.rs\<close>. \<^verbatim>\<open>Relay_Export\<close>: \<^verbatim>\<open>api/export.rs\<close>. \<^verbatim>\<open>Relay_Import\<close>: \<^verbatim>\<open>api/import.rs\<close>, with a complete
    evaluated reseed in \<^verbatim>\<open>Relay_Reseed_Demo\<close>. \<^verbatim>\<open>Relay_Sync\<close>: \<^verbatim>\<open>api/sync.rs\<close>, from the endpoint catalogue
    to \<^verbatim>\<open>handle\<close> and the start of the process.
  \<^item> \<^verbatim>\<open>Relay_Frame\<close>: the locales \<open>run_order\<close>, \<open>state_order\<close>, \<open>reading_order\<close>, \<open>statement_order\<close>,
    \<open>relay_order\<close> of the relations that the statements respect, and the walk through every operation against
    them. \<^verbatim>\<open>Relay_System\<close>: the committed transactions as the step relation \<open>relay_tx\<close>, the refinement of
    \<^verbatim>\<open>handle\<close> to their sequences, and what holds in every reachable state, by interpretation of those locales.
    \<^verbatim>\<open>Relay_Gone\<close>: what a deleted chain still answers, and the deletion that is recorded between the two
    transactions of completion, by interpretation for \<open>closed_kept\<close>.
  \<^item> \<^verbatim>\<open>Relay_Schema\<close>: the schema evaluator of \<^verbatim>\<open>config.rs\<close>. \<^verbatim>\<open>Relay_Disclosure\<close>: the vendored
    \<^verbatim>\<open>docs/privacy.schema.json\<close> and what a document that it accepts looks like. \<^verbatim>\<open>Relay_Policy\<close>:
    \<^verbatim>\<open>RelayConfig::new\<close> and \<^verbatim>\<open>from_env\<close>, with a complete accepted disclosure.
  \<^item> \<^verbatim>\<open>Relay_Legacy\<close>: \<^verbatim>\<open>api/legacy.rs\<close>, the frozen protocol 2.1 over the tables of the former relay in the
    same file (the record \<open>legacy\<close>, which holds the tables of version 3 as its last field).
    \<^verbatim>\<open>Relay_Legacy_Laws\<close>: the locales \<open>legacy_order\<close> and \<open>legacy_requests\<close>, interpreted for isolation from
    version 3 and for deletion, and the pages of records.
  \<^item> \<^verbatim>\<open>Relay_Operator\<close>: \<^verbatim>\<open>bin/pallasync-operator.rs\<close>. \<^verbatim>\<open>Relay_Service\<close>: \<^verbatim>\<open>lib.rs\<close>, \<^verbatim>\<open>db/mod.rs\<close> and
    \<^verbatim>\<open>main.rs\<close>: both protocols, the maintenance, starts and operator commands as steps on one file, and the
    locale \<open>service_order\<close> that joins \<open>relay_run\<close> with the legacy requests.

  \<^bold>\<open>What the lemmas show.\<close> The logs: accepting an object extends both logs and keeps them linked, equal
  heads mean equal entries (or two texts that the two logs hashed collide), receipts let their holder recompute the head.
  Authentication: tokens are bound to the request and single-use, rate limits are exact. Handlers: each keeps
  \<open>evolves\<close>. Reads: pages list exactly their range, cursors resume on the same cut, transparency pages link
  from their anchor; an export holds stored rows only, and no recovery envelope unless asked for. Deletion:
  erasure removes exactly the content of open deletions, a deleted chain is gone for every later request, and a deletion
  that arrives between the two transactions of completion keeps its content for ever. Import: certificate
  passes end and accept only certified devices; a reseed continues the transparency log.

  Configuration: an accepted one is within the bounds that the handlers rely on and signed by its own key;
  what the operator signs, the server accepts. Legacy: isolated, final in its deletions, contiguous in its
  pages. Service: evidence, binding and erasure survive every sequence of steps of all parts.

  \<^bold>\<open>Loops.\<close> Worklists, certificate paths and passes, the export loop and the loop of legacy records are
  \<open>function\<close>s with termination proofs (a size, the set of unvisited devices, the devices left, the group and
  the rows left in it, the records still to come); everything else is structural, except the schema evaluator:
  it follows references and has fuel, \<open>SCHEMA_FUEL\<close> = 9, and a property of \<^verbatim>\<open>Relay_Policy\<close> proves that this is
  enough for every document against the vendored schema and that more fuel changes nothing.

  \<^bold>\<open>Not modelled.\<close> Input and output around the handlers: the HTTP server below \<^verbatim>\<open>handle\<close>, the listener,
  the timer of the maintenance and the logging of \<^verbatim>\<open>main.rs\<close>, the options of the SQLite connection
  (\<^verbatim>\<open>db/mod.rs\<close>), the text of the \<^verbatim>\<open>Date\<close> header, the permissions of the files that the operator's command
  writes. Failures of SQLite appear as the SQL errors of its constraints and as failing begin, commit and
  rollback of the transactions of a request; of the file system, as the error of the first failing operation.
\<close>

end
